(* ===== verification/Prelude.thy ===== *)
theory Prelude
  imports Main "HOL-Library.Word" "HOL-Library.Monad_Syntax"
begin

text \<open>
  Shared vocabulary of the development: the machine integers of the 32-bit ARM build, the
  kernel's error codes (\<^verbatim>\<open>libs/error.h\<close>), the rounding macros of \<^verbatim>\<open>libs/types.h\<close>, and byte
  buffers with bounds-checked little-endian access.

  Conventions used by every component.
  \<^item> A C function returning an error code is modelled by a function whose result carries an
    \<open>rc\<close>: \<open>Ok\<close> for 0 and \<open>Err e\<close> for \<open>-e\<close>.
  \<^item> The outer \<open>option\<close> says whether the C code has a defined outcome: \<open>None\<close> is an
    access outside a buffer, a failed \<^verbatim>\<open>assert\<close> (the kernel panics), or a loop that does not
    end. Proving that a call is \<open>Some\<close> is therefore a proof of memory safety, of the
    absence of panics and of termination.
\<close>

unbundle bit_operations_syntax

section \<open>Machine integers\<close>

type_synonym u8 = "8 word"
type_synonym u16 = "16 word"
type_synonym u32 = "32 word"
type_synonym u64 = "64 word"

abbreviation (input) PGSIZE :: u32 where
  "PGSIZE \<equiv> 4096"

definition ROUNDDOWN :: "u32 \<Rightarrow> u32 \<Rightarrow> u32" where
  "ROUNDDOWN a n = a - a mod n"

definition ROUNDUP :: "u32 \<Rightarrow> u32 \<Rightarrow> u32" where
  "ROUNDUP a n = ROUNDDOWN (a + n - 1) n"

definition ROUNDUP_DIV :: "u32 \<Rightarrow> u32 \<Rightarrow> u32" where
  "ROUNDUP_DIV a n = (a + n - 1) div n"

section \<open>Return codes\<close>

text \<open>The error codes in force (the list under \<^verbatim>\<open>#if 0\<close> in the header is dead), with the
  aliases at its end.\<close>

datatype errno =
    E_PERM | E_NOENT | E_SRCH | E_INTR | E_IO | E_NXIO | E_2BIG | E_NOEXEC | E_BADF
  | E_CHILD | E_AGAIN | E_NOMEM | E_ACCES | E_FAULT | E_NOTBLK | E_BUSY | E_EXIST
  | E_XDEV | E_NODEV | E_NOTDIR | E_ISDIR | E_INVAL | E_NFILE | E_MFILE | E_NOTTY
  | E_TXTBSY | E_FBIG | E_NOSPC | E_SPIPE | E_ROFS | E_MLINK | E_PIPE | E_DOM
  | E_RANGE | E_UNIMP | E_PANIC | E_KILLED | E_UNSPECIFIED | E_SWAP_FAULT

abbreviation (input) "E_NO_MEM \<equiv> E_NOMEM"
abbreviation (input) "E_NO_FREE_PROC \<equiv> E_BUSY"
abbreviation (input) "E_BAD_PROC \<equiv> E_SRCH"
abbreviation (input) "E_MAX_OPEN \<equiv> E_MFILE"
abbreviation (input) "E_EXISTS \<equiv> E_EXIST"

datatype rc = Ok | Err errno

definition cassert :: "bool \<Rightarrow> unit option" where
  "cassert b = (if b then Some () else None)"

lemma cassert_simps [simp]:
  "cassert True = Some ()"
  "cassert False = None"
  by (simp_all add: cassert_def)

lemma cassert_eq_Some [simp]: "cassert b = Some u \<longleftrightarrow> b"
  by (simp add: cassert_def)

text \<open>\<open>returns f Q\<close>: the code \<open>f\<close> has a defined outcome and it satisfies \<open>Q\<close>. The equations
  walk through sequenced code; the primitive operations have introduction rules in the
  collection \<open>returnsI\<close>.\<close>

definition returns :: "'a option \<Rightarrow> ('a \<Rightarrow> bool) \<Rightarrow> bool" where
  "returns f Q \<longleftrightarrow> (\<exists>x. f = Some x \<and> Q x)"

named_theorems returnsI \<open>introduction rules for defined outcomes of primitive operations\<close>

lemma returns_simps [simp]:
  "returns (Some x) Q \<longleftrightarrow> Q x"
  "\<not> returns None Q"
  "returns (Option.bind f g) Q \<longleftrightarrow> returns f (\<lambda>x. returns (g x) Q)"
  "returns (if b then f1 else f2) Q \<longleftrightarrow> (b \<longrightarrow> returns f1 Q) \<and> (\<not> b \<longrightarrow> returns f2 Q)"
  by (auto simp: returns_def Option.bind_eq_Some_conv)

lemma returns_mono: "returns f Q \<Longrightarrow> (\<And>x. f = Some x \<Longrightarrow> Q x \<Longrightarrow> R x) \<Longrightarrow> returns f R"
  by (auto simp: returns_def)

lemma returnsE: "returns f Q \<Longrightarrow> (\<And>x. f = Some x \<Longrightarrow> Q x \<Longrightarrow> thesis) \<Longrightarrow> thesis"
  by (auto simp: returns_def)

text \<open>\<open>ensures f Q\<close>: if \<open>f\<close> has a defined outcome, it satisfies \<open>Q\<close>.\<close>

definition ensures :: "'a option \<Rightarrow> ('a \<Rightarrow> bool) \<Rightarrow> bool" where
  "ensures f Q \<longleftrightarrow> (\<forall>x. f = Some x \<longrightarrow> Q x)"

lemma ensures_simps [simp]:
  "ensures (Some x) Q \<longleftrightarrow> Q x"
  "ensures None Q"
  "ensures (Option.bind f g) Q \<longleftrightarrow> ensures f (\<lambda>x. ensures (g x) Q)"
  "ensures (if b then f1 else f2) Q \<longleftrightarrow> (b \<longrightarrow> ensures f1 Q) \<and> (\<not> b \<longrightarrow> ensures f2 Q)"
  by (auto simp: ensures_def Option.bind_eq_Some_conv)

lemma ensures_mono: "ensures f Q \<Longrightarrow> (\<And>x. f = Some x \<Longrightarrow> Q x \<Longrightarrow> R x) \<Longrightarrow> ensures f R"
  by (auto simp: ensures_def)

lemma ensuresI: "(\<And>x. f = Some x \<Longrightarrow> Q x) \<Longrightarrow> ensures f Q"
  by (simp add: ensures_def)

lemma ensuresD: "ensures f Q \<Longrightarrow> f = Some x \<Longrightarrow> Q x"
  by (simp add: ensures_def)

lemma returns_ensures: "returns f P \<Longrightarrow> ensures f Q \<Longrightarrow> returns f Q"
  by (auto simp: returns_def ensures_def)

section \<open>Byte buffers\<close>

text \<open>A buffer is the list of its bytes. Every access is checked against its length.\<close>

definition load_bytes :: "u8 list \<Rightarrow> nat \<Rightarrow> nat \<Rightarrow> u8 list option" where
  "load_bytes m i n = (if i + n \<le> length m then Some (take n (drop i m)) else None)"

definition store_bytes :: "u8 list \<Rightarrow> nat \<Rightarrow> u8 list \<Rightarrow> u8 list option" where
  "store_bytes m i bs =
     (if i + length bs \<le> length m
      then Some (take i m @ bs @ drop (i + length bs) m) else None)"

definition load8 :: "u8 list \<Rightarrow> nat \<Rightarrow> u8 option" where
  "load8 m i = (if i < length m then Some (m ! i) else None)"

definition store8 :: "u8 list \<Rightarrow> nat \<Rightarrow> u8 \<Rightarrow> u8 list option" where
  "store8 m i v = store_bytes m i [v]"

definition u16_bytes :: "u16 \<Rightarrow> u8 list" where
  "u16_bytes v = [ucast v, ucast (drop_bit 8 v)]"

definition u32_bytes :: "u32 \<Rightarrow> u8 list" where
  "u32_bytes v = [ucast v, ucast (drop_bit 8 v), ucast (drop_bit 16 v), ucast (drop_bit 24 v)]"

definition bytes_u16 :: "u8 list \<Rightarrow> u16" where
  "bytes_u16 bs = ucast (bs ! 0) OR push_bit 8 (ucast (bs ! 1))"

definition bytes_u32 :: "u8 list \<Rightarrow> u32" where
  "bytes_u32 bs =
     ucast (bs ! 0) OR push_bit 8 (ucast (bs ! 1)) OR push_bit 16 (ucast (bs ! 2))
     OR push_bit 24 (ucast (bs ! 3))"

definition memcpy :: "u8 list \<Rightarrow> nat \<Rightarrow> u8 list \<Rightarrow> nat \<Rightarrow> nat \<Rightarrow> u8 list option" where
  "memcpy dst i src j n = do { bs \<leftarrow> load_bytes src j n; store_bytes dst i bs }"

named_theorems buf_simps \<open>facts on checked buffer access\<close>

lemma length_u16_bytes [simp]: "length (u16_bytes v) = 2"
  by (simp add: u16_bytes_def)

lemma length_u32_bytes [simp]: "length (u32_bytes v) = 4"
  by (simp add: u32_bytes_def)

lemma bytes_u16_u16_bytes [simp]: "bytes_u16 (u16_bytes v) = v"
  by (rule bit_word_eqI) (simp add: bytes_u16_def u16_bytes_def bit_or_iff bit_push_bit_iff bit_drop_bit_eq bit_unsigned_iff; auto)

lemma bytes_u32_u32_bytes [simp]: "bytes_u32 (u32_bytes v) = v"
proof (rule bit_word_eqI)
  fix n assume n: "n < LENGTH(32)"
  have eq: "bit (bytes_u32 (u32_bytes v)) n \<longleftrightarrow>
    n < 8 \<and> bit v n \<or> 8 \<le> n \<and> n - 8 < 32 \<and> n - 8 < 8 \<and> bit v (8 + (n - 8)) \<or>
    16 \<le> n \<and> n - 16 < 32 \<and> n - 16 < 8 \<and> bit v (16 + (n - 16)) \<or>
    24 \<le> n \<and> n - 24 < 32 \<and> n - 24 < 8 \<and> bit v (24 + (n - 24))"
    using n
    by (simp add: bytes_u32_def u32_bytes_def bit_or_iff bit_push_bit_iff bit_drop_bit_eq
        bit_unsigned_iff conj_commute)
  consider "n < 8" | k where "k < 8" "n = 8 + k" | k where "k < 8" "n = 16 + k"
    | k where "k < 8" "n = 24 + k"
  proof -
    have "n < 8 \<or> n - 8 < 8 \<and> n = 8 + (n - 8) \<or> n - 16 < 8 \<and> n = 16 + (n - 16)
      \<or> n - 24 < 8 \<and> n = 24 + (n - 24)"
      using n by simp arith
    then show ?thesis using that by blast
  qed
  then show "bit (bytes_u32 (u32_bytes v)) n = bit v n"
    unfolding eq by cases simp_all
qed

lemma store_bytes_eq_Some [buf_simps]:
  "store_bytes m i bs = Some m' \<longleftrightarrow>
     i + length bs \<le> length m \<and> m' = take i m @ bs @ drop (i + length bs) m"
  by (auto simp: store_bytes_def)

lemma store_bytes_length: "store_bytes m i bs = Some m' \<Longrightarrow> length m' = length m"
  by (auto simp: store_bytes_eq_Some)

lemma store_bytes_defined: "(\<exists>m'. store_bytes m i bs = Some m') \<longleftrightarrow> i + length bs \<le> length m"
  by (auto simp: store_bytes_def)

lemma store_bytes_nth:
  "store_bytes m i bs = Some m' \<Longrightarrow> k < length m \<Longrightarrow>
     m' ! k = (if i \<le> k \<and> k < i + length bs then bs ! (k - i) else m ! k)"
  by (auto simp: store_bytes_eq_Some nth_append min_def)

lemma load_store_same: "store_bytes m i bs = Some m' \<Longrightarrow> load_bytes m' i (length bs) = Some bs"
  by (auto simp: store_bytes_eq_Some load_bytes_def)

lemma load_bytes_eq_Some [buf_simps]:
  "load_bytes m i n = Some bs \<longleftrightarrow> i + n \<le> length m \<and> bs = take n (drop i m)"
  by (auto simp: load_bytes_def)

lemma load_bytes_length: "load_bytes m i n = Some bs \<Longrightarrow> length bs = n"
  by (auto simp: load_bytes_eq_Some)

lemma load_store_other:
  assumes "store_bytes m i bs = Some m'" and "j + n \<le> i \<or> i + length bs \<le> j"
  shows "load_bytes m' j n = load_bytes m j n"
proof (cases "j + n \<le> length m")
  case True
  have len: "length m' = length m" using assms(1) by (rule store_bytes_length)
  have "take n (drop j m') = take n (drop j m)"
  proof (rule nth_equalityI)
    show "length (take n (drop j m')) = length (take n (drop j m))" using len by simp
    fix k assume "k < length (take n (drop j m'))"
    then have k: "k < n" "j + k < length m" using len by auto
    then have "m' ! (j + k) = m ! (j + k)"
      using assms(2) store_bytes_nth [OF assms(1) k(2)] by auto
    then show "take n (drop j m') ! k = take n (drop j m) ! k" using k len True by simp
  qed
  then show ?thesis using len by (simp add: load_bytes_def)
next
  case False
  then show ?thesis using store_bytes_length [OF assms(1)] by (simp add: load_bytes_def)
qed

lemma memcpy_eq_Some [buf_simps]:
  "memcpy dst i src j n = Some dst' \<longleftrightarrow>
     j + n \<le> length src \<and> i + n \<le> length dst \<and>
     dst' = take i dst @ take n (drop j src) @ drop (i + n) dst"
  by (auto simp: memcpy_def load_bytes_def store_bytes_def Option.bind_eq_Some_conv)

lemma memcpy_store:
  "memcpy dst i src j n = Some dst' \<Longrightarrow>
     \<exists>bs. length bs = n \<and> load_bytes src j n = Some bs \<and> store_bytes dst i bs = Some dst'"
  by (auto simp: memcpy_def Option.bind_eq_Some_conv load_bytes_eq_Some)

text \<open>A buffer that only changed in the window from \<open>a\<close> up to \<open>b\<close>.\<close>

definition only_changes :: "nat \<Rightarrow> nat \<Rightarrow> 'a list \<Rightarrow> 'a list \<Rightarrow> bool" where
  "only_changes a b m m' \<longleftrightarrow> length m' = length m \<and> take a m' = take a m \<and> drop b m' = drop b m"

named_theorems frame_intros \<open>introduction rules for only_changes\<close>

lemma only_changes_refl [simp, frame_intros]: "only_changes a b m m"
  by (simp add: only_changes_def)

lemma only_changes_length: "only_changes a b m m' \<Longrightarrow> length m' = length m"
  by (simp add: only_changes_def)

lemma only_changes_trans: "only_changes a b m m' \<Longrightarrow> only_changes a b m' m'' \<Longrightarrow> only_changes a b m m''"
  by (simp add: only_changes_def)

lemma only_changes_mono:
  assumes "only_changes a b m m'" "a' \<le> a" "b \<le> b'"
  shows "only_changes a' b' m m'"
proof -
  have "take a' m' = take a' (take a m')" "take a' m = take a' (take a m)"
    "drop b' m' = drop (b' - b) (drop b m')" "drop b' m = drop (b' - b) (drop b m)"
    using assms(2,3) by (simp_all add: min_absorb1)
  moreover have "length m' = length m" "take a m' = take a m" "drop b m' = drop b m"
    using assms(1) by (simp_all add: only_changes_def)
  ultimately show ?thesis unfolding only_changes_def by metis
qed

lemma only_changes_nth:
  "only_changes a b m m' \<Longrightarrow> k < length m \<Longrightarrow> k < a \<or> b \<le> k \<Longrightarrow> m' ! k = m ! k"
  unfolding only_changes_def by (metis le_add_diff_inverse nth_drop nth_take order.trans less_imp_le)

lemma store_bytes_only_changes [frame_intros]:
  assumes "store_bytes m i bs = Some m'" "a \<le> i" "i + length bs \<le> b"
  shows "only_changes a b m m'"
proof (rule only_changes_mono)
  show "only_changes i (i + length bs) m m'"
    using assms(1) by (auto simp: only_changes_def store_bytes_eq_Some)
qed fact+

lemma memcpy_only_changes [frame_intros]:
  "memcpy m i src j n = Some m' \<Longrightarrow> a \<le> i \<Longrightarrow> i + n \<le> b \<Longrightarrow> only_changes a b m m'"
  using memcpy_store [of m i src j n m'] store_bytes_only_changes by blast

lemma store8_only_changes [frame_intros]:
  "store8 m i x = Some m' \<Longrightarrow> a \<le> i \<Longrightarrow> i + 1 \<le> b \<Longrightarrow> only_changes a b m m'"
  by (auto simp: store8_def intro: store_bytes_only_changes)

lemma load8_returns [returnsI]: "i < length m \<Longrightarrow> Q (m ! i) \<Longrightarrow> returns (load8 m i) Q"
  by (simp add: load8_def)

lemma store_bytes_returns [returnsI]:
  "i + length bs \<le> length m \<Longrightarrow>
     (\<And>m'. store_bytes m i bs = Some m' \<Longrightarrow> length m' = length m \<Longrightarrow> Q m') \<Longrightarrow>
     returns (store_bytes m i bs) Q"
  by (simp add: returns_def store_bytes_eq_Some)

lemma store8_returns [returnsI]:
  "i < length m \<Longrightarrow> (\<And>m'. store8 m i x = Some m' \<Longrightarrow> length m' = length m \<Longrightarrow> Q m') \<Longrightarrow>
     returns (store8 m i x) Q"
  unfolding store8_def by (rule store_bytes_returns) auto

lemma memcpy_returns [returnsI]:
  assumes "j + n \<le> length src" "i + n \<le> length m"
    "\<And>m'. memcpy m i src j n = Some m' \<Longrightarrow> length m' = length m \<Longrightarrow> Q m'"
  shows "returns (memcpy m i src j n) Q"
  using assms by (simp add: returns_def memcpy_eq_Some)

section \<open>Lists updated by index\<close>

lemma nth_list_update_in: "j < length xs \<Longrightarrow> xs[i := x] ! j = (if i = j then x else xs ! j)"
  by (cases "i < length xs") (auto simp: list_update_beyond)

lemma sum_list_const_plus: "sum_list (map (\<lambda>x. c + g x) xs) = length xs * c + sum_list (map g xs)"
  for c :: nat
  by (simp add: sum_list_addf sum_list_triv)

lemma sum_list_only_first:
  "a < b \<Longrightarrow> sum_list (map (\<lambda>x. if x = a then c else 0) [a..<b]) = (c :: nat)"
  by (simp add: upt_conv_Cons cong: map_cong)

section \<open>Arithmetic on words\<close>

lemma unat_of_nat_u32: "k < 2 ^ 32 \<Longrightarrow> unat (of_nat k :: u32) = k"
  by (simp add: unat_of_nat take_bit_nat_eq_self)

lemma unat_add_small:
  "unat x + unat y < 2 ^ LENGTH('a) \<Longrightarrow> unat (x + y) = unat x + unat y"
  for x y :: "'a::len word"
  by (rule unat_add_lem [THEN iffD1])

lemma unat_inc:
  fixes x y :: "'a::len word"
  assumes "x < y"
  shows "unat (x + 1) = Suc (unat x)"
proof -
  have "unat y < 2 ^ LENGTH('a)" by (rule unsigned_less)
  then have "Suc (unat x) < 2 ^ LENGTH('a)"
    using assms by (simp only: word_less_nat_alt)
  then show ?thesis using unat_add_small [of x 1] by simp
qed

lemma unat_ucast_u8 [simp]: "unat (ucast (x :: u8) :: u32) = unat x"
  by transfer simp

lemma ucast_ucast_u8 [simp]: "ucast (ucast (x :: u8) :: u32) = x"
  by transfer simp

lemma u8_le_255 [simp]: "(x :: u8) \<le> 255"
  using unsigned_less [of x, where 'a = nat] by (simp add: word_le_nat_alt)

lemma word_div_bound:
  fixes sz off len k :: "'a::len word"
  assumes "off \<le> sz" "len \<le> (sz - off) div k"
  shows "unat off + unat len * unat k \<le> unat sz"
proof -
  have "unat len \<le> (unat sz - unat off) div unat k"
    using assms by (simp add: word_le_nat_alt unat_div unat_sub)
  then have "unat len * unat k \<le> unat sz - unat off"
    by (metis div_times_less_eq_dividend le_trans mult_le_mono1)
  then show ?thesis using assms(1) by (simp add: word_le_nat_alt)
qed

lemma unat_ROUNDDOWN: "unat (ROUNDDOWN a n) = unat a - unat a mod unat n"
  unfolding ROUNDDOWN_def
  by (simp add: unat_sub word_le_nat_alt unat_mod)

lemma unat_ROUNDUP:
  assumes "0 < n" and "unat a + unat n \<le> 2 ^ 32"
  shows "unat (ROUNDUP a n) = (unat a + unat n - 1) div unat n * unat n"
proof -
  have n: "0 < unat n" using assms(1) by (simp add: word_less_nat_alt)
  have "unat (a + n - 1) = unat a + unat n - 1"
  proof -
    have "a + n - 1 = of_nat (unat a + unat n - 1)"
      using n by (simp add: of_nat_diff)
    moreover have "unat (of_nat (unat a + unat n - 1) :: u32) = unat a + unat n - 1"
      by (rule unat_of_nat_u32) (use assms(2) n in simp)
    ultimately show ?thesis by simp
  qed
  then show ?thesis
    by (simp add: ROUNDUP_def unat_ROUNDDOWN minus_mod_eq_div_mult)
qed

lemma ROUNDUP_ge:
  assumes "0 < n" and "unat a + unat n \<le> 2 ^ 32"
  shows "unat a \<le> unat (ROUNDUP a n)"
proof -
  have n: "0 < unat n" using assms(1) by (simp add: word_less_nat_alt)
  have "unat a + unat n - 1 = (unat a + unat n - 1) div unat n * unat n + (unat a + unat n - 1) mod unat n"
    by simp
  moreover have "(unat a + unat n - 1) mod unat n < unat n" using n by simp
  ultimately show ?thesis using unat_ROUNDUP [OF assms] n by linarith
qed

end
