(* ===== verification/Vc4_Packet.thy ===== *)
theory Vc4_Packet
  imports Prelude
begin

text \<open>
  The control-list vocabulary of the VideoCore IV GPU
  (\<^verbatim>\<open>arch/arm/mach-raspberrypi/vc4/vc4_packet.h\<close>, the field macros of \<^verbatim>\<open>vc4_regs.h\<close> and the
  ioctl structures of \<^verbatim>\<open>vc4_drm.h\<close>): packet numbers and sizes, bit fields, and the arguments
  of a job submission.
\<close>

section \<open>Packets\<close>

datatype vc4_packet =
    VC4_PACKET_HALT | VC4_PACKET_NOP | VC4_PACKET_FLUSH | VC4_PACKET_FLUSH_ALL
  | VC4_PACKET_START_TILE_BINNING | VC4_PACKET_INCREMENT_SEMAPHORE
  | VC4_PACKET_WAIT_ON_SEMAPHORE | VC4_PACKET_BRANCH | VC4_PACKET_BRANCH_TO_SUB_LIST
  | VC4_PACKET_STORE_MS_TILE_BUFFER | VC4_PACKET_STORE_MS_TILE_BUFFER_AND_EOF
  | VC4_PACKET_STORE_FULL_RES_TILE_BUFFER | VC4_PACKET_LOAD_FULL_RES_TILE_BUFFER
  | VC4_PACKET_STORE_TILE_BUFFER_GENERAL | VC4_PACKET_LOAD_TILE_BUFFER_GENERAL
  | VC4_PACKET_GL_INDEXED_PRIMITIVE | VC4_PACKET_GL_ARRAY_PRIMITIVE
  | VC4_PACKET_COMPRESSED_PRIMITIVE | VC4_PACKET_CLIPPED_COMPRESSED_PRIMITIVE
  | VC4_PACKET_PRIMITIVE_LIST_FORMAT | VC4_PACKET_GL_SHADER_STATE
  | VC4_PACKET_NV_SHADER_STATE | VC4_PACKET_VG_SHADER_STATE
  | VC4_PACKET_CONFIGURATION_BITS | VC4_PACKET_FLAT_SHADE_FLAGS | VC4_PACKET_POINT_SIZE
  | VC4_PACKET_LINE_WIDTH | VC4_PACKET_RHT_X_BOUNDARY | VC4_PACKET_DEPTH_OFFSET
  | VC4_PACKET_CLIP_WINDOW | VC4_PACKET_VIEWPORT_OFFSET | VC4_PACKET_Z_CLIPPING
  | VC4_PACKET_CLIPPER_XY_SCALING | VC4_PACKET_CLIPPER_Z_SCALING
  | VC4_PACKET_TILE_BINNING_MODE_CONFIG | VC4_PACKET_TILE_RENDERING_MODE_CONFIG
  | VC4_PACKET_CLEAR_COLORS | VC4_PACKET_TILE_COORDINATES | VC4_PACKET_GEM_HANDLES

text \<open>The value of each enumerator.\<close>

primrec packet_code :: "vc4_packet \<Rightarrow> u8" where
  "packet_code VC4_PACKET_HALT = 0"
| "packet_code VC4_PACKET_NOP = 1"
| "packet_code VC4_PACKET_FLUSH = 4"
| "packet_code VC4_PACKET_FLUSH_ALL = 5"
| "packet_code VC4_PACKET_START_TILE_BINNING = 6"
| "packet_code VC4_PACKET_INCREMENT_SEMAPHORE = 7"
| "packet_code VC4_PACKET_WAIT_ON_SEMAPHORE = 8"
| "packet_code VC4_PACKET_BRANCH = 16"
| "packet_code VC4_PACKET_BRANCH_TO_SUB_LIST = 17"
| "packet_code VC4_PACKET_STORE_MS_TILE_BUFFER = 24"
| "packet_code VC4_PACKET_STORE_MS_TILE_BUFFER_AND_EOF = 25"
| "packet_code VC4_PACKET_STORE_FULL_RES_TILE_BUFFER = 26"
| "packet_code VC4_PACKET_LOAD_FULL_RES_TILE_BUFFER = 27"
| "packet_code VC4_PACKET_STORE_TILE_BUFFER_GENERAL = 28"
| "packet_code VC4_PACKET_LOAD_TILE_BUFFER_GENERAL = 29"
| "packet_code VC4_PACKET_GL_INDEXED_PRIMITIVE = 32"
| "packet_code VC4_PACKET_GL_ARRAY_PRIMITIVE = 33"
| "packet_code VC4_PACKET_COMPRESSED_PRIMITIVE = 48"
| "packet_code VC4_PACKET_CLIPPED_COMPRESSED_PRIMITIVE = 49"
| "packet_code VC4_PACKET_PRIMITIVE_LIST_FORMAT = 56"
| "packet_code VC4_PACKET_GL_SHADER_STATE = 64"
| "packet_code VC4_PACKET_NV_SHADER_STATE = 65"
| "packet_code VC4_PACKET_VG_SHADER_STATE = 66"
| "packet_code VC4_PACKET_CONFIGURATION_BITS = 96"
| "packet_code VC4_PACKET_FLAT_SHADE_FLAGS = 97"
| "packet_code VC4_PACKET_POINT_SIZE = 98"
| "packet_code VC4_PACKET_LINE_WIDTH = 99"
| "packet_code VC4_PACKET_RHT_X_BOUNDARY = 100"
| "packet_code VC4_PACKET_DEPTH_OFFSET = 101"
| "packet_code VC4_PACKET_CLIP_WINDOW = 102"
| "packet_code VC4_PACKET_VIEWPORT_OFFSET = 103"
| "packet_code VC4_PACKET_Z_CLIPPING = 104"
| "packet_code VC4_PACKET_CLIPPER_XY_SCALING = 105"
| "packet_code VC4_PACKET_CLIPPER_Z_SCALING = 106"
| "packet_code VC4_PACKET_TILE_BINNING_MODE_CONFIG = 112"
| "packet_code VC4_PACKET_TILE_RENDERING_MODE_CONFIG = 113"
| "packet_code VC4_PACKET_CLEAR_COLORS = 114"
| "packet_code VC4_PACKET_TILE_COORDINATES = 115"
| "packet_code VC4_PACKET_GEM_HANDLES = 254"

text \<open>The size in bytes of each packet, its number included (the \<^verbatim>\<open>VC4_PACKET_*_SIZE\<close> macros).\<close>

primrec packet_size :: "vc4_packet \<Rightarrow> u32" where
  "packet_size VC4_PACKET_HALT = 1"
| "packet_size VC4_PACKET_NOP = 1"
| "packet_size VC4_PACKET_FLUSH = 1"
| "packet_size VC4_PACKET_FLUSH_ALL = 1"
| "packet_size VC4_PACKET_START_TILE_BINNING = 1"
| "packet_size VC4_PACKET_INCREMENT_SEMAPHORE = 1"
| "packet_size VC4_PACKET_WAIT_ON_SEMAPHORE = 1"
| "packet_size VC4_PACKET_BRANCH = 5"
| "packet_size VC4_PACKET_BRANCH_TO_SUB_LIST = 5"
| "packet_size VC4_PACKET_STORE_MS_TILE_BUFFER = 1"
| "packet_size VC4_PACKET_STORE_MS_TILE_BUFFER_AND_EOF = 1"
| "packet_size VC4_PACKET_STORE_FULL_RES_TILE_BUFFER = 5"
| "packet_size VC4_PACKET_LOAD_FULL_RES_TILE_BUFFER = 5"
| "packet_size VC4_PACKET_STORE_TILE_BUFFER_GENERAL = 7"
| "packet_size VC4_PACKET_LOAD_TILE_BUFFER_GENERAL = 7"
| "packet_size VC4_PACKET_GL_INDEXED_PRIMITIVE = 14"
| "packet_size VC4_PACKET_GL_ARRAY_PRIMITIVE = 10"
| "packet_size VC4_PACKET_COMPRESSED_PRIMITIVE = 1"
| "packet_size VC4_PACKET_CLIPPED_COMPRESSED_PRIMITIVE = 1"
| "packet_size VC4_PACKET_PRIMITIVE_LIST_FORMAT = 2"
| "packet_size VC4_PACKET_GL_SHADER_STATE = 5"
| "packet_size VC4_PACKET_NV_SHADER_STATE = 5"
| "packet_size VC4_PACKET_VG_SHADER_STATE = 5"
| "packet_size VC4_PACKET_CONFIGURATION_BITS = 4"
| "packet_size VC4_PACKET_FLAT_SHADE_FLAGS = 5"
| "packet_size VC4_PACKET_POINT_SIZE = 5"
| "packet_size VC4_PACKET_LINE_WIDTH = 5"
| "packet_size VC4_PACKET_RHT_X_BOUNDARY = 3"
| "packet_size VC4_PACKET_DEPTH_OFFSET = 5"
| "packet_size VC4_PACKET_CLIP_WINDOW = 9"
| "packet_size VC4_PACKET_VIEWPORT_OFFSET = 5"
| "packet_size VC4_PACKET_Z_CLIPPING = 9"
| "packet_size VC4_PACKET_CLIPPER_XY_SCALING = 9"
| "packet_size VC4_PACKET_CLIPPER_Z_SCALING = 9"
| "packet_size VC4_PACKET_TILE_BINNING_MODE_CONFIG = 16"
| "packet_size VC4_PACKET_TILE_RENDERING_MODE_CONFIG = 11"
| "packet_size VC4_PACKET_CLEAR_COLORS = 14"
| "packet_size VC4_PACKET_TILE_COORDINATES = 3"
| "packet_size VC4_PACKET_GEM_HANDLES = 9"

section \<open>Bit fields\<close>

definition VC4_MASK :: "nat \<Rightarrow> nat \<Rightarrow> u32" where
  "VC4_MASK high low = push_bit low (push_bit (high - low + 1) 1 - 1)"

definition VC4_GET_FIELD :: "u32 \<Rightarrow> u32 \<Rightarrow> nat \<Rightarrow> u32" where
  "VC4_GET_FIELD w fmask shift = drop_bit shift (w AND fmask)"

text \<open>The statement expression asserts that the value fits in the field.\<close>

definition VC4_SET_FIELD :: "u32 \<Rightarrow> u32 \<Rightarrow> nat \<Rightarrow> u32 option" where
  "VC4_SET_FIELD v fmask shift =
     (let fieldval = push_bit shift v in do {
        cassert (fieldval AND NOT fmask = 0);
        Some (fieldval AND fmask) })"

abbreviation (input) "VC4_TILING_FORMAT_LINEAR \<equiv> 0"
abbreviation (input) "VC4_TILING_FORMAT_T \<equiv> 1"
abbreviation (input) "VC4_TILING_FORMAT_LT \<equiv> 2"

abbreviation (input) VC4_LOADSTORE_TILE_BUFFER_EOF :: u32 where
  "VC4_LOADSTORE_TILE_BUFFER_EOF \<equiv> 8"

abbreviation (input) VC4_STORE_TILE_BUFFER_DISABLE_VG_MASK_CLEAR :: u32 where
  "VC4_STORE_TILE_BUFFER_DISABLE_VG_MASK_CLEAR \<equiv> 32768"
abbreviation (input) VC4_STORE_TILE_BUFFER_DISABLE_ZS_CLEAR :: u32 where
  "VC4_STORE_TILE_BUFFER_DISABLE_ZS_CLEAR \<equiv> 16384"
abbreviation (input) VC4_STORE_TILE_BUFFER_DISABLE_COLOR_CLEAR :: u32 where
  "VC4_STORE_TILE_BUFFER_DISABLE_COLOR_CLEAR \<equiv> 8192"

abbreviation (input) "VC4_LOADSTORE_TILE_BUFFER_FORMAT_MASK \<equiv> VC4_MASK 9 8"
abbreviation (input) "VC4_LOADSTORE_TILE_BUFFER_FORMAT_SHIFT \<equiv> 8"
abbreviation (input) "VC4_LOADSTORE_TILE_BUFFER_RGBA8888 \<equiv> 0"
abbreviation (input) "VC4_LOADSTORE_TILE_BUFFER_BGR565_DITHER \<equiv> 1"
abbreviation (input) "VC4_LOADSTORE_TILE_BUFFER_BGR565 \<equiv> 2"
abbreviation (input) "VC4_LOADSTORE_TILE_BUFFER_TILING_MASK \<equiv> VC4_MASK 5 4"
abbreviation (input) "VC4_LOADSTORE_TILE_BUFFER_TILING_SHIFT \<equiv> 4"
abbreviation (input) "VC4_LOADSTORE_TILE_BUFFER_BUFFER_MASK \<equiv> VC4_MASK 2 0"
abbreviation (input) "VC4_LOADSTORE_TILE_BUFFER_BUFFER_SHIFT \<equiv> 0"
abbreviation (input) "VC4_LOADSTORE_TILE_BUFFER_NONE \<equiv> 0"
abbreviation (input) "VC4_LOADSTORE_TILE_BUFFER_COLOR \<equiv> 1"
abbreviation (input) "VC4_LOADSTORE_TILE_BUFFER_ZS \<equiv> 2"

abbreviation (input) "VC4_BIN_CONFIG_ALLOC_BLOCK_SIZE_MASK \<equiv> VC4_MASK 6 5"
abbreviation (input) "VC4_BIN_CONFIG_ALLOC_BLOCK_SIZE_SHIFT \<equiv> 5"
abbreviation (input) "VC4_BIN_CONFIG_ALLOC_BLOCK_SIZE_128 \<equiv> 2"
abbreviation (input) "VC4_BIN_CONFIG_ALLOC_INIT_BLOCK_SIZE_MASK \<equiv> VC4_MASK 4 3"
abbreviation (input) "VC4_BIN_CONFIG_ALLOC_INIT_BLOCK_SIZE_SHIFT \<equiv> 3"
abbreviation (input) "VC4_BIN_CONFIG_ALLOC_INIT_BLOCK_SIZE_32 \<equiv> 0"
abbreviation (input) VC4_BIN_CONFIG_AUTO_INIT_TSDA :: u32 where
  "VC4_BIN_CONFIG_AUTO_INIT_TSDA \<equiv> 4"

abbreviation (input) "VC4_RENDER_CONFIG_MEMORY_FORMAT_MASK \<equiv> VC4_MASK 7 6"
abbreviation (input) "VC4_RENDER_CONFIG_MEMORY_FORMAT_SHIFT \<equiv> 6"
abbreviation (input) "VC4_RENDER_CONFIG_FORMAT_MASK \<equiv> VC4_MASK 3 2"
abbreviation (input) "VC4_RENDER_CONFIG_FORMAT_SHIFT \<equiv> 2"
abbreviation (input) "VC4_RENDER_CONFIG_FORMAT_BGR565_DITHERED \<equiv> 0"
abbreviation (input) "VC4_RENDER_CONFIG_FORMAT_RGBA8888 \<equiv> 1"
abbreviation (input) "VC4_RENDER_CONFIG_FORMAT_BGR565 \<equiv> 2"

section \<open>Arguments of the ioctls\<close>

record drm_vc4_submit_rcl_surface =
  hindex :: u32
  offset :: u32
  bits :: u16
  surf_flags :: u16

record drm_vc4_submit_cl =
  bin_cl :: u64
  shader_rec :: u64
  uniforms :: u64
  bo_handles :: u64
  bin_cl_size :: u32
  args_shader_rec_size :: u32
  shader_rec_count :: u32
  uniforms_size :: u32
  bo_handle_count :: u32
  width :: u16
  height :: u16
  min_x_tile :: u8
  min_y_tile :: u8
  max_x_tile :: u8
  max_y_tile :: u8
  args_color_read :: drm_vc4_submit_rcl_surface
  args_color_write :: drm_vc4_submit_rcl_surface
  args_zs_read :: drm_vc4_submit_rcl_surface
  args_zs_write :: drm_vc4_submit_rcl_surface
  msaa_color_write :: drm_vc4_submit_rcl_surface
  msaa_zs_write :: drm_vc4_submit_rcl_surface
  clear_color :: "u32 \<times> u32"
  clear_z :: u32
  clear_s :: u8
  args_flags :: u32
  seqno :: u64

abbreviation (input) VC4_SUBMIT_CL_USE_CLEAR_COLOR :: u32 where
  "VC4_SUBMIT_CL_USE_CLEAR_COLOR \<equiv> 1"

record drm_vc4_create_bo =
  create_size :: u32
  create_handle :: u32
  create_flags :: u32

abbreviation (input) VC4_CREATE_BO_IS_FRAMEBUFFER :: u32 where
  "VC4_CREATE_BO_IS_FRAMEBUFFER \<equiv> 1"

record drm_vc4_mmap_bo =
  mmap_handle :: u32
  mmap_offset :: u32

record drm_vc4_free_bo =
  free_handle :: u32

section \<open>Facts on the vocabulary\<close>

lemma packet_size_bounds: "1 \<le> unat (packet_size p) \<and> unat (packet_size p) \<le> 16"
  by (cases p) simp_all

lemma packet_size_pos: "0 < unat (packet_size p)"
  using packet_size_bounds [of p] by simp

lemma VC4_MASK_values [simp]:
  "VC4_MASK 9 8 = 768" "VC4_MASK 7 6 = 192" "VC4_MASK 6 5 = 96" "VC4_MASK 5 4 = 48"
  "VC4_MASK 4 3 = 24" "VC4_MASK 3 2 = 12" "VC4_MASK 2 0 = 7"
  by (simp_all add: VC4_MASK_def)

end
