(* ===== verification/Mailbox.thy ===== *)
theory Mailbox
  imports Prelude
begin

text \<open>
  The property channel of the Raspberry Pi mailbox
  (\<^verbatim>\<open>arch/arm/mach-raspberrypi/mailbox_property.c\<close>). The kernel builds a message of 32-bit
  words, hands it to the VideoCore firmware and reads the answer out of the same buffer.

  The firmware is not part of the repository: it is the argument \<open>fw\<close>, a function from its own
  state and the message to the answer and its next state. It overwrites the message in place,
  which \<open>in_place\<close> says: no answer makes the buffer longer or shorter. The two register
  accesses (\<^verbatim>\<open>mbox_write\<close>, \<^verbatim>\<open>mbox_read\<close>, whose result is ignored) are the call of \<open>fw\<close>.
\<close>

type_synonym 'f firmware = "'f \<Rightarrow> u32 list \<Rightarrow> u32 list \<times> 'f"

abbreviation (input) RPI_FIRMWARE_STATUS_REQUEST :: u32 where "RPI_FIRMWARE_STATUS_REQUEST \<equiv> 0"
abbreviation (input) RPI_FIRMWARE_STATUS_SUCCESS :: u32 where "RPI_FIRMWARE_STATUS_SUCCESS \<equiv> 0x80000000"
abbreviation (input) RPI_FIRMWARE_PROPERTY_END :: u32 where "RPI_FIRMWARE_PROPERTY_END \<equiv> 0"
abbreviation (input) RPI_FIRMWARE_ALLOCATE_MEMORY :: u32 where "RPI_FIRMWARE_ALLOCATE_MEMORY \<equiv> 0x0003000c"
abbreviation (input) RPI_FIRMWARE_LOCK_MEMORY :: u32 where "RPI_FIRMWARE_LOCK_MEMORY \<equiv> 0x0003000d"
abbreviation (input) RPI_FIRMWARE_UNLOCK_MEMORY :: u32 where "RPI_FIRMWARE_UNLOCK_MEMORY \<equiv> 0x0003000e"
abbreviation (input) RPI_FIRMWARE_RELEASE_MEMORY :: u32 where "RPI_FIRMWARE_RELEASE_MEMORY \<equiv> 0x0003000f"
abbreviation (input) RPI_FIRMWARE_SET_ENABLE_QPU :: u32 where "RPI_FIRMWARE_SET_ENABLE_QPU \<equiv> 0x00030012"
abbreviation (input) RPI_FIRMWARE_FRAMEBUFFER_GET_PHYSICAL_WIDTH_HEIGHT :: u32 where
  "RPI_FIRMWARE_FRAMEBUFFER_GET_PHYSICAL_WIDTH_HEIGHT \<equiv> 0x00040003"
abbreviation (input) RPI_FIRMWARE_FRAMEBUFFER_GET_DEPTH :: u32 where
  "RPI_FIRMWARE_FRAMEBUFFER_GET_DEPTH \<equiv> 0x00040005"
abbreviation (input) RPI_FIRMWARE_FRAMEBUFFER_SET_VIRTUAL_OFFSET :: u32 where
  "RPI_FIRMWARE_FRAMEBUFFER_SET_VIRTUAL_OFFSET \<equiv> 0x00048009"

abbreviation (input) MEM_FLAG_COHERENT :: u32 where "MEM_FLAG_COHERENT \<equiv> 8"
abbreviation (input) MEM_FLAG_ZERO :: u32 where "MEM_FLAG_ZERO \<equiv> 16"

abbreviation (input) MAX_MESSAGE_BUFFER_SIZE :: u32 where "MAX_MESSAGE_BUFFER_SIZE \<equiv> 4096"

definition in_place :: "'a list \<Rightarrow> 'a list \<Rightarrow> 'a list" where
  "in_place old new = take (length old) (new @ drop (length new) old)"

text \<open>\<open>data\<close> is the caller's array of words: \<open>tag_size\<close> is four times its length.\<close>

definition mbox_property_list :: "'f firmware \<Rightarrow> 'f \<Rightarrow> u32 list \<Rightarrow> rc \<times> u32 list \<times> 'f" where
  "mbox_property_list fw f data =
     (let tag_size = 4 * of_nat (length data); sz = tag_size + 12 in
      if MAX_MESSAGE_BUFFER_SIZE \<le> sz then (Err E_INVAL, data, f)
      else
        (let buf = [sz, RPI_FIRMWARE_STATUS_REQUEST] @ data @ [RPI_FIRMWARE_PROPERTY_END];
             (resp, f') = fw f buf;
             buf' = in_place buf resp
         in if buf' ! 1 \<noteq> RPI_FIRMWARE_STATUS_SUCCESS then (Err E_INVAL, data, f')
            else (Ok, take (length data) (drop 2 buf'), f')))"

text \<open>A tag is its header (\<^verbatim>\<open>tag\<close>, \<^verbatim>\<open>buf_size\<close>, \<^verbatim>\<open>req_resp_size\<close>) and its data; the data is copied
  back whatever the outcome.\<close>

definition mbox_property :: "'f firmware \<Rightarrow> 'f \<Rightarrow> u32 \<Rightarrow> u32 list \<Rightarrow> rc \<times> u32 list \<times> 'f" where
  "mbox_property fw f tag tag_data =
     (let buf_size = 4 * of_nat (length tag_data);
          (ret, data, f') = mbox_property_list fw f ([tag, buf_size, 0] @ tag_data)
      in (ret, drop 3 data, f'))"

definition mbox_mem_alloc :: "'f firmware \<Rightarrow> 'f \<Rightarrow> u32 \<Rightarrow> u32 \<Rightarrow> u32 \<Rightarrow> u32 \<times> 'f" where
  "mbox_mem_alloc fw f sz align flags =
     (let (ret, data, f') = mbox_property fw f RPI_FIRMWARE_ALLOCATE_MEMORY [sz, align, flags]
      in if ret \<noteq> Ok then (0, f') else (data ! 0, f'))"

definition mbox_mem_free :: "'f firmware \<Rightarrow> 'f \<Rightarrow> u32 \<Rightarrow> rc \<times> 'f" where
  "mbox_mem_free fw f handle =
     (let (ret, data, f') = mbox_property fw f RPI_FIRMWARE_RELEASE_MEMORY [handle]
      in (if data ! 0 \<noteq> 0 then Err E_INVAL else ret, f'))"

definition mbox_mem_lock :: "'f firmware \<Rightarrow> 'f \<Rightarrow> u32 \<Rightarrow> u32 \<times> 'f" where
  "mbox_mem_lock fw f handle =
     (let (ret, data, f') = mbox_property fw f RPI_FIRMWARE_LOCK_MEMORY [handle]
      in if ret \<noteq> Ok then (0, f') else (data ! 0, f'))"

definition mbox_mem_unlock :: "'f firmware \<Rightarrow> 'f \<Rightarrow> u32 \<Rightarrow> rc \<times> 'f" where
  "mbox_mem_unlock fw f handle =
     (let (ret, data, f') = mbox_property fw f RPI_FIRMWARE_UNLOCK_MEMORY [handle]
      in (if data ! 0 \<noteq> 0 then Err E_INVAL else ret, f'))"

definition mbox_qpu_enable :: "'f firmware \<Rightarrow> 'f \<Rightarrow> u32 \<Rightarrow> rc \<times> 'f" where
  "mbox_qpu_enable fw f enable =
     (let (ret, data, f') = mbox_property fw f RPI_FIRMWARE_SET_ENABLE_QPU [enable]
      in (ret, f'))"

definition mbox_framebuffer_get_physical_size ::
    "'f firmware \<Rightarrow> 'f \<Rightarrow> u32 \<Rightarrow> u32 \<Rightarrow> rc \<times> (u32 \<times> u32) \<times> 'f" where
  "mbox_framebuffer_get_physical_size fw f w h =
     (let (ret, data, f') =
        mbox_property fw f RPI_FIRMWARE_FRAMEBUFFER_GET_PHYSICAL_WIDTH_HEIGHT [w, h]
      in (ret, (data ! 0, data ! 1), f'))"

definition mbox_framebuffer_get_depth :: "'f firmware \<Rightarrow> 'f \<Rightarrow> u32 \<Rightarrow> rc \<times> u32 \<times> 'f" where
  "mbox_framebuffer_get_depth fw f depth =
     (let (ret, data, f') = mbox_property fw f RPI_FIRMWARE_FRAMEBUFFER_GET_DEPTH [depth]
      in (ret, data ! 0, f'))"

definition mbox_framebuffer_set_virtual_offset ::
    "'f firmware \<Rightarrow> 'f \<Rightarrow> u32 \<Rightarrow> u32 \<Rightarrow> rc \<times> 'f" where
  "mbox_framebuffer_set_virtual_offset fw f xoffset yoffset =
     (let (ret, data, f') =
        mbox_property fw f RPI_FIRMWARE_FRAMEBUFFER_SET_VIRTUAL_OFFSET [xoffset, yoffset]
      in (ret, f'))"

section \<open>A firmware to evaluate against\<close>

text \<open>The smallest firmware with the documented behaviour of the memory tags: handles are numbered
  from its state on, and a locked buffer lies at a multiple of 1 MB. It serves to evaluate the
  drivers on concrete inputs; no theorem assumes it.\<close>

definition ref_fw :: "u32 firmware" where
  "ref_fw f msg =
     (let tag = msg ! 2;
          v = (if tag = RPI_FIRMWARE_ALLOCATE_MEMORY then f
               else if tag = RPI_FIRMWARE_LOCK_MEMORY then msg ! 5 * 0x100000 else 0)
      in (msg[1 := RPI_FIRMWARE_STATUS_SUCCESS, 5 := v],
          if tag = RPI_FIRMWARE_ALLOCATE_MEMORY then f + 1 else f))"

section \<open>The answers the kernel sees\<close>

lemma length_in_place [simp]: "length (in_place old new) = length old"
  by (simp add: in_place_def)

lemma in_place_same [simp]: "length new = length old \<Longrightarrow> in_place old new = new"
  by (simp add: in_place_def)

lemma mbox_property_list_length:
  "mbox_property_list fw f data = (ret, data', f') \<Longrightarrow> length data' = length data"
  by (auto simp: mbox_property_list_def Let_def split: if_splits prod.splits)

lemma mbox_property_length:
  "mbox_property fw f tag data = (ret, data', f') \<Longrightarrow> length data' = length data"
  by (auto simp: mbox_property_def Let_def split: prod.splits dest!: mbox_property_list_length)

text \<open>What one exchange of a short tag amounts to, once the message layout is unfolded.\<close>

definition tag_message :: "u32 \<Rightarrow> u32 list \<Rightarrow> u32 list" where
  "tag_message tag data =
     [4 * of_nat (length data) + 24, RPI_FIRMWARE_STATUS_REQUEST, tag,
      4 * of_nat (length data), 0] @ data @ [RPI_FIRMWARE_PROPERTY_END]"

lemma mbox_property_exchange:
  assumes "length data \<le> 1000" and "fw f (tag_message tag data) = (resp, f')"
    and "length resp = length data + 6"
  shows "mbox_property fw f tag data =
    (if resp ! 1 = RPI_FIRMWARE_STATUS_SUCCESS
     then (Ok, take (length data) (drop 5 resp), f') else (Err E_INVAL, data, f'))"
proof -
  let ?data = "[tag, 4 * of_nat (length data), 0] @ data"
  have size: "4 * of_nat (length ?data) + (12::u32) = of_nat (4 * length data + 24)"
    by simp
  have nat: "unat (of_nat (4 * length data + 24) :: u32) = 4 * length data + 24"
    using assms(1) by (intro unat_of_nat_u32) simp
  have small: "\<not> (4096::u32) \<le> of_nat (4 * length data + 24)"
    unfolding word_le_nat_alt nat using assms(1) by simp
  have buf: "[of_nat (4 * length data + 24), 0] @ ?data @ [0] = tag_message tag data"
    by (simp add: tag_message_def)
  have len: "length (tag_message tag data) = length resp"
    using assms(3) by (simp add: tag_message_def)
  have "mbox_property_list fw f ?data =
    (if resp ! 1 = RPI_FIRMWARE_STATUS_SUCCESS
     then (Ok, take (length ?data) (drop 2 resp), f') else (Err E_INVAL, ?data, f'))"
    unfolding mbox_property_list_def Let_def size buf
    using small assms(2) len by simp
  moreover have "drop 3 (take (length ?data) (drop 2 resp)) = take (length data) (drop 5 resp)"
    by (simp add: drop_take)
  ultimately show ?thesis
    by (simp add: mbox_property_def Let_def)
qed

end
