(* ===== verification/Vc4_Bo.thy ===== *)
theory Vc4_Bo
  imports Vc4_Packet Mailbox
begin

text \<open>
  The VC4 device and its buffer objects (\<^verbatim>\<open>vc4_drv.h\<close>, \<^verbatim>\<open>vc4_drv.c\<close>, \<^verbatim>\<open>vc4_bo.c\<close>).

  A \<^verbatim>\<open>struct vc4_bo *\<close> always points into the table \<^verbatim>\<open>handle_bo_map\<close>, so a pointer is modelled
  by the index of its entry and \<open>NULL\<close> by \<open>None\<close>. Two fields are added to the device:
  \<open>bo_mem\<close>, the bytes behind the \<^verbatim>\<open>vaddr\<close> of each entry, and \<open>iomaps\<close>, the regions the
  kernel has mapped with \<^verbatim>\<open>__boot_map_iomem\<close> and not yet unmapped. The state of the firmware
  is kept in the device too. The \<^verbatim>\<open>unref_head\<close> links are the list \<open>unref_list\<close> of a job
  (theory \<open>Vc4_Validate\<close>).
\<close>

section \<open>State\<close>

datatype vc4_kernel_bo_type =
  VC4_BO_TYPE_FB | VC4_BO_TYPE_V3D | VC4_BO_TYPE_BIN | VC4_BO_TYPE_RCL | VC4_BO_TYPE_BCL

record vc4_bo =
  bo_size :: u32
  bo_handle :: u32
  bo_paddr :: u32
  bo_vaddr :: u32
  bo_type :: vc4_kernel_bo_type

record 'f vc4_dev =
  fw_state :: 'f
  bin_bo :: "nat option"
  bin_alloc_size :: u32
  fb_bo :: "nat option"
  handle_bo_map :: "vc4_bo list"
  bo_mem :: "nat \<Rightarrow> u8 list"
  iomaps :: "(u32 \<times> u32) list"

text \<open>On the 32-bit build \<^verbatim>\<open>sizeof(struct vc4_dev)\<close> is 20 and \<^verbatim>\<open>sizeof(struct vc4_bo)\<close> is 28.\<close>

definition VC4_DEV_BUFSIZE :: nat where
  "VC4_DEV_BUFSIZE = 2 * 4096 - 20"

definition VC4_DEV_BO_NENTRY :: nat where
  "VC4_DEV_BO_NENTRY = VC4_DEV_BUFSIZE div 28"

text \<open>An entry after \<^verbatim>\<open>memset(bo, 0, sizeof(struct vc4_bo))\<close>; the enumerator with value 0 is
  \<open>VC4_BO_TYPE_FB\<close>.\<close>

definition bo_zero :: vc4_bo where
  "bo_zero = \<lparr>bo_size = 0, bo_handle = 0, bo_paddr = 0, bo_vaddr = 0, bo_type = VC4_BO_TYPE_FB\<rparr>"

definition bo_map_init :: "vc4_bo list" where
  "bo_map_init = replicate VC4_DEV_BO_NENTRY bo_zero"

section \<open>Buffer objects\<close>

definition vc4_bo_create ::
    "'f firmware \<Rightarrow> 'f vc4_dev \<Rightarrow> u32 \<Rightarrow> vc4_kernel_bo_type \<Rightarrow> nat option \<times> 'f vc4_dev" where
  "vc4_bo_create fw dev sz ty =
     (if ty = VC4_BO_TYPE_FB then (fb_bo dev, dev)
      else if sz = 0 then (None, dev)
      else
        let sz = ROUNDUP sz PGSIZE;
            (handle, f1) = mbox_mem_alloc fw (fw_state dev) sz PGSIZE
                             (MEM_FLAG_COHERENT OR MEM_FLAG_ZERO)
        in
        if handle = 0 then (None, dev\<lparr>fw_state := f1\<rparr>)
        else if VC4_DEV_BO_NENTRY \<le> unat handle
        then (None, dev\<lparr>fw_state := snd (mbox_mem_free fw f1 handle)\<rparr>)
        else
          let (bus_addr, f2) = mbox_mem_lock fw f1 handle in
          if bus_addr = 0 then (None, dev\<lparr>fw_state := snd (mbox_mem_free fw f2 handle)\<rparr>)
          else
            let i = unat handle;
                bo = \<lparr>bo_size = sz, bo_handle = handle, bo_paddr = bus_addr,
                      bo_vaddr = bus_addr, bo_type = ty\<rparr>
            in (Some i, dev\<lparr>fw_state := f2,
                            iomaps := (bus_addr, sz) # iomaps dev,
                            handle_bo_map := (handle_bo_map dev)[i := bo],
                            bo_mem := (bo_mem dev)(i := replicate (unat sz) 0)\<rparr>))"

definition vc4_bo_destroy :: "'f firmware \<Rightarrow> 'f vc4_dev \<Rightarrow> nat \<Rightarrow> 'f vc4_dev" where
  "vc4_bo_destroy fw dev i =
     (let bo = handle_bo_map dev ! i in
      if bo_type bo = VC4_BO_TYPE_FB then dev
      else
        let f1 = snd (mbox_mem_unlock fw (fw_state dev) (bo_handle bo));
            f2 = snd (mbox_mem_free fw f1 (bo_handle bo))
        in dev\<lparr>fw_state := f2,
               iomaps := remove1 (bo_vaddr bo, bo_size bo) (iomaps dev),
               handle_bo_map := (handle_bo_map dev)[i := bo_zero],
               bo_mem := (bo_mem dev)(i := [])\<rparr>)"

definition vc4_lookup_bo :: "'f vc4_dev \<Rightarrow> u32 \<Rightarrow> nat option" where
  "vc4_lookup_bo dev handle =
     (if VC4_DEV_BO_NENTRY \<le> unat handle then None
      else
        let bo = handle_bo_map dev ! unat handle in
        if bo_handle bo \<noteq> handle \<or> bo_size bo = 0 then None else Some (unat handle))"

section \<open>The ioctls on buffer objects\<close>

definition vc4_create_bo_ioctl ::
    "'f firmware \<Rightarrow> 'f vc4_dev \<Rightarrow> drm_vc4_create_bo \<Rightarrow> (rc \<times> drm_vc4_create_bo \<times> 'f vc4_dev) option" where
  "vc4_create_bo_ioctl fw dev args =
     (let (bo, dev') =
        (if create_flags args AND VC4_CREATE_BO_IS_FRAMEBUFFER \<noteq> 0
         then vc4_bo_create fw dev (create_size args) VC4_BO_TYPE_FB
         else vc4_bo_create fw dev (create_size args) VC4_BO_TYPE_V3D)
      in case bo of
           None \<Rightarrow> Some (Err E_NOMEM, args, dev')
         | Some i \<Rightarrow>
             if i < length (handle_bo_map dev')
             then let b = handle_bo_map dev' ! i
                  in Some (Ok, args\<lparr>create_size := bo_size b, create_handle := bo_handle b\<rparr>, dev')
             else None)"

definition vc4_free_bo_ioctl ::
    "'f firmware \<Rightarrow> 'f vc4_dev \<Rightarrow> drm_vc4_free_bo \<Rightarrow> rc \<times> 'f vc4_dev" where
  "vc4_free_bo_ioctl fw dev args =
     (case vc4_lookup_bo dev (free_handle args) of
        None \<Rightarrow> (Err E_INVAL, dev)
      | Some i \<Rightarrow> (Ok, vc4_bo_destroy fw dev i))"

section \<open>Bringing the device up\<close>

text \<open>What \<^verbatim>\<open>vc4_bind_fb_bo\<close> reads of the framebuffer's \<^verbatim>\<open>struct fb_info\<close>.\<close>

record fb_info =
  fb_handle :: u32
  screen_size :: u32
  fb_bus_address :: u32
  screen_base :: u32

definition vc4_bind_fb_bo :: "'f vc4_dev \<Rightarrow> fb_info option \<Rightarrow> (rc \<times> 'f vc4_dev) option" where
  "vc4_bind_fb_bo dev fbi =
     (case fbi of
        None \<Rightarrow> Some (Err E_NODEV, dev)
      | Some fb \<Rightarrow>
          let i = unat (fb_handle fb) in
          if length (handle_bo_map dev) \<le> i then None
          else
            let bo = \<lparr>bo_size = screen_size fb, bo_handle = fb_handle fb,
                      bo_paddr = fb_bus_address fb, bo_vaddr = screen_base fb,
                      bo_type = VC4_BO_TYPE_FB\<rparr>
            in Some (Ok, dev\<lparr>handle_bo_map := (handle_bo_map dev)[i := bo],
                             bo_mem := (bo_mem dev)(i := replicate (unat (screen_size fb)) 0),
                             fb_bo := Some i\<rparr>))"

definition vc4_allocate_bin_bo :: "'f firmware \<Rightarrow> 'f vc4_dev \<Rightarrow> rc \<times> 'f vc4_dev" where
  "vc4_allocate_bin_bo fw dev =
     (let sz = 512 * 1024;
          (bo, dev') = vc4_bo_create fw dev sz VC4_BO_TYPE_BIN
      in case bo of
           None \<Rightarrow> (Err E_NOMEM, dev')
         | Some i \<Rightarrow> (Ok, dev'\<lparr>bin_bo := Some i, bin_alloc_size := sz\<rparr>))"

text \<open>\<^verbatim>\<open>V3D_EXPECTED_IDENT0\<close>: the bytes \<open>V\<close>, \<open>3\<close>, \<open>D\<close> and the version 2.\<close>

abbreviation (input) V3D_EXPECTED_IDENT0 :: u32 where
  "V3D_EXPECTED_IDENT0 \<equiv> 0x02443356"

text \<open>
  \<open>kmalloc_ok\<close> says whether the allocation of the device structure succeeds and \<open>ident0\<close> is
  the value read from the identification register; \<open>fb\<close> is the framebuffer, if one was set
  up before. On failure the structure is freed: there is no device.
\<close>

definition vc4_probe ::
    "'f firmware \<Rightarrow> 'f \<Rightarrow> bool \<Rightarrow> u32 \<Rightarrow> fb_info option \<Rightarrow> (rc \<times> 'f vc4_dev option \<times> 'f) option" where
  "vc4_probe fw f kmalloc_ok ident0 fb =
     (if \<not> kmalloc_ok then Some (Err E_NOMEM, None, f)
      else
        let (ret, f1) = mbox_qpu_enable fw f 1 in
        if ret \<noteq> Ok then Some (ret, None, f1)
        else if ident0 \<noteq> V3D_EXPECTED_IDENT0 then Some (Err E_INVAL, None, f1)
        else
          let dev = \<lparr>fw_state = f1, bin_bo = None, bin_alloc_size = 0, fb_bo = None,
                     handle_bo_map = bo_map_init, bo_mem = (\<lambda>_. []), iomaps = []\<rparr>
          in do {
            (ret, dev) \<leftarrow> (if fb \<noteq> None then vc4_bind_fb_bo dev fb else Some (Ok, dev));
            if ret \<noteq> Ok then Some (ret, None, fw_state dev)
            else
              let (ret, dev) = vc4_allocate_bin_bo fw dev in
              if ret \<noteq> Ok then Some (ret, None, fw_state dev)
              else Some (Ok, Some dev, fw_state dev) })"

section \<open>The invariant of the table\<close>

text \<open>
  Entry \<open>i\<close> is either blank or describes the buffer with handle \<open>i\<close>; the bytes behind a
  live entry are as many as its size says.
\<close>

definition bo_ok :: "'f vc4_dev \<Rightarrow> nat \<Rightarrow> bool" where
  "bo_ok dev i \<longleftrightarrow>
     handle_bo_map dev ! i = bo_zero \<or>
     unat (bo_handle (handle_bo_map dev ! i)) = i \<and>
     length (bo_mem dev i) = unat (bo_size (handle_bo_map dev ! i))"

definition bo_table_ok :: "'f vc4_dev \<Rightarrow> bool" where
  "bo_table_ok dev \<longleftrightarrow>
     length (handle_bo_map dev) = VC4_DEV_BO_NENTRY \<and>
     (\<forall>i < VC4_DEV_BO_NENTRY. bo_ok dev i) \<and>
     (\<forall>i. fb_bo dev = Some i \<longrightarrow> i < VC4_DEV_BO_NENTRY \<and>
        bo_type (handle_bo_map dev ! i) = VC4_BO_TYPE_FB)"

named_theorems bo_defs \<open>definitions of the buffer-object layer\<close>

lemma VC4_DEV_BO_NENTRY_value: "VC4_DEV_BO_NENTRY = 291"
  by (simp add: VC4_DEV_BO_NENTRY_def VC4_DEV_BUFSIZE_def)

lemma bo_table_okD:
  assumes "bo_table_ok dev"
  shows "length (handle_bo_map dev) = VC4_DEV_BO_NENTRY"
    and "i < VC4_DEV_BO_NENTRY \<Longrightarrow> bo_ok dev i"
    and "fb_bo dev = Some i \<Longrightarrow> i < VC4_DEV_BO_NENTRY"
    and "fb_bo dev = Some i \<Longrightarrow> bo_type (handle_bo_map dev ! i) = VC4_BO_TYPE_FB"
  using assms by (auto simp: bo_table_ok_def)

lemma vc4_lookup_bo_Some:
  assumes "vc4_lookup_bo dev handle = Some i"
  shows "i = unat handle" and "i < VC4_DEV_BO_NENTRY"
    and "bo_handle (handle_bo_map dev ! i) = handle" and "bo_size (handle_bo_map dev ! i) \<noteq> 0"
  using assms by (auto simp: vc4_lookup_bo_def Let_def split: if_splits)

text \<open>The four ways \<^verbatim>\<open>vc4_bo_create\<close> can go, as one elimination rule.\<close>

lemma vc4_bo_create_cases:
  assumes "vc4_bo_create fw dev sz ty = (p, dev')"
  obtains (fb) "ty = VC4_BO_TYPE_FB" "p = fb_bo dev" "dev' = dev"
  | (fail) f where "ty \<noteq> VC4_BO_TYPE_FB" "p = None" "dev' = dev\<lparr>fw_state := f\<rparr>"
  | (new) handle bus f where "ty \<noteq> VC4_BO_TYPE_FB" "sz \<noteq> 0" "handle \<noteq> 0"
      "unat handle < VC4_DEV_BO_NENTRY" "bus \<noteq> 0" "p = Some (unat handle)"
      "dev' = dev\<lparr>fw_state := f,
         iomaps := (bus, ROUNDUP sz PGSIZE) # iomaps dev,
         handle_bo_map := (handle_bo_map dev)[unat handle :=
           \<lparr>bo_size = ROUNDUP sz PGSIZE, bo_handle = handle, bo_paddr = bus, bo_vaddr = bus,
            bo_type = ty\<rparr>],
         bo_mem := (bo_mem dev)(unat handle := replicate (unat (ROUNDUP sz PGSIZE)) 0)\<rparr>"
proof (cases "ty = VC4_BO_TYPE_FB")
  case True
  then have "p = fb_bo dev" "dev' = dev" using assms by (auto simp: vc4_bo_create_def)
  then show ?thesis by (rule fb [OF True])
next
  case False
  obtain handle f1 where alloc: "mbox_mem_alloc fw (fw_state dev) (ROUNDUP sz PGSIZE) PGSIZE
      (MEM_FLAG_COHERENT OR MEM_FLAG_ZERO) = (handle, f1)" by fastforce
  obtain bus f2 where lock: "mbox_mem_lock fw f1 handle = (bus, f2)" by fastforce
  note eq = assms [unfolded vc4_bo_create_def alloc lock Let_def, simplified False]
  consider "sz = 0" | "sz \<noteq> 0" "handle = 0" | "sz \<noteq> 0" "handle \<noteq> 0" "VC4_DEV_BO_NENTRY \<le> unat handle"
    | "sz \<noteq> 0" "handle \<noteq> 0" "unat handle < VC4_DEV_BO_NENTRY" "bus = 0"
    | "sz \<noteq> 0" "handle \<noteq> 0" "unat handle < VC4_DEV_BO_NENTRY" "bus \<noteq> 0"
    by fastforce
  then show ?thesis
  proof cases
    case 1
    then show ?thesis using eq fail [OF False, of "fw_state dev"] by simp
  next
    case 2
    then show ?thesis using eq alloc fail [OF False, of f1] by simp
  next
    case 3
    then show ?thesis
      using eq alloc fail [OF False, of "snd (mbox_mem_free fw f1 handle)"] by simp
  next
    case 4
    then show ?thesis
      using eq alloc lock fail [OF False, of "snd (mbox_mem_free fw f2 handle)"] by simp
  next
    case 5
    then show ?thesis using eq alloc lock new [OF False, of handle bus f2] by simp
  qed
qed

text \<open>Every operation keeps the table well formed.\<close>

lemma vc4_bo_create_ok:
  assumes "bo_table_ok dev" and "vc4_bo_create fw dev sz ty = (p, dev')"
    and fresh: "\<And>i. p = Some i \<Longrightarrow> ty \<noteq> VC4_BO_TYPE_FB \<Longrightarrow> fb_bo dev \<noteq> Some i"
  shows "bo_table_ok dev'"
  using assms(2)
proof (cases rule: vc4_bo_create_cases)
  case fb
  then show ?thesis using assms(1) by simp
next
  case (fail f)
  then show ?thesis using assms(1) by (simp add: bo_table_ok_def bo_ok_def)
next
  case (new handle bus f)
  then show ?thesis
    using assms(1) fresh [of "unat handle"]
    by (auto simp: bo_table_ok_def bo_ok_def nth_list_update_in)
qed

lemma vc4_bo_destroy_ok:
  assumes "bo_table_ok dev"
  shows "bo_table_ok (vc4_bo_destroy fw dev i)"
proof -
  have "bo_type bo_zero = VC4_BO_TYPE_FB" by (simp add: bo_zero_def)
  then show ?thesis
    using assms
    by (auto simp: vc4_bo_destroy_def bo_table_ok_def bo_ok_def Let_def nth_list_update_in)
qed

end
