(* ===== verification/Vc4_Cl.thy ===== *)
theory Vc4_Cl
  imports Prelude
begin

text \<open>
  Control lists as the drivers write them (\<^verbatim>\<open>vc4_cl.h\<close>, \<^verbatim>\<open>vc4_cl.c\<close>): a buffer and a cursor that
  moves forward with every value emitted. The pointers \<^verbatim>\<open>base\<close> and \<^verbatim>\<open>next\<close> of the C structure
  are the start of the buffer and the offset \<open>cl_next\<close> from it.

  The emission functions are shown to be instances of one operation, \<open>cl_emit\<close>, that puts a
  list of bytes at the cursor; emitting twice is emitting the concatenation. The generators of
  whole lists are then statements about lists of bytes.
\<close>

section \<open>Operations\<close>

definition get_unaligned_32 :: "u8 list \<Rightarrow> nat \<Rightarrow> u32 option" where
  "get_unaligned_32 m i = map_option bytes_u32 (load_bytes m i 4)"

definition get_unaligned_16 :: "u8 list \<Rightarrow> nat \<Rightarrow> u16 option" where
  "get_unaligned_16 m i = map_option bytes_u16 (load_bytes m i 2)"

definition put_unaligned_32 :: "u8 list \<Rightarrow> nat \<Rightarrow> u32 \<Rightarrow> u8 list option" where
  "put_unaligned_32 m i v = store_bytes m i (u32_bytes v)"

definition put_unaligned_16 :: "u8 list \<Rightarrow> nat \<Rightarrow> u16 \<Rightarrow> u8 list option" where
  "put_unaligned_16 m i v = store_bytes m i (u16_bytes v)"

record vc4_cl =
  cl_buf :: "u8 list"
  cl_next :: nat
  cl_size :: u32

definition vc4_init_cl :: vc4_cl where
  "vc4_init_cl = \<lparr>cl_buf = [], cl_next = 0, cl_size = 0\<rparr>"

definition vc4_reset_cl :: "vc4_cl \<Rightarrow> vc4_cl" where
  "vc4_reset_cl cl = cl\<lparr>cl_next := 0\<rparr>"

definition cl_offset :: "vc4_cl \<Rightarrow> u32" where
  "cl_offset cl = of_nat (cl_next cl)"

definition cl_advance :: "vc4_cl \<Rightarrow> nat \<Rightarrow> vc4_cl" where
  "cl_advance cl n = cl\<lparr>cl_next := cl_next cl + n\<rparr>"

definition cl_u8 :: "vc4_cl \<Rightarrow> u8 \<Rightarrow> vc4_cl option" where
  "cl_u8 cl n = do { b \<leftarrow> store8 (cl_buf cl) (cl_next cl) n;
                     Some (cl_advance (cl\<lparr>cl_buf := b\<rparr>) 1) }"

definition cl_u16 :: "vc4_cl \<Rightarrow> u16 \<Rightarrow> vc4_cl option" where
  "cl_u16 cl n = do { b \<leftarrow> put_unaligned_16 (cl_buf cl) (cl_next cl) n;
                      Some (cl_advance (cl\<lparr>cl_buf := b\<rparr>) 2) }"

definition cl_u32 :: "vc4_cl \<Rightarrow> u32 \<Rightarrow> vc4_cl option" where
  "cl_u32 cl n = do { b \<leftarrow> put_unaligned_32 (cl_buf cl) (cl_next cl) n;
                      Some (cl_advance (cl\<lparr>cl_buf := b\<rparr>) 4) }"

section \<open>Emission of bytes\<close>

definition cl_emit :: "u8 list \<Rightarrow> vc4_cl \<Rightarrow> vc4_cl option" where
  "cl_emit bs cl =
     (if cl_next cl + length bs \<le> length (cl_buf cl)
      then Some (cl\<lparr>cl_buf := take (cl_next cl) (cl_buf cl) @ bs
                             @ drop (cl_next cl + length bs) (cl_buf cl),
                    cl_next := cl_next cl + length bs\<rparr>)
      else None)"

named_theorems cl_emits \<open>emission functions as instances of cl_emit\<close>

lemma cl_u8_emit [cl_emits]: "cl_u8 cl n = cl_emit [n] cl"
  by (simp add: cl_u8_def cl_emit_def store8_def store_bytes_def cl_advance_def)

lemma cl_u16_emit [cl_emits]: "cl_u16 cl n = cl_emit (u16_bytes n) cl"
  by (simp add: cl_u16_def cl_emit_def put_unaligned_16_def store_bytes_def cl_advance_def)

lemma cl_u32_emit [cl_emits]: "cl_u32 cl n = cl_emit (u32_bytes n) cl"
  by (simp add: cl_u32_def cl_emit_def put_unaligned_32_def store_bytes_def cl_advance_def)

lemma cl_emit_Nil: "cl_next cl \<le> length (cl_buf cl) \<Longrightarrow> cl_emit [] cl = Some cl"
  by (simp add: cl_emit_def)

lemma cl_emit_append:
  "Option.bind (cl_emit xs cl) (cl_emit ys) = cl_emit (xs @ ys) cl"
proof (cases "cl_next cl + length xs \<le> length (cl_buf cl)")
  case True
  then have "min (length (cl_buf cl)) (cl_next cl) = cl_next cl" by simp
  then show ?thesis using True by (simp add: cl_emit_def ac_simps)
next
  case False
  then show ?thesis by (simp add: cl_emit_def)
qed

lemma cl_emit_bind [cl_emits]:
  "Option.bind (cl_emit xs cl) (\<lambda>cl. Option.bind (cl_emit ys cl) k) =
     Option.bind (cl_emit (xs @ ys) cl) k"
  by (simp add: cl_emit_append [symmetric])

lemma cl_emit_bind_last [cl_emits]:
  "Option.bind (cl_emit xs cl) (\<lambda>cl. cl_emit ys cl) = cl_emit (xs @ ys) cl"
  by (rule cl_emit_append)

lemma cl_emit_next: "cl_emit bs cl = Some cl' \<Longrightarrow> cl_next cl' = cl_next cl + length bs"
  by (auto simp: cl_emit_def split: if_splits)

lemma cl_emit_length: "cl_emit bs cl = Some cl' \<Longrightarrow> length (cl_buf cl') = length (cl_buf cl)"
  by (auto simp: cl_emit_def split: if_splits)

lemma cl_emit_defined:
  "cl_next cl + length bs \<le> length (cl_buf cl) \<Longrightarrow> \<exists>cl'. cl_emit bs cl = Some cl'"
  by (simp add: cl_emit_def)

text \<open>What a reader of the buffer finds after an emission: the emitted bytes at the old cursor,
  and everything before it unchanged.\<close>

lemma cl_emit_take:
  "cl_emit bs cl = Some cl' \<Longrightarrow> take (cl_next cl') (cl_buf cl') = take (cl_next cl) (cl_buf cl) @ bs"
  by (auto simp: cl_emit_def min_absorb2 split: if_splits)

lemma get_put_unaligned_32: "put_unaligned_32 m i v = Some m' \<Longrightarrow> get_unaligned_32 m' i = Some v"
  using load_store_same [of m i "u32_bytes v"]
  by (simp add: put_unaligned_32_def get_unaligned_32_def)

lemma get_put_unaligned_32_other:
  "put_unaligned_32 m i v = Some m' \<Longrightarrow> j + 4 \<le> i \<or> i + 4 \<le> j \<Longrightarrow>
     get_unaligned_32 m' j = get_unaligned_32 m j"
  using load_store_other [of m i "u32_bytes v" m' j 4]
  by (simp add: put_unaligned_32_def get_unaligned_32_def)

lemma get_unaligned_32_defined: "i + 4 \<le> length m \<Longrightarrow> \<exists>v. get_unaligned_32 m i = Some v"
  by (simp add: get_unaligned_32_def load_bytes_def)

lemma put_unaligned_32_defined: "i + 4 \<le> length m \<Longrightarrow> \<exists>m'. put_unaligned_32 m i v = Some m'"
  by (simp add: put_unaligned_32_def store_bytes_def)

lemma put_unaligned_32_length: "put_unaligned_32 m i v = Some m' \<Longrightarrow> length m' = length m"
  by (simp add: put_unaligned_32_def store_bytes_length)

lemma get_unaligned_32_returns [returnsI]:
  "i + 4 \<le> length m \<Longrightarrow> (\<And>x. get_unaligned_32 m i = Some x \<Longrightarrow> Q x) \<Longrightarrow>
     returns (get_unaligned_32 m i) Q"
  using get_unaligned_32_defined [of i m] by (auto simp: returns_def)

lemma put_unaligned_32_returns [returnsI]:
  "i + 4 \<le> length m \<Longrightarrow>
     (\<And>m'. put_unaligned_32 m i v = Some m' \<Longrightarrow> length m' = length m \<Longrightarrow> Q m') \<Longrightarrow>
     returns (put_unaligned_32 m i v) Q"
  unfolding put_unaligned_32_def by (rule store_bytes_returns) auto

lemma put_unaligned_32_only_changes [frame_intros]:
  "put_unaligned_32 m i v = Some m' \<Longrightarrow> a \<le> i \<Longrightarrow> i + 4 \<le> b \<Longrightarrow> only_changes a b m m'"
  by (auto simp: put_unaligned_32_def intro: store_bytes_only_changes)

end
