(* ===== verification/Vc4_Validate.thy ===== *)
theory Vc4_Validate
  imports Vc4_Bo Vc4_Cl
begin

text \<open>
  Validation of the command lists user programs submit (\<^verbatim>\<open>vc4_validate.c\<close>): the binner list is
  copied packet by packet into a buffer of the kernel, only packets of the table \<^verbatim>\<open>cmd_info\<close>
  are let through, and buffer handles are replaced by bus addresses.

  The unvalidated list and the shader records sit in one temporary buffer \<open>u\<close>; the validated
  ones in the memory \<open>v\<close> of the job's \<^verbatim>\<open>exec_bo\<close>. The pointers \<^verbatim>\<open>shader_rec_u\<close> and
  \<^verbatim>\<open>shader_rec_v\<close> are offsets into these two buffers. The array \<^verbatim>\<open>shader_state\<close> lies in freshly
  allocated, uninitialised memory: an element nobody wrote is \<open>None\<close>, and reading it has no
  defined outcome.
\<close>

section \<open>The state of a job\<close>

record vc4_shader_state =
  ss_addr :: u32
  ss_max_index :: u32

record vc4_exec_info =
  args :: drm_vc4_submit_cl
  bo :: "nat list"
  exec_fb_bo :: "nat option"
  bo_count :: u32
  unref_list :: "nat list"
  bo_index :: "u32 list"
  exec_bo :: "nat option"
  shader_state :: "vc4_shader_state option list"
  shader_state_size :: u32
  shader_state_count :: u32
  bin_tiles_x :: u8
  bin_tiles_y :: u8
  tile_alloc_offset :: u32
  ct0ca :: u32
  ct0ea :: u32
  ct1ca :: u32
  ct1ea :: u32
  shader_rec_u :: nat
  shader_rec_v :: nat
  shader_rec_p :: u32
  shader_rec_size :: u32

text \<open>Following a pointer into the table, and the elements of \<^verbatim>\<open>shader_state\<close>.\<close>

definition deref_bo :: "'f vc4_dev \<Rightarrow> nat \<Rightarrow> vc4_bo option" where
  "deref_bo dev i = (if i < length (handle_bo_map dev) then Some (handle_bo_map dev ! i) else None)"

definition get_shader_state :: "vc4_exec_info \<Rightarrow> nat \<Rightarrow> vc4_shader_state option" where
  "get_shader_state exec i =
     (if i < length (shader_state exec) then shader_state exec ! i else None)"

definition set_shader_state ::
    "vc4_exec_info \<Rightarrow> nat \<Rightarrow> vc4_shader_state \<Rightarrow> vc4_exec_info option" where
  "set_shader_state exec i ss =
     (if i < length (shader_state exec)
      then Some (exec\<lparr>shader_state := (shader_state exec)[i := Some ss]\<rparr>) else None)"

section \<open>Packet validators\<close>

text \<open>The outer option is the C outcome, the inner one the pointer returned (\<open>None\<close> is NULL).\<close>

definition vc4_use_bo :: "vc4_exec_info \<Rightarrow> u32 \<Rightarrow> nat option option" where
  "vc4_use_bo exec i =
     (if bo_count exec \<le> i then Some None
      else if unat i < length (bo exec) then Some (Some (bo exec ! unat i)) else None)"

definition vc4_use_handle :: "vc4_exec_info \<Rightarrow> nat \<Rightarrow> nat option option" where
  "vc4_use_handle exec gem_handles_packet_index =
     (if gem_handles_packet_index < length (bo_index exec)
      then vc4_use_bo exec (bo_index exec ! gem_handles_packet_index) else None)"

type_synonym 'f validator =
  "'f vc4_dev \<Rightarrow> vc4_exec_info \<Rightarrow> u8 list \<Rightarrow> nat \<Rightarrow> u8 list \<Rightarrow> nat
     \<Rightarrow> (rc \<times> vc4_exec_info \<times> u8 list) option"

definition validate_indexed_prim_list :: "'f validator" where
  "validate_indexed_prim_list dev exec v validated u untrusted = do {
     len \<leftarrow> get_unaligned_32 u (untrusted + 1);
     off \<leftarrow> get_unaligned_32 u (untrusted + 5);
     max_index \<leftarrow> get_unaligned_32 u (untrusted + 9);
     b \<leftarrow> load8 u untrusted;
     let index_size = (if drop_bit 4 b \<noteq> 0 then 2 else 1);
     if shader_state_count exec = 0 then Some (Err E_INVAL, exec, v)
     else do {
       let k = unat (shader_state_count exec - 1);
       ss \<leftarrow> get_shader_state exec k;
       exec \<leftarrow> (if ss_max_index ss < max_index
               then set_shader_state exec k (ss\<lparr>ss_max_index := max_index\<rparr>) else Some exec);
       p \<leftarrow> vc4_use_handle exec 0;
       (case p of
          None \<Rightarrow> Some (Err E_INVAL, exec, v)
        | Some i \<Rightarrow> do {
            ib \<leftarrow> deref_bo dev i;
            if bo_size ib < off \<or> (bo_size ib - off) div index_size < len
            then Some (Err E_INVAL, exec, v)
            else do {
              v \<leftarrow> put_unaligned_32 v (validated + 5) (bo_paddr ib + off);
              Some (Ok, exec, v) } }) } }"

definition validate_gl_array_primitive :: "'f validator" where
  "validate_gl_array_primitive dev exec v validated u untrusted = do {
     len \<leftarrow> get_unaligned_32 u (untrusted + 1);
     base_index \<leftarrow> get_unaligned_32 u (untrusted + 5);
     if shader_state_count exec = 0 then Some (Err E_INVAL, exec, v)
     else do {
       let k = unat (shader_state_count exec - 1);
       ss \<leftarrow> get_shader_state exec k;
       if len + base_index < len then Some (Err E_INVAL, exec, v)
       else do {
         let max_index = len + base_index - 1;
         exec \<leftarrow> (if ss_max_index ss < max_index
                 then set_shader_state exec k (ss\<lparr>ss_max_index := max_index\<rparr>) else Some exec);
         Some (Ok, exec, v) } } }"

definition validate_nv_shader_state :: "'f validator" where
  "validate_nv_shader_state dev exec v validated u untrusted = do {
     let i = shader_state_count exec;
     let exec = exec\<lparr>shader_state_count := i + 1\<rparr>;
     if shader_state_size exec \<le> i then Some (Err E_INVAL, exec, v)
     else do {
       addr \<leftarrow> get_unaligned_32 u untrusted;
       exec \<leftarrow> set_shader_state exec (unat i) \<lparr>ss_addr = addr, ss_max_index = 0\<rparr>;
       v \<leftarrow> put_unaligned_32 v validated (shader_rec_p exec + addr);
       Some (Ok, exec\<lparr>shader_rec_p := shader_rec_p exec + 16\<rparr>, v) } }"

definition validate_tile_binning_config :: "'f validator" where
  "validate_tile_binning_config dev exec v validated u untrusted = do {
     tiles_x \<leftarrow> load8 u (untrusted + 12);
     tiles_y \<leftarrow> load8 u (untrusted + 13);
     let tile_count = ucast tiles_x * ucast tiles_y;
     flags \<leftarrow> load8 u (untrusted + 14);
     b \<leftarrow> bin_bo dev;
     bb \<leftarrow> deref_bo dev b;
     let bin_addr = bo_paddr bb;
     let tile_state_size = 48 * tile_count;
     init_block \<leftarrow> VC4_SET_FIELD VC4_BIN_CONFIG_ALLOC_INIT_BLOCK_SIZE_32
                     VC4_BIN_CONFIG_ALLOC_INIT_BLOCK_SIZE_MASK
                     VC4_BIN_CONFIG_ALLOC_INIT_BLOCK_SIZE_SHIFT;
     block \<leftarrow> VC4_SET_FIELD VC4_BIN_CONFIG_ALLOC_BLOCK_SIZE_128
                VC4_BIN_CONFIG_ALLOC_BLOCK_SIZE_MASK VC4_BIN_CONFIG_ALLOC_BLOCK_SIZE_SHIFT;
     v \<leftarrow> store8 v (validated + 14)
            (ucast ((ucast flags AND NOT (VC4_BIN_CONFIG_ALLOC_INIT_BLOCK_SIZE_MASK
                       OR VC4_BIN_CONFIG_ALLOC_BLOCK_SIZE_MASK))
                    OR VC4_BIN_CONFIG_AUTO_INIT_TSDA OR init_block OR block));
     let tao = bin_addr + ROUNDUP tile_state_size 4096;
     let exec = exec\<lparr>bin_tiles_x := tiles_x, bin_tiles_y := tiles_y, tile_alloc_offset := tao\<rparr>;
     v \<leftarrow> put_unaligned_32 v (validated + 0) tao;
     v \<leftarrow> put_unaligned_32 v (validated + 4) (bin_addr + bin_alloc_size dev - tao);
     v \<leftarrow> put_unaligned_32 v (validated + 8) bin_addr;
     Some (Ok, exec, v) }"

definition validate_gem_handles :: "'f validator" where
  "validate_gem_handles dev exec v validated u untrusted = do {
     h0 \<leftarrow> get_unaligned_32 u untrusted;
     h1 \<leftarrow> get_unaligned_32 u (untrusted + 4);
     Some (Ok, exec\<lparr>bo_index := [h0, h1]\<rparr>, v) }"

section \<open>The command table\<close>

text \<open>The string \<^verbatim>\<open>name\<close> only serves messages and the test for a missing entry; the packet itself
  stands for it.\<close>

record 'f cmd_info =
  info_len :: u32
  info_name :: vc4_packet
  info_func :: "'f validator option"

definition VC4_DEFINE_PACKET :: "vc4_packet \<Rightarrow> 'f validator option \<Rightarrow> u8 \<times> 'f cmd_info" where
  "VC4_DEFINE_PACKET p g =
     (packet_code p, \<lparr>info_len = packet_size p, info_name = p, info_func = g\<rparr>)"

definition cmd_info_entries :: "(vc4_packet \<times> 'f validator option) list" where
  "cmd_info_entries =
     [(VC4_PACKET_HALT, None), (VC4_PACKET_NOP, None), (VC4_PACKET_FLUSH, None),
      (VC4_PACKET_FLUSH_ALL, None), (VC4_PACKET_START_TILE_BINNING, None),
      (VC4_PACKET_INCREMENT_SEMAPHORE, None),
      (VC4_PACKET_GL_INDEXED_PRIMITIVE, Some validate_indexed_prim_list),
      (VC4_PACKET_GL_ARRAY_PRIMITIVE, Some validate_gl_array_primitive),
      (VC4_PACKET_PRIMITIVE_LIST_FORMAT, None), (VC4_PACKET_GL_SHADER_STATE, None),
      (VC4_PACKET_NV_SHADER_STATE, Some validate_nv_shader_state),
      (VC4_PACKET_CONFIGURATION_BITS, None), (VC4_PACKET_FLAT_SHADE_FLAGS, None),
      (VC4_PACKET_POINT_SIZE, None), (VC4_PACKET_LINE_WIDTH, None),
      (VC4_PACKET_RHT_X_BOUNDARY, None), (VC4_PACKET_DEPTH_OFFSET, None),
      (VC4_PACKET_CLIP_WINDOW, None), (VC4_PACKET_VIEWPORT_OFFSET, None),
      (VC4_PACKET_CLIPPER_XY_SCALING, None), (VC4_PACKET_CLIPPER_Z_SCALING, None),
      (VC4_PACKET_TILE_BINNING_MODE_CONFIG, Some validate_tile_binning_config),
      (VC4_PACKET_GEM_HANDLES, Some validate_gem_handles)]"

definition cmd_info_tab :: "u8 \<rightharpoonup> 'f cmd_info" where
  "cmd_info_tab = map_of (map (\<lambda>(p, g). VC4_DEFINE_PACKET p g) cmd_info_entries)"

text \<open>The largest designator of the array is \<open>VC4_PACKET_GEM_HANDLES\<close>.\<close>

definition ARRAY_SIZE_cmd_info :: nat where
  "ARRAY_SIZE_cmd_info = Suc (unat (packet_code VC4_PACKET_GEM_HANDLES))"

section \<open>The binner list\<close>

text \<open>
  One turn of the \<^verbatim>\<open>while\<close> loop per call. The offsets are 32-bit words, as in the code: nothing
  in the loop itself keeps \<^verbatim>\<open>src_offset + info->len\<close> from wrapping around, so the loop is defined
  as a partial function and its termination is a theorem about the lengths the caller lets in.
\<close>

text \<open>The work on one packet that passed the length check: copy it, then run its validator on the
  bytes after the packet code.\<close>

definition validate_packet ::
    "'f vc4_dev \<Rightarrow> u8 list \<Rightarrow> nat \<Rightarrow> nat \<Rightarrow> u8 \<Rightarrow> 'f cmd_info \<Rightarrow> vc4_exec_info \<Rightarrow> u8 list
      \<Rightarrow> (rc \<times> vc4_exec_info \<times> u8 list) option" where
  "validate_packet dev u dst_pkt src_pkt cmd info exec v = do {
     v \<leftarrow> (if cmd \<noteq> packet_code VC4_PACKET_GEM_HANDLES
          then memcpy v dst_pkt u src_pkt (unat (info_len info)) else Some v);
     (case info_func info of
        None \<Rightarrow> Some (Ok, exec, v)
      | Some g \<Rightarrow> g dev exec v (dst_pkt + 1) u (src_pkt + 1)) }"

partial_function (option) validate_bin_cl_loop ::
    "'f vc4_dev \<Rightarrow> u8 list \<Rightarrow> u32 \<Rightarrow> u32 \<Rightarrow> u32 \<Rightarrow> vc4_exec_info \<Rightarrow> u8 list
      \<Rightarrow> (rc \<times> u32 \<times> vc4_exec_info \<times> u8 list) option" where
  "validate_bin_cl_loop dev u len dst_offset src_offset exec v =
     (if src_offset < len then do {
        cmd \<leftarrow> load8 u (unat src_offset);
        if ARRAY_SIZE_cmd_info \<le> unat cmd then Some (Err E_INVAL, dst_offset, exec, v)
        else (case cmd_info_tab cmd of
          None \<Rightarrow> Some (Err E_INVAL, dst_offset, exec, v)
        | Some info \<Rightarrow>
            if len < src_offset + info_len info then Some (Err E_INVAL, dst_offset, exec, v)
            else do {
              (ret, exec, v) \<leftarrow>
                 validate_packet dev u (unat dst_offset) (unat src_offset) cmd info exec v;
              if ret \<noteq> Ok then Some (Err E_INVAL, dst_offset, exec, v)
              else
                let src_offset = src_offset + info_len info;
                    dst_offset = (if cmd \<noteq> packet_code VC4_PACKET_GEM_HANDLES
                                  then dst_offset + info_len info else dst_offset)
                in if cmd = packet_code VC4_PACKET_HALT then Some (Ok, dst_offset, exec, v)
                   else validate_bin_cl_loop dev u len dst_offset src_offset exec v }) }
      else Some (Ok, dst_offset, exec, v))"

definition vc4_validate_bin_cl ::
    "'f vc4_dev \<Rightarrow> u8 list \<Rightarrow> u8 list \<Rightarrow> vc4_exec_info
      \<Rightarrow> (rc \<times> vc4_exec_info \<times> u8 list) option" where
  "vc4_validate_bin_cl dev v u exec = do {
     (ret, dst_offset, exec, v) \<leftarrow>
        validate_bin_cl_loop dev u (bin_cl_size (args exec)) 0 0 exec v;
     if ret \<noteq> Ok then Some (ret, exec, v)
     else Some (Ok, exec\<lparr>ct0ea := ct0ca exec + dst_offset\<rparr>, v) }"

section \<open>Shader records\<close>

abbreviation (input) shader_reloc_count :: nat where "shader_reloc_count \<equiv> 1"
abbreviation (input) nr_relocs :: nat where "nr_relocs \<equiv> shader_reloc_count + 2"
abbreviation (input) nv_packet_size :: nat where "nv_packet_size \<equiv> 16"

text \<open>The loop that turns the three handle indices of a record into buffers; the inner \<open>None\<close> is
  the early return of \<^verbatim>\<open>-E_INVAL\<close>. The C code keeps the buffers in a local array declared with
  \<^verbatim>\<open>shader_reloc_count\<close> elements although it fills \<^verbatim>\<open>nr_relocs\<close> of them; the model gives the
  array the room its use needs.\<close>

fun lookup_relocs :: "vc4_exec_info \<Rightarrow> u8 list \<Rightarrow> nat \<Rightarrow> nat \<Rightarrow> nat list option option" where
  "lookup_relocs exec u src_handles 0 = Some (Some [])"
| "lookup_relocs exec u src_handles (Suc n) = do {
     h \<leftarrow> get_unaligned_32 u src_handles;
     p \<leftarrow> vc4_use_bo exec h;
     (case p of
        None \<Rightarrow> Some None
      | Some i \<Rightarrow> do {
          r \<leftarrow> lookup_relocs exec u (src_handles + 4) n;
          Some (map_option (\<lambda>is. i # is) r) }) }"

text \<open>The second half of \<^verbatim>\<open>validate_nv_shader_rec\<close>, from the reads of the record's fields on.\<close>

definition relocate_nv_shader_rec ::
    "'f vc4_dev \<Rightarrow> u8 list \<Rightarrow> vc4_exec_info \<Rightarrow> u8 list \<Rightarrow> nat \<Rightarrow> nat \<Rightarrow> nat \<Rightarrow> nat list
      \<Rightarrow> (rc \<times> vc4_exec_info \<times> u8 list) option" where
  "relocate_nv_shader_rec dev u exec v state pkt_u pkt_v bos = do {
     stride \<leftarrow> load8 u (pkt_u + 1);
     fs_offset \<leftarrow> get_unaligned_32 u (pkt_u + 4);
     uniform_offset \<leftarrow> get_unaligned_32 u (pkt_u + 8);
     data_offset \<leftarrow> get_unaligned_32 u (pkt_u + 12);
     bo0 \<leftarrow> deref_bo dev (bos ! 0);
     v \<leftarrow> put_unaligned_32 v (pkt_v + 4) (bo_paddr bo0 + fs_offset);
     bo1 \<leftarrow> deref_bo dev (bos ! 1);
     v \<leftarrow> put_unaligned_32 v (pkt_v + 8) (bo_paddr bo1 + uniform_offset);
     bo2 \<leftarrow> deref_bo dev (bos ! 2);
     st \<leftarrow> get_shader_state exec state;
     if stride \<noteq> 0 \<and> (bo_size bo2 - data_offset) div ucast stride < ss_max_index st
     then Some (Err E_INVAL, exec, v)
     else do {
       v \<leftarrow> put_unaligned_32 v (pkt_v + 12) (bo_paddr bo2 + data_offset);
       Some (Ok, exec, v) } }"

definition validate_nv_shader_rec ::
    "'f vc4_dev \<Rightarrow> u8 list \<Rightarrow> vc4_exec_info \<Rightarrow> u8 list \<Rightarrow> nat
      \<Rightarrow> (rc \<times> vc4_exec_info \<times> u8 list) option" where
  "validate_nv_shader_rec dev u exec v state =
     (if unat (shader_rec_size exec) < nr_relocs * 4 then Some (Err E_INVAL, exec, v)
      else
        let src_handles = shader_rec_u exec;
            exec = exec\<lparr>shader_rec_u := shader_rec_u exec + nr_relocs * 4,
                        shader_rec_size := shader_rec_size exec - of_nat (nr_relocs * 4)\<rparr>
        in if unat (shader_rec_size exec) < nv_packet_size then Some (Err E_INVAL, exec, v)
        else
          let pkt_u = shader_rec_u exec; pkt_v = shader_rec_v exec in do {
            v \<leftarrow> memcpy v pkt_v u pkt_u nv_packet_size;
            let exec = exec\<lparr>shader_rec_u := shader_rec_u exec + nv_packet_size,
                            shader_rec_v := shader_rec_v exec + nv_packet_size,
                            shader_rec_size := shader_rec_size exec - of_nat nv_packet_size\<rparr>;
            bos \<leftarrow> lookup_relocs exec u src_handles nr_relocs;
            (case bos of
               None \<Rightarrow> Some (Err E_INVAL, exec, v)
             | Some bos \<Rightarrow> relocate_nv_shader_rec dev u exec v state pkt_u pkt_v bos) })"

fun validate_shader_recs_loop ::
    "'f vc4_dev \<Rightarrow> u8 list \<Rightarrow> nat list \<Rightarrow> vc4_exec_info \<Rightarrow> u8 list
      \<Rightarrow> (rc \<times> vc4_exec_info \<times> u8 list) option" where
  "validate_shader_recs_loop dev u [] exec v = Some (Ok, exec, v)"
| "validate_shader_recs_loop dev u (i # is) exec v = do {
     (ret, exec, v) \<leftarrow> validate_nv_shader_rec dev u exec v i;
     if ret \<noteq> Ok then Some (ret, exec, v) else validate_shader_recs_loop dev u is exec v }"

definition vc4_validate_shader_recs ::
    "'f vc4_dev \<Rightarrow> u8 list \<Rightarrow> vc4_exec_info \<Rightarrow> u8 list
      \<Rightarrow> (rc \<times> vc4_exec_info \<times> u8 list) option" where
  "vc4_validate_shader_recs dev u exec v =
     validate_shader_recs_loop dev u [0..<unat (shader_state_count exec)] exec v"

section \<open>Well-formed jobs\<close>

text \<open>
  The state of a job while its lists are validated. The arrays have the lengths their counters
  claim, the buffers of the job are entries of the device's table, every shader state counted
  has been written, and the buffer for the binner's own data exists.
\<close>

definition job_ok :: "'f vc4_dev \<Rightarrow> vc4_exec_info \<Rightarrow> bool" where
  "job_ok dev exec \<longleftrightarrow>
     length (bo exec) = unat (bo_count exec) \<and>
     (\<forall>i\<in>set (bo exec). i < length (handle_bo_map dev)) \<and>
     length (bo_index exec) = 2 \<and>
     length (shader_state exec) = unat (shader_state_size exec) \<and>
     unat (shader_state_count exec) \<le> length (shader_state exec) \<and>
     (\<forall>i<unat (shader_state_count exec). shader_state exec ! i \<noteq> None) \<and>
     (case bin_bo dev of None \<Rightarrow> False | Some b \<Rightarrow> b < length (handle_bo_map dev))"

text \<open>What the validation of the binner list leaves alone.\<close>

definition same_setup :: "vc4_exec_info \<Rightarrow> vc4_exec_info \<Rightarrow> bool" where
  "same_setup exec exec' \<longleftrightarrow>
     args exec' = args exec \<and> bo exec' = bo exec \<and> bo_count exec' = bo_count exec \<and>
     exec_fb_bo exec' = exec_fb_bo exec \<and> unref_list exec' = unref_list exec \<and>
     exec_bo exec' = exec_bo exec \<and> shader_state_size exec' = shader_state_size exec \<and>
     length (shader_state exec') = length (shader_state exec) \<and>
     ct0ca exec' = ct0ca exec \<and> ct0ea exec' = ct0ea exec \<and> ct1ca exec' = ct1ca exec \<and>
     ct1ea exec' = ct1ea exec \<and> shader_rec_u exec' = shader_rec_u exec \<and>
     shader_rec_v exec' = shader_rec_v exec \<and> shader_rec_size exec' = shader_rec_size exec"

lemma same_setup_refl [simp]: "same_setup exec exec"
  by (simp add: same_setup_def)

lemma same_setup_trans: "same_setup e1 e2 \<Longrightarrow> same_setup e2 e3 \<Longrightarrow> same_setup e1 e3"
  by (simp add: same_setup_def)

lemma vc4_use_bo_defined:
  assumes "job_ok dev exec"
  shows "vc4_use_bo exec i = Some None \<or>
    (\<exists>k < length (handle_bo_map dev). vc4_use_bo exec i = Some (Some k) \<and>
       i < bo_count exec \<and> k = bo exec ! unat i)"
  using assms by (auto simp: vc4_use_bo_def job_ok_def word_less_nat_alt word_le_nat_alt)

lemma vc4_use_handle_defined:
  assumes "job_ok dev exec" "i < 2"
  shows "vc4_use_handle exec i = Some None \<or>
    (\<exists>k < length (handle_bo_map dev). vc4_use_handle exec i = Some (Some k) \<and> k \<in> set (bo exec))"
  using vc4_use_bo_defined [OF assms(1), of "bo_index exec ! i"] assms
  by (auto simp: vc4_use_handle_def job_ok_def word_less_nat_alt)

lemma last_shader_state:
  assumes "job_ok dev exec" "shader_state_count exec \<noteq> 0"
  shows "\<exists>ss. get_shader_state exec (unat (shader_state_count exec - 1)) = Some ss"
    "unat (shader_state_count exec - 1) < length (shader_state exec)"
proof -
  have "unat (shader_state_count exec - 1) = unat (shader_state_count exec) - 1"
    using assms(2) by (simp add: unat_sub word_le_nat_alt unat_gt_0 Suc_leI)
  moreover have "0 < unat (shader_state_count exec)" using assms(2) by (simp add: unat_gt_0)
  ultimately have *: "unat (shader_state_count exec - 1) < unat (shader_state_count exec)" by simp
  then show "unat (shader_state_count exec - 1) < length (shader_state exec)"
    using assms(1) by (simp add: job_ok_def)
  then show "\<exists>ss. get_shader_state exec (unat (shader_state_count exec - 1)) = Some ss"
    using assms(1) * by (auto simp: job_ok_def get_shader_state_def)
qed

lemma set_shader_state_ok:
  assumes "job_ok dev exec" "set_shader_state exec i ss = Some exec'"
  shows "job_ok dev exec'"
  using assms by (auto simp: set_shader_state_def job_ok_def nth_list_update_in split: if_splits)

lemma set_shader_state_setup: "set_shader_state exec i ss = Some exec' \<Longrightarrow> same_setup exec exec'"
  by (auto simp: set_shader_state_def same_setup_def split: if_splits)

section \<open>The contract of a validator\<close>

text \<open>
  What the loop over the binner list relies on for the validator of a packet with \<open>n\<close> bytes of
  payload: on a well-formed job it returns; it writes only the payload of the validated copy; it
  leaves the job well formed when it accepts; and it does not touch the set-up of the job.
\<close>

locale packet_validator =
  fixes g :: "'f validator" and n :: nat
  assumes total: "job_ok dev exec \<Longrightarrow> untrusted + n \<le> length u \<Longrightarrow> validated + n \<le> length v \<Longrightarrow>
      \<exists>r exec' v'. g dev exec v validated u untrusted = Some (r, exec', v')"
    and frame: "g dev exec v validated u untrusted = Some (r, exec', v') \<Longrightarrow>
      only_changes validated (validated + n) v v'"
    and keeps: "g dev exec v validated u untrusted = Some (Ok, exec', v') \<Longrightarrow>
      job_ok dev exec \<Longrightarrow> job_ok dev exec'"
    and untouched: "g dev exec v validated u untrusted = Some (r, exec', v') \<Longrightarrow>
      same_setup exec exec'"

text \<open>Packets without a validator pass unchanged.\<close>

definition validate_none :: "'f validator" where
  "validate_none dev exec v validated u untrusted = Some (Ok, exec, v)"

interpretation none: packet_validator validate_none n for n
  by unfold_locales (auto simp: validate_none_def)

interpretation gem_handles: packet_validator validate_gem_handles 8
proof
  fix dev :: "'a vc4_dev" and exec and u v :: "u8 list" and untrusted validated :: nat
  assume "untrusted + 8 \<le> length u"
  then show "\<exists>r exec' v'. validate_gem_handles dev exec v validated u untrusted = Some (r, exec', v')"
    by (simp add: validate_gem_handles_def get_unaligned_32_def load_bytes_def)
qed (auto simp: validate_gem_handles_def Option.bind_eq_Some_conv job_ok_def same_setup_def)

interpretation nv_shader_state: packet_validator validate_nv_shader_state 4
proof
  fix dev :: "'a vc4_dev" and exec and u v :: "u8 list" and untrusted validated :: nat
  assume *: "job_ok dev exec" "untrusted + 4 \<le> length u" "validated + 4 \<le> length v"
  show "\<exists>r exec' v'. validate_nv_shader_state dev exec v validated u untrusted = Some (r, exec', v')"
    using *
    by (auto simp: validate_nv_shader_state_def get_unaligned_32_def load_bytes_def Let_def
        put_unaligned_32_def store_bytes_def set_shader_state_def job_ok_def word_le_nat_alt)
next
  fix dev :: "'a vc4_dev" and exec v validated u untrusted exec' v'
  assume "validate_nv_shader_state dev exec v validated u untrusted = Some (Ok, exec', v')"
    and ok: "job_ok dev exec"
  then obtain ss p where i: "\<not> shader_state_size exec \<le> shader_state_count exec"
    and e: "exec' = exec\<lparr>shader_state_count := shader_state_count exec + 1,
      shader_state := (shader_state exec)[unat (shader_state_count exec) := Some ss],
      shader_rec_p := p\<rparr>"
    by (auto simp: validate_nv_shader_state_def Option.bind_eq_Some_conv Let_def
        set_shader_state_def split: if_splits)
  have lt: "unat (shader_state_count exec) < unat (shader_state_size exec)"
    using i by (simp add: word_le_nat_alt)
  have "unat (shader_state_count exec + 1) = Suc (unat (shader_state_count exec))"
    using i by (intro unat_inc) (simp add: not_le)
  then show "job_ok dev exec'"
    using ok lt by (auto simp: e job_ok_def nth_list_update_in less_Suc_eq)
qed (auto simp: validate_nv_shader_state_def Option.bind_eq_Some_conv Let_def set_shader_state_def
    same_setup_def split: if_splits intro: put_unaligned_32_only_changes)

interpretation gl_array_primitive: packet_validator validate_gl_array_primitive 9
proof
  fix dev :: "'a vc4_dev" and exec and u v :: "u8 list" and untrusted validated :: nat
  assume *: "job_ok dev exec" "untrusted + 9 \<le> length u"
  show "\<exists>r exec' v'. validate_gl_array_primitive dev exec v validated u untrusted = Some (r, exec', v')"
    using *(2) last_shader_state [OF *(1)]
    by (auto simp: validate_gl_array_primitive_def get_unaligned_32_def load_bytes_def Let_def
        set_shader_state_def)
next
  fix dev :: "'a vc4_dev" and exec v validated u untrusted r exec' v'
  assume *: "validate_gl_array_primitive dev exec v validated u untrusted = Some (r, exec', v')"
  then show "same_setup exec exec'"
    by (auto simp: validate_gl_array_primitive_def Option.bind_eq_Some_conv Let_def
        split: if_splits dest: set_shader_state_setup)
  show "only_changes validated (validated + 9) v v'"
    using * by (auto simp: validate_gl_array_primitive_def Option.bind_eq_Some_conv Let_def
        split: if_splits)
next
  fix dev :: "'a vc4_dev" and exec v validated u untrusted exec' v'
  assume "validate_gl_array_primitive dev exec v validated u untrusted = Some (Ok, exec', v')"
    and "job_ok dev exec"
  then show "job_ok dev exec'"
    by (auto simp: validate_gl_array_primitive_def Option.bind_eq_Some_conv Let_def
        split: if_splits dest: set_shader_state_ok)
qed

text \<open>The outcomes of the validator of indexed primitives, used for its contract and for its
  specification.\<close>

lemma validate_indexed_prim_list_Some:
  assumes "validate_indexed_prim_list dev exec v validated u untrusted = Some (r, exec', v')"
  shows "(r \<noteq> Ok \<and> v' = v \<or>
      (\<exists>i ib len off. vc4_use_handle exec' 0 = Some (Some i) \<and> deref_bo dev i = Some ib \<and>
         get_unaligned_32 u (untrusted + 1) = Some len \<and>
         get_unaligned_32 u (untrusted + 5) = Some off \<and> off \<le> bo_size ib \<and>
         len \<le> (bo_size ib - off) div
            (if drop_bit 4 (u ! untrusted) \<noteq> 0 then 2 else 1) \<and>
         put_unaligned_32 v (validated + 5) (bo_paddr ib + off) = Some v')) \<and>
    (exec' = exec \<or> (\<exists>i ss. set_shader_state exec i ss = Some exec'))"
  using assms
  by (auto simp: validate_indexed_prim_list_def Option.bind_eq_Some_conv Let_def load8_def
      not_less split: if_splits option.splits)

interpretation indexed_prim_list: packet_validator validate_indexed_prim_list 13
proof
  fix dev :: "'a vc4_dev" and exec and u v :: "u8 list" and untrusted validated :: nat
  assume *: "job_ok dev exec" "untrusted + 13 \<le> length u" "validated + 13 \<le> length v"
  have handle: "vc4_use_handle exec' 0 = Some None \<or>
      (\<exists>i ib. vc4_use_handle exec' 0 = Some (Some i) \<and> deref_bo dev i = Some ib)"
    if "exec' = exec \<or> (\<exists>i ss. set_shader_state exec i ss = Some exec')" for exec'
    using vc4_use_handle_defined [of dev exec' 0] that *(1) set_shader_state_ok [of dev exec]
    by (auto simp: deref_bo_def)
  have "\<exists>m'. put_unaligned_32 v (validated + 5) x = Some m'" for x
    using *(3) by (intro put_unaligned_32_defined) simp
  then obtain m' where put: "\<And>x. put_unaligned_32 v (validated + 5) x = Some (m' x)" by metis
  show "\<exists>r exec' v'. validate_indexed_prim_list dev exec v validated u untrusted = Some (r, exec', v')"
  proof (cases "shader_state_count exec = 0")
    case True
    then show ?thesis using *(2)
      by (simp add: validate_indexed_prim_list_def get_unaligned_32_def load_bytes_def load8_def)
  next
    case False
    let ?k = "unat (shader_state_count exec - 1)"
    obtain ss where ss: "get_shader_state exec ?k = Some ss" "?k < length (shader_state exec)"
      using last_shader_state [OF *(1) False] by auto
    let ?m = "bytes_u32 (take 4 (drop (untrusted + 9) u))"
    obtain exec1 where e: "(if ss_max_index ss < ?m
        then set_shader_state exec ?k (ss\<lparr>ss_max_index := ?m\<rparr>) else Some exec) = Some exec1"
      using ss(2) by (cases "ss_max_index ss < ?m") (auto simp: set_shader_state_def)
    then have "exec1 = exec \<or> (\<exists>i ss. set_shader_state exec i ss = Some exec1)"
      by (auto split: if_splits)
    from handle [OF this] show ?thesis
      using *(2) ss e False put
      by (auto simp: validate_indexed_prim_list_def get_unaligned_32_def load_bytes_def
          load8_def Let_def)
  qed
next
  fix dev :: "'a vc4_dev" and exec v validated u untrusted r exec' v'
  assume *: "validate_indexed_prim_list dev exec v validated u untrusted = Some (r, exec', v')"
  note out = validate_indexed_prim_list_Some [OF *]
  show "same_setup exec exec'" using out by (auto dest: set_shader_state_setup)
  show "only_changes validated (validated + 13) v v'"
    using out by (auto intro: frame_intros)
next
  fix dev :: "'a vc4_dev" and exec v validated u untrusted exec' v'
  assume "validate_indexed_prim_list dev exec v validated u untrusted = Some (Ok, exec', v')"
    and "job_ok dev exec"
  then show "job_ok dev exec'"
    using validate_indexed_prim_list_Some set_shader_state_ok by metis
qed

lemma bin_config_fields [simp]:
  "VC4_SET_FIELD 0 24 3 = Some 0" "VC4_SET_FIELD 2 96 5 = Some 64"
  by (simp_all add: VC4_SET_FIELD_def)

interpretation tile_binning_config: packet_validator validate_tile_binning_config 15
proof
  fix dev :: "'a vc4_dev" and exec and u v :: "u8 list" and untrusted validated :: nat
  assume *: "job_ok dev exec" "untrusted + 15 \<le> length u" "validated + 15 \<le> length v"
  then obtain b where b: "bin_bo dev = Some b" "b < length (handle_bo_map dev)"
    by (auto simp: job_ok_def split: option.splits)
  then have "returns (validate_tile_binning_config dev exec v validated u untrusted) (\<lambda>_. True)"
    using *(2,3) unfolding validate_tile_binning_config_def
    by (auto simp: deref_bo_def Let_def intro!: returnsI)
  then show "\<exists>r exec' v'. validate_tile_binning_config dev exec v validated u untrusted = Some (r, exec', v')"
    by (auto simp: returns_def)
next
  fix dev :: "'a vc4_dev" and exec v validated u untrusted r exec' v'
  assume *: "validate_tile_binning_config dev exec v validated u untrusted = Some (r, exec', v')"
  then show "same_setup exec exec'"
    by (auto simp: validate_tile_binning_config_def Option.bind_eq_Some_conv Let_def same_setup_def)
  obtain x0 x1 x2 x3 v1 v2 v3 where "store8 v (validated + 14) x0 = Some v1"
    "put_unaligned_32 v1 (validated + 0) x1 = Some v2"
    "put_unaligned_32 v2 (validated + 4) x2 = Some v3"
    "put_unaligned_32 v3 (validated + 8) x3 = Some v'"
    using * by (auto simp: validate_tile_binning_config_def Option.bind_eq_Some_conv Let_def)
  then have "only_changes validated (validated + 15) v v1"
    "only_changes validated (validated + 15) v1 v2"
    "only_changes validated (validated + 15) v2 v3"
    "only_changes validated (validated + 15) v3 v'"
    by (auto intro: frame_intros)
  then show "only_changes validated (validated + 15) v v'" by (metis only_changes_trans)
next
  fix dev :: "'a vc4_dev" and exec v validated u untrusted exec' v'
  assume "validate_tile_binning_config dev exec v validated u untrusted = Some (Ok, exec', v')"
    and "job_ok dev exec"
  then show "job_ok dev exec'"
    by (auto simp: validate_tile_binning_config_def Option.bind_eq_Some_conv Let_def job_ok_def)
qed

section \<open>The table and single packets\<close>

text \<open>The packets that may reach the hardware. Branches, tile buffer loads and stores, and all
  packets the table does not name are absent.\<close>

definition hw_packets :: "vc4_packet list" where
  "hw_packets =
     [VC4_PACKET_HALT, VC4_PACKET_NOP, VC4_PACKET_FLUSH, VC4_PACKET_FLUSH_ALL,
      VC4_PACKET_START_TILE_BINNING, VC4_PACKET_INCREMENT_SEMAPHORE,
      VC4_PACKET_GL_INDEXED_PRIMITIVE, VC4_PACKET_GL_ARRAY_PRIMITIVE,
      VC4_PACKET_PRIMITIVE_LIST_FORMAT, VC4_PACKET_GL_SHADER_STATE, VC4_PACKET_NV_SHADER_STATE,
      VC4_PACKET_CONFIGURATION_BITS, VC4_PACKET_FLAT_SHADE_FLAGS, VC4_PACKET_POINT_SIZE,
      VC4_PACKET_LINE_WIDTH, VC4_PACKET_RHT_X_BOUNDARY, VC4_PACKET_DEPTH_OFFSET,
      VC4_PACKET_CLIP_WINDOW, VC4_PACKET_VIEWPORT_OFFSET, VC4_PACKET_CLIPPER_XY_SCALING,
      VC4_PACKET_CLIPPER_Z_SCALING, VC4_PACKET_TILE_BINNING_MODE_CONFIG]"

lemma cmd_info_entries_packets: "map fst cmd_info_entries = hw_packets @ [VC4_PACKET_GEM_HANDLES]"
  by (simp add: cmd_info_entries_def hw_packets_def)

lemma cmd_info_tab_SomeD:
  assumes "cmd_info_tab cmd = Some info"
  shows "cmd = packet_code (info_name info)" "info_len info = packet_size (info_name info)"
    "(info_name info, info_func info) \<in> set cmd_info_entries"
  using map_of_SomeD [OF assms [unfolded cmd_info_tab_def]]
  by (auto simp: VC4_DEFINE_PACKET_def)

lemma cmd_info_tab_hw:
  assumes "cmd_info_tab cmd = Some info" "cmd \<noteq> packet_code VC4_PACKET_GEM_HANDLES"
  shows "info_name info \<in> set hw_packets"
proof -
  have "info_name info \<in> set (hw_packets @ [VC4_PACKET_GEM_HANDLES])"
    using imageI [OF cmd_info_tab_SomeD(3) [OF assms(1)], of fst]
    unfolding set_map [symmetric] cmd_info_entries_packets by simp
  moreover have "info_name info \<noteq> VC4_PACKET_GEM_HANDLES"
    using assms(2) cmd_info_tab_SomeD(1) [OF assms(1)] by metis
  ultimately show ?thesis by simp
qed

lemma cmd_info_entries_validator:
  "(p, Some g) \<in> set cmd_info_entries \<Longrightarrow> packet_validator g (unat (packet_size p) - 1)"
  using gem_handles.packet_validator_axioms nv_shader_state.packet_validator_axioms
    gl_array_primitive.packet_validator_axioms indexed_prim_list.packet_validator_axioms
    tile_binning_config.packet_validator_axioms
  by (auto simp: cmd_info_entries_def)

lemma info_len_bounds:
  "cmd_info_tab cmd = Some info \<Longrightarrow> 0 < unat (info_len info) \<and> unat (info_len info) \<le> 16"
  by (cases "info_name info") (simp_all add: cmd_info_tab_SomeD(2))

text \<open>The table entry as one validator that meets the contract.\<close>

lemma info_validator:
  assumes "cmd_info_tab cmd = Some info"
  shows "packet_validator (case info_func info of None \<Rightarrow> validate_none | Some g \<Rightarrow> g)
    (unat (info_len info) - 1)"
  using cmd_info_tab_SomeD [OF assms] cmd_info_entries_validator none.packet_validator_axioms
  by (cases "info_func info") auto

lemma validate_packet_ok:
  assumes info: "cmd_info_tab cmd = Some info" and "u ! src = cmd" "job_ok dev exec"
    "src + unat (info_len info) \<le> length u" "dst + unat (info_len info) \<le> length v"
  obtains r exec' v' where
    "validate_packet dev u dst src cmd info exec v = Some (r, exec', v')"
    "only_changes dst (dst + unat (info_len info)) v v'" "same_setup exec exec'"
    "r = Ok \<Longrightarrow> job_ok dev exec'"
    "cmd \<noteq> packet_code VC4_PACKET_GEM_HANDLES \<Longrightarrow> v' ! dst = cmd"
proof -
  let ?n = "unat (info_len info)"
  define g where "g = (case info_func info of None \<Rightarrow> validate_none | Some g \<Rightarrow> g)"
  note g = info_validator [OF info, folded g_def]
  have n: "0 < ?n" using info_len_bounds [OF info] by simp
  obtain v1 where v1: "(if cmd \<noteq> packet_code VC4_PACKET_GEM_HANDLES
      then memcpy v dst u src ?n else Some v) = Some v1"
    using assms by (cases "cmd = packet_code VC4_PACKET_GEM_HANDLES")
      (auto simp: memcpy_def load_bytes_def store_bytes_def)
  have ch1: "only_changes dst (dst + ?n) v v1"
    using v1 by (auto split: if_splits intro: frame_intros)
  have hd1: "v1 ! dst = cmd" if "cmd \<noteq> packet_code VC4_PACKET_GEM_HANDLES"
    using v1 that assms n by (auto simp: memcpy_eq_Some nth_append)
  have eq: "validate_packet dev u dst src cmd info exec v = g dev exec v1 (dst + 1) u (src + 1)"
    using v1 unfolding validate_packet_def g_def
    by (simp add: validate_none_def split: option.split)
  have "dst + 1 + (?n - 1) \<le> length v1" "src + 1 + (?n - 1) \<le> length u"
    using assms n only_changes_length [OF ch1] by simp_all
  then obtain r exec' v' where *: "g dev exec v1 (dst + 1) u (src + 1) = Some (r, exec', v')"
    using packet_validator.total [OF g assms(3)] by blast
  have ch2: "only_changes (dst + 1) (dst + ?n) v1 v'"
    using packet_validator.frame [OF g *] n by simp
  show thesis
  proof (rule that [OF eq [unfolded *]])
    show "only_changes dst (dst + ?n) v v'"
      using ch1 only_changes_mono [OF ch2] by (auto intro: only_changes_trans)
    show "same_setup exec exec'" by (rule packet_validator.untouched [OF g *])
    show "job_ok dev exec'" if "r = Ok"
      using packet_validator.keeps [OF g _ assms(3)] * that by simp
    show "v' ! dst = cmd" if "cmd \<noteq> packet_code VC4_PACKET_GEM_HANDLES"
      using hd1 [OF that] only_changes_nth [OF ch2, of dst] only_changes_length [OF ch1] assms n
      by simp
  qed
qed

section \<open>The validated list\<close>

text \<open>Lists the hardware may be given: whole packets of \<open>hw_packets\<close>, one after the other.\<close>

inductive hw_list :: "u8 list \<Rightarrow> bool" where
  hw_list_Nil: "hw_list []"
| hw_list_packet: "hw_list xs \<Longrightarrow> p \<in> set hw_packets \<Longrightarrow> length bs = unat (packet_size p) \<Longrightarrow>
    bs ! 0 = packet_code p \<Longrightarrow> hw_list (xs @ bs)"

lemma hw_list_extend:
  assumes "hw_list (take dst v)" "only_changes dst b v v'"
    and info: "cmd_info_tab cmd = Some info" "cmd \<noteq> packet_code VC4_PACKET_GEM_HANDLES"
    and "v' ! dst = cmd" "dst + unat (info_len info) \<le> length v"
  shows "hw_list (take (dst + unat (info_len info)) v')"
proof -
  let ?n = "unat (info_len info)"
  have "take (dst + ?n) v' = take dst v @ take ?n (drop dst v')"
    using assms(2) by (simp add: only_changes_def take_add)
  moreover have "hw_list (take dst v @ take ?n (drop dst v'))"
  proof (rule hw_list_packet [OF assms(1) cmd_info_tab_hw [OF info]])
    show "length (take ?n (drop dst v')) = unat (packet_size (info_name info))"
      using assms(6) only_changes_length [OF assms(2)] cmd_info_tab_SomeD(2) [OF info(1)] by simp
    show "take ?n (drop dst v') ! 0 = packet_code (info_name info)"
      using assms(5,6) only_changes_length [OF assms(2)] cmd_info_tab_SomeD(1) [OF info(1)]
        info_len_bounds [OF info(1)] by simp
  qed
  ultimately show ?thesis by simp
qed

text \<open>
  The loop on a list whose length keeps the offsets from wrapping around: it ends without any
  access outside the buffers, changes nothing past the length of the list, and if it accepts
  the list, what it wrote is a list for the hardware.
\<close>

definition bin_cl_post ::
    "'f vc4_dev \<Rightarrow> u32 \<Rightarrow> u32 \<Rightarrow> vc4_exec_info \<Rightarrow> u8 list \<Rightarrow> rc \<times> u32 \<times> vc4_exec_info \<times> u8 list
      \<Rightarrow> bool" where
  "bin_cl_post dev len dst exec v = (\<lambda>(r, dst', exec', v').
     only_changes (unat dst) (unat len) v v' \<and> same_setup exec exec' \<and>
     unat dst' \<le> unat len \<and> (r = Ok \<or> r = Err E_INVAL) \<and>
     (r = Ok \<longrightarrow> job_ok dev exec' \<and> hw_list (take (unat dst') v')))"

lemma bin_cl_post_step:
  assumes "bin_cl_post dev len dst1 exec1 v1 x" "only_changes (unat dst) (unat len) v v1"
    "same_setup exec exec1" "unat dst \<le> unat dst1"
  shows "bin_cl_post dev len dst exec v x"
  using assms unfolding bin_cl_post_def
  by (auto intro: same_setup_trans only_changes_trans only_changes_mono)

definition bin_cl_inv ::
    "'f vc4_dev \<Rightarrow> u8 list \<Rightarrow> u32 \<Rightarrow> u32 \<Rightarrow> u32 \<Rightarrow> vc4_exec_info \<Rightarrow> u8 list \<Rightarrow> bool" where
  "bin_cl_inv dev u len dst src exec v \<longleftrightarrow>
     job_ok dev exec \<and> unat dst \<le> unat src \<and> unat src \<le> unat len \<and>
     unat len \<le> length u \<and> unat len \<le> length v \<and> unat len + 16 \<le> 2 ^ 32 \<and>
     hw_list (take (unat dst) v)"

lemma bin_cl_packet:
  fixes dev :: "'f vc4_dev" and info :: "'f cmd_info"
  assumes inv: "bin_cl_inv dev u len dst src exec v" and "src < len"
    and info: "cmd_info_tab cmd = Some info" and cmd: "cmd = u ! unat src"
    and fits: "\<not> len < src + info_len info"
  defines "dst1 \<equiv> if cmd \<noteq> packet_code VC4_PACKET_GEM_HANDLES then dst + info_len info else dst"
  obtains r exec1 v1 where
    "validate_packet dev u (unat dst) (unat src) cmd info exec v = Some (r, exec1, v1)"
    "only_changes (unat dst) (unat len) v v1" "same_setup exec exec1"
    "r = Ok \<Longrightarrow> bin_cl_inv dev u len dst1 (src + info_len info) exec1 v1"
    "unat dst \<le> unat dst1" "unat src < unat (src + info_len info)"
proof -
  let ?n = "unat (info_len info)"
  note I = inv [unfolded bin_cl_inv_def]
  have n: "0 < ?n" "?n \<le> 16" using info_len_bounds [OF info] by simp_all
  have src': "unat (src + info_len info) = unat src + ?n"
    using n(2) assms(2) I by (intro unat_add_small) (simp add: word_less_nat_alt)
  then have le: "unat src + ?n \<le> unat len" using fits by (simp add: word_less_nat_alt)
  have dst': "unat (dst + info_len info) = unat dst + ?n"
    using le I by (intro unat_add_small) simp
  have rng: "unat src + ?n \<le> length u" "unat dst + ?n \<le> length v" "unat dst + ?n \<le> unat len"
    using le I by linarith+
  obtain r exec1 v1 where
    pkt: "validate_packet dev u (unat dst) (unat src) cmd info exec v = Some (r, exec1, v1)"
    and ch: "only_changes (unat dst) (unat dst + ?n) v v1" and su: "same_setup exec exec1"
    and ok: "r = Ok \<Longrightarrow> job_ok dev exec1"
    and hd: "cmd \<noteq> packet_code VC4_PACKET_GEM_HANDLES \<Longrightarrow> v1 ! unat dst = cmd"
    using validate_packet_ok [OF info cmd [symmetric] _ rng(1,2)] I by blast
  have hw: "hw_list (take (unat dst1) v1)"
  proof (cases "cmd = packet_code VC4_PACKET_GEM_HANDLES")
    case True
    then show ?thesis using I ch by (simp add: dst1_def only_changes_def)
  next
    case False
    then show ?thesis using hw_list_extend [OF _ ch info False hd [OF False] rng(2)] I dst'
      by (simp add: dst1_def)
  qed
  show thesis
  proof (rule that [OF pkt _ su])
    show "only_changes (unat dst) (unat len) v v1" by (rule only_changes_mono [OF ch _ rng(3)]) simp
    show "bin_cl_inv dev u len dst1 (src + info_len info) exec1 v1" if "r = Ok"
      using ok [OF that] hw I src' dst' le only_changes_length [OF ch]
      by (simp add: bin_cl_inv_def dst1_def)
  qed (use src' dst' n in \<open>simp_all add: dst1_def\<close>)
qed

lemma bin_cl_step:
  fixes dev :: "'f vc4_dev"
  assumes inv: "bin_cl_inv dev u len dst src exec v" and "src < len"
  obtains (stop) x where "validate_bin_cl_loop dev u len dst src exec v = Some x"
      "bin_cl_post dev len dst exec v x"
  | (go_on) dst1 src1 exec1 v1 where
      "validate_bin_cl_loop dev u len dst src exec v =
         validate_bin_cl_loop dev u len dst1 src1 exec1 v1"
      "bin_cl_inv dev u len dst1 src1 exec1 v1" "unat src < unat src1"
      "only_changes (unat dst) (unat len) v v1" "same_setup exec exec1" "unat dst \<le> unat dst1"
proof -
  note I = inv [unfolded bin_cl_inv_def] and unfold = validate_bin_cl_loop.simps [of dev u len dst src]
  define cmd where "cmd = u ! unat src"
  have cmd: "load8 u (unat src) = Some cmd"
    using assms(2) I by (simp add: load8_def cmd_def word_less_nat_alt)
  have err: "bin_cl_post dev len dst exec v (Err E_INVAL, dst, exec, v)"
    using I by (simp add: bin_cl_post_def)
  show thesis
  proof (cases "cmd_info_tab cmd :: 'f cmd_info option")
    case None
    then show ?thesis using stop err assms(2) cmd unfold by (auto split: if_splits)
  next
    case (Some info)
    show ?thesis
    proof (cases "ARRAY_SIZE_cmd_info \<le> unat cmd \<or> len < src + info_len info")
      case True
      then show ?thesis using stop err assms(2) cmd Some unfold by (auto split: if_splits)
    next
      case False
      define dst1 where "dst1 =
        (if cmd \<noteq> packet_code VC4_PACKET_GEM_HANDLES then dst + info_len info else dst)"
      from False have "\<not> len < src + info_len info" by simp
      from bin_cl_packet [OF assms Some cmd_def this, folded dst1_def]
      obtain r exec1 v1 where
        pkt: "validate_packet dev u (unat dst) (unat src) cmd info exec v = Some (r, exec1, v1)"
        and fr: "only_changes (unat dst) (unat len) v v1" "same_setup exec exec1"
        and inv1: "r = Ok \<Longrightarrow> bin_cl_inv dev u len dst1 (src + info_len info) exec1 v1"
        and le: "unat dst \<le> unat dst1" "unat src < unat (src + info_len info)"
        by blast
      have eq: "validate_bin_cl_loop dev u len dst src exec v =
        (if r \<noteq> Ok then Some (Err E_INVAL, dst, exec1, v1)
         else if cmd = packet_code VC4_PACKET_HALT then Some (Ok, dst1, exec1, v1)
         else validate_bin_cl_loop dev u len dst1 (src + info_len info) exec1 v1)"
        using assms(2) cmd Some False pkt by (simp add: unfold Let_def dst1_def)
      consider "r \<noteq> Ok" | "r = Ok" "cmd = packet_code VC4_PACKET_HALT"
        | "r = Ok" "cmd \<noteq> packet_code VC4_PACKET_HALT" by blast
      then show ?thesis
      proof cases
        case 1
        then show ?thesis using stop [OF eq [THEN trans]] fr I by (simp add: bin_cl_post_def)
      next
        case 2
        then show ?thesis using stop [OF eq [THEN trans]] fr inv1
          by (simp add: bin_cl_post_def bin_cl_inv_def)
      next
        case 3
        then show ?thesis using go_on [OF eq [THEN trans]] inv1 le fr by simp
      qed
    qed
  qed
qed

lemma validate_bin_cl_loop_ok:
  assumes "bin_cl_inv dev u len dst src exec v"
  shows "returns (validate_bin_cl_loop dev u len dst src exec v) (bin_cl_post dev len dst exec v)"
  using assms
proof (induction "unat len - unat src" arbitrary: dst src exec v rule: less_induct)
  case less
  show ?case
  proof (cases "src < len")
    case False
    then show ?thesis using less.prems
      by (simp add: validate_bin_cl_loop.simps [of _ _ _ _ src] bin_cl_post_def bin_cl_inv_def)
  next
    case True
    from less.prems True show ?thesis
    proof (cases rule: bin_cl_step)
      case (stop x)
      then show ?thesis by simp
    next
      case (go_on dst1 src1 exec1 v1)
      have "unat len - unat src1 < unat len - unat src"
        using go_on(3) True by (simp add: word_less_nat_alt)
      from less.hyps [OF this go_on(2)] show ?thesis
        unfolding go_on(1)
        by (rule returns_mono) (rule bin_cl_post_step [OF _ go_on(4-6)])
    qed
  qed
qed

section \<open>Shader records in bounds\<close>

definition recs_fit :: "vc4_exec_info \<Rightarrow> u8 list \<Rightarrow> u8 list \<Rightarrow> bool" where
  "recs_fit exec u v \<longleftrightarrow>
     shader_rec_u exec + unat (shader_rec_size exec) \<le> length u \<and>
     shader_rec_v exec + unat (shader_rec_size exec) \<le> length v"

lemma lookup_relocs_returns [returnsI]:
  assumes "job_ok dev exec" "src + 4 * n \<le> length u"
    and "\<And>is. length is = n \<Longrightarrow> \<forall>k\<in>set is. k \<in> set (bo exec) \<Longrightarrow> Q (Some is)" "Q None"
  shows "returns (lookup_relocs exec u src n) Q"
  using assms(2-)
proof (induction n arbitrary: src Q)
  case (Suc n)
  show ?case
    unfolding lookup_relocs.simps returns_simps
  proof (rule get_unaligned_32_returns)
    fix h
    show "returns (vc4_use_bo exec h) (\<lambda>p. returns (case p of None \<Rightarrow> Some None
        | Some i \<Rightarrow> Option.bind (lookup_relocs exec u (src + 4) n)
            (\<lambda>r. Some (map_option (\<lambda>is. i # is) r))) Q)"
      using vc4_use_bo_defined [OF assms(1), of h]
    proof
      assume "vc4_use_bo exec h = Some None"
      then show ?thesis using Suc.prems(3) by simp
    next
      assume "\<exists>k<length (handle_bo_map dev). vc4_use_bo exec h = Some (Some k) \<and>
        h < bo_count exec \<and> k = bo exec ! unat h"
      then obtain k where k: "vc4_use_bo exec h = Some (Some k)" "k \<in> set (bo exec)"
        using assms(1) by (auto simp: job_ok_def word_less_nat_alt)
      then show ?thesis using Suc.prems by (auto intro!: Suc.IH)
    qed
  qed (use Suc.prems in simp)
qed simp

text \<open>What a record does to the job and to the validated memory.\<close>

definition shader_rec_post ::
    "u8 list \<Rightarrow> nat \<Rightarrow> vc4_exec_info \<Rightarrow> u8 list \<Rightarrow> rc \<times> vc4_exec_info \<times> u8 list \<Rightarrow> bool" where
  "shader_rec_post u k exec v = (\<lambda>(r, exec', v').
     only_changes (shader_rec_v exec) (shader_rec_v exec + unat (shader_rec_size exec)) v v' \<and>
     exec' = exec\<lparr>shader_rec_u := shader_rec_u exec', shader_rec_v := shader_rec_v exec',
                  shader_rec_size := shader_rec_size exec'\<rparr> \<and>
     (r = Ok \<or> r = Err E_INVAL) \<and>
     (r = Ok \<longrightarrow> recs_fit exec' u v' \<and> shader_rec_v exec' = shader_rec_v exec + 16 * k \<and>
        unat (shader_rec_size exec') + 28 * k = unat (shader_rec_size exec)))"

lemma job_ok_advance:
  "job_ok dev exec \<Longrightarrow>
     job_ok dev (exec\<lparr>shader_rec_u := a, shader_rec_v := b, shader_rec_size := c\<rparr>)"
  by (simp add: job_ok_def)

lemma relocate_nv_shader_rec_returns [returnsI]:
  assumes ok: "job_ok dev exec" and i: "i < unat (shader_state_count exec)"
    and bos: "length bos = 3" "\<forall>k\<in>set bos. k \<in> set (bo exec)"
    and rng: "pu + 16 \<le> length u" "pv + 16 \<le> length v"
    and Q: "\<And>r v'. r = Ok \<or> r = Err E_INVAL \<Longrightarrow> only_changes pv (pv + 16) v v' \<Longrightarrow> Q (r, exec, v')"
  shows "returns (relocate_nv_shader_rec dev u exec v i pu pv bos) Q"
proof -
  have deref: "deref_bo dev (bos ! k) = Some (handle_bo_map dev ! (bos ! k))" if "k < 3" for k
    using that ok bos bspec [OF bos(2) nth_mem, of k] by (simp add: job_ok_def deref_bo_def)
  obtain st where st: "get_shader_state exec i = Some st"
    using ok i by (auto simp: job_ok_def get_shader_state_def)
  have step: "only_changes pv (pv + 16) v v2"
    if "put_unaligned_32 v1 (pv + k) x = Some v2" "only_changes pv (pv + 16) v v1" "k + 4 \<le> 16"
    for v1 k x v2
    by (rule only_changes_trans [OF that(2) put_unaligned_32_only_changes [OF that(1)]])
      (use that(3) in simp_all)
  note steps = step [where k = 4, simplified] step [where k = 8, simplified]
    step [where k = 12, simplified]
  show ?thesis
    using rng deref [of 0] deref [of 1] deref [of 2] st unfolding relocate_nv_shader_rec_def
    by (auto simp: Let_def intro!: returnsI Q) (blast intro: steps only_changes_refl)+
qed

lemma validate_nv_shader_rec_ok:
  fixes dev :: "'f vc4_dev"
  assumes ok: "job_ok dev exec" and fit: "recs_fit exec u v"
    and i: "i < unat (shader_state_count exec)"
  shows "returns (validate_nv_shader_rec dev u exec v i) (shader_rec_post u (Suc 0) exec v)"
proof (cases "unat (shader_rec_size exec) < 28")
  case True
  have "unat (shader_rec_size exec - 12) = unat (shader_rec_size exec) - 12"
    if "12 \<le> unat (shader_rec_size exec)"
    using that by (simp add: unat_sub word_le_nat_alt)
  then show ?thesis using True
    by (auto simp: validate_nv_shader_rec_def Let_def shader_rec_post_def)
next
  case False
  let ?sz = "shader_rec_size exec" and ?pv = "shader_rec_v exec" and ?pu = "shader_rec_u exec"
  have sz: "unat (?sz - 12) = unat ?sz - 12" "unat (?sz - 28) = unat ?sz - 28"
    using False by (simp_all add: unat_sub word_le_nat_alt)
  let ?exec = "exec\<lparr>shader_rec_u := ?pu + 28, shader_rec_v := ?pv + 16, shader_rec_size := ?sz - 28\<rparr>"
  have ok': "job_ok dev ?exec" using ok by (rule job_ok_advance)
  have rng: "?pu + 28 \<le> length u" "?pv + 28 \<le> length v"
    using fit False by (auto simp: recs_fit_def)
  have post: "shader_rec_post u (Suc 0) exec v (r, ?exec, v')"
    if "r = Ok \<or> r = Err E_INVAL" "only_changes ?pv (?pv + 16) v v'" for r v'
    using that(1) only_changes_mono [OF that(2)] only_changes_length [OF that(2)] False fit sz
    by (auto simp: shader_rec_post_def recs_fit_def)
  have "returns (memcpy v ?pv u (?pu + 12) 16) (\<lambda>v. returns (lookup_relocs ?exec u ?pu 3)
      (\<lambda>bos. returns (case bos of None \<Rightarrow> Some (Err E_INVAL, ?exec, v)
         | Some bos \<Rightarrow> relocate_nv_shader_rec dev u ?exec v i (?pu + 12) ?pv bos)
         (shader_rec_post u (Suc 0) exec v0)))" if "v0 = v" for v0
  proof (rule memcpy_returns)
    fix v1 assume v1: "memcpy v ?pv u (?pu + 12) 16 = Some v1" "length v1 = length v"
    have ch: "only_changes ?pv (?pv + 16) v v1" using v1 by (auto intro: frame_intros)
    show "returns (lookup_relocs ?exec u ?pu 3)
      (\<lambda>bos. returns (case bos of None \<Rightarrow> Some (Err E_INVAL, ?exec, v1)
         | Some bos \<Rightarrow> relocate_nv_shader_rec dev u ?exec v1 i (?pu + 12) ?pv bos)
         (shader_rec_post u (Suc 0) exec v0))"
      using ok' rng i v1(2) that post [OF _ ch] post [OF _ only_changes_trans [OF ch]]
      by (auto simp del: lookup_relocs.simps intro!: lookup_relocs_returns
          relocate_nv_shader_rec_returns)
  qed (use rng in auto)
  then show ?thesis
    using False sz by (auto simp: validate_nv_shader_rec_def Let_def add.commute [of 28]
        numeral_3_eq_3 simp del: lookup_relocs.simps)
qed

lemma recs_only_trans:
  assumes "exec1 = exec\<lparr>shader_rec_u := a, shader_rec_v := b, shader_rec_size := c\<rparr>"
    "exec2 = exec1\<lparr>shader_rec_u := a', shader_rec_v := b', shader_rec_size := c'\<rparr>"
  shows "exec2 = exec\<lparr>shader_rec_u := a', shader_rec_v := b', shader_rec_size := c'\<rparr>"
  using assms by simp

lemma shader_rec_post_trans:
  assumes "shader_rec_post u j exec v (Ok, exec1, v1)" "shader_rec_post u k exec1 v1 x"
  shows "shader_rec_post u (j + k) exec v x"
proof -
  obtain r exec' v' where x: "x = (r, exec', v')" by (cases x)
  have w: "shader_rec_v exec1 = shader_rec_v exec + 16 * j"
    "unat (shader_rec_size exec1) + 28 * j = unat (shader_rec_size exec)"
    using assms(1) by (simp_all add: shader_rec_post_def)
  have "only_changes (shader_rec_v exec) (shader_rec_v exec + unat (shader_rec_size exec)) v1 v'"
    using assms(2) w unfolding x by (auto simp: shader_rec_post_def elim!: only_changes_mono)
  moreover have "exec' = exec\<lparr>shader_rec_u := shader_rec_u exec', shader_rec_v := shader_rec_v exec',
      shader_rec_size := shader_rec_size exec'\<rparr>"
    using assms recs_only_trans unfolding x shader_rec_post_def by blast
  ultimately show ?thesis
    using assms w unfolding x shader_rec_post_def by (auto intro: only_changes_trans)
qed

lemma validate_shader_recs_loop_ok:
  assumes "job_ok dev exec" "recs_fit exec u v" "\<forall>i\<in>set is. i < unat (shader_state_count exec)"
  shows "returns (validate_shader_recs_loop dev u is exec v) (shader_rec_post u (length is) exec v)"
  using assms
proof (induction "is" arbitrary: exec v)
  case Nil
  then show ?case by (simp add: shader_rec_post_def)
next
  case (Cons i "is")
  from Cons.prems obtain r exec1 v1 where
    1: "validate_nv_shader_rec dev u exec v i = Some (r, exec1, v1)"
    and post: "shader_rec_post u (Suc 0) exec v (r, exec1, v1)"
    using validate_nv_shader_rec_ok [of dev exec u v i] by (auto elim!: returnsE)
  show ?case
  proof (cases "r = Ok")
    case False
    then show ?thesis using 1 post by (auto simp: shader_rec_post_def)
  next
    case True
    have e: "exec1 = exec\<lparr>shader_rec_u := shader_rec_u exec1, shader_rec_v := shader_rec_v exec1,
        shader_rec_size := shader_rec_size exec1\<rparr>" and fit: "recs_fit exec1 u v1"
      using post True unfolding shader_rec_post_def by auto
    have cnt: "shader_state_count exec1 = shader_state_count exec" by (subst e) simp
    have ok: "job_ok dev exec1" by (subst e) (rule job_ok_advance [OF Cons.prems(1)])
    have "returns (validate_shader_recs_loop dev u is exec1 v1) (shader_rec_post u (length is) exec1 v1)"
      using ok fit Cons.prems(3) cnt by (intro Cons.IH) auto
    then show ?thesis
      using 1 True shader_rec_post_trans [OF post [unfolded True]]
      by (auto elim!: returns_mono)
  qed
qed

section \<open>A sample job\<close>

text \<open>A device with one user buffer and the binner's buffer, and a job that draws three indexed
  vertices, followed by its shader record. The witnesses of the properties evaluate on it.\<close>

definition sample_surface :: drm_vc4_submit_rcl_surface where
  "sample_surface = \<lparr>hindex = 0, offset = 0, bits = 0, surf_flags = 0\<rparr>"

definition sample_args :: drm_vc4_submit_cl where
  "sample_args = \<lparr>bin_cl = 0, shader_rec = 0, uniforms = 0, bo_handles = 0, bin_cl_size = 46,
     args_shader_rec_size = 28, shader_rec_count = 1, uniforms_size = 0, bo_handle_count = 1,
     width = 64, height = 64, min_x_tile = 0, min_y_tile = 0, max_x_tile = 0, max_y_tile = 0,
     args_color_read = sample_surface, args_color_write = sample_surface,
     args_zs_read = sample_surface, args_zs_write = sample_surface,
     msaa_color_write = sample_surface, msaa_zs_write = sample_surface, clear_color = (0, 0),
     clear_z = 0, clear_s = 0, args_flags = 0, seqno = 0\<rparr>"

definition sample_dev :: "u32 vc4_dev" where
  "sample_dev = \<lparr>fw_state = 3, bin_bo = Some 2, bin_alloc_size = 0x80000, fb_bo = None,
     handle_bo_map = [bo_zero,
       \<lparr>bo_size = 4096, bo_handle = 1, bo_paddr = 0x10000, bo_vaddr = 0x10000,
        bo_type = VC4_BO_TYPE_V3D\<rparr>,
       \<lparr>bo_size = 0x80000, bo_handle = 2, bo_paddr = 0x100000, bo_vaddr = 0x100000,
        bo_type = VC4_BO_TYPE_BIN\<rparr>] @ replicate 288 bo_zero,
     bo_mem = (\<lambda>_. []), iomaps = []\<rparr>"

definition sample_exec :: vc4_exec_info where
  "sample_exec = \<lparr>args = sample_args, bo = [1], exec_fb_bo = None, bo_count = 1, unref_list = [],
     bo_index = [0, 0], exec_bo = None, shader_state = [None], shader_state_size = 1,
     shader_state_count = 0, bin_tiles_x = 0, bin_tiles_y = 0, tile_alloc_offset = 0,
     ct0ca = 0x20000, ct0ea = 0, ct1ca = 0, ct1ea = 0, shader_rec_u = 48, shader_rec_v = 48,
     shader_rec_p = 0x20030, shader_rec_size = 28\<rparr>"

definition sample_list :: "u8 list" where
  "sample_list =
     [112] @ replicate 12 0 @ [4, 4, 0] @ [6] @ [254, 0, 0, 0, 0, 0, 0, 0, 0] @ [65, 0, 0, 0, 0] @
     [32, 0x14, 3, 0, 0, 0, 16, 0, 0, 0, 2, 0, 0, 0] @ [4] @ [0, 0] @
     replicate 12 0 @ [0, 12, 0, 0] @ u32_bytes 64 @ u32_bytes 128 @ u32_bytes 256"

declare validate_bin_cl_loop.simps [code]

lemma sample_job_ok: "job_ok sample_dev sample_exec"
  by code_simp

lemma sample_list_accepted:
  "map_option fst (vc4_validate_bin_cl sample_dev (replicate 76 0) sample_list sample_exec) = Some Ok"
  by code_simp

text \<open>The same job after its shader state packet.\<close>

definition sample_exec1 :: vc4_exec_info where
  "sample_exec1 = sample_exec\<lparr>shader_state := [Some \<lparr>ss_addr = 0, ss_max_index = 2\<rparr>],
     shader_state_count := 1\<rparr>"

lemma sample_job1_ok: "job_ok sample_dev sample_exec1"
  by code_simp

lemma accepted_ex: "map_option fst X = Some Ok \<Longrightarrow> \<exists>exec v. X = Some (Ok, exec, v)"
  by auto

section \<open>What validation guarantees\<close>

abbreviation job_bo :: "'f vc4_dev \<Rightarrow> vc4_exec_info \<Rightarrow> u32 \<Rightarrow> vc4_bo" where
  "job_bo dev exec h \<equiv> handle_bo_map dev ! (bo exec ! unat h)"

text \<open>C2. For every content of the submitted binner list, the validator returns: it never reads
  or writes outside its buffers and its loop ends. It writes nothing past the length of the list,
  so the shader records behind it are safe, and if it accepts, the bytes the hardware will run,
  from \<^verbatim>\<open>ct0ca\<close> up to \<^verbatim>\<open>ct0ea\<close>, are a sequence of whole packets of the allowed kinds.\<close>

theorem vc4_validate_bin_cl_safe:
  assumes "job_ok dev exec"
    and "unat (bin_cl_size (args exec)) \<le> length u" "unat (bin_cl_size (args exec)) \<le> length v"
    and "unat (bin_cl_size (args exec)) + 16 \<le> 2 ^ 32"
  shows "returns (vc4_validate_bin_cl dev v u exec) (\<lambda>(r, exec', v').
    only_changes 0 (unat (bin_cl_size (args exec))) v v' \<and>
    (r = Ok \<longrightarrow> job_ok dev exec' \<and>
       (\<exists>n. n \<le> unat (bin_cl_size (args exec)) \<and>
          ct0ea exec' = ct0ca exec' + of_nat n \<and> hw_list (take n v'))))"
proof -
  have "bin_cl_inv dev u (bin_cl_size (args exec)) 0 0 exec v"
    using assms by (simp add: bin_cl_inv_def hw_list_Nil)
  from validate_bin_cl_loop_ok [OF this] show ?thesis
    unfolding vc4_validate_bin_cl_def returns_simps
    by (rule returns_mono) (auto simp: bin_cl_post_def job_ok_def split: prod.splits)
qed

theorem vc4_validate_bin_cl_safe_witness:
  "returns (vc4_validate_bin_cl sample_dev (replicate 76 0) sample_list sample_exec)
    (\<lambda>(r, exec', v'). r = Ok \<and> only_changes 0 46 (replicate 76 0) v' \<and>
      (\<exists>n. n \<le> 46 \<and> ct0ea exec' = ct0ca exec' + of_nat n \<and> hw_list (take n v')))"
proof -
  have "returns (vc4_validate_bin_cl sample_dev (replicate 76 0) sample_list sample_exec)
    (\<lambda>(r, exec', v'). only_changes 0 46 (replicate 76 0) v' \<and> (r = Ok \<longrightarrow>
      job_ok sample_dev exec' \<and>
      (\<exists>n. n \<le> 46 \<and> ct0ea exec' = ct0ca exec' + of_nat n \<and> hw_list (take n v'))))"
    using vc4_validate_bin_cl_safe [OF sample_job_ok, of sample_list "replicate 76 0"]
    by (simp add: sample_exec_def sample_args_def sample_list_def)
  then show ?thesis
    by (rule returns_mono) (use sample_list_accepted in auto)
qed



text \<open>C10. An indexed draw that is accepted reads its indices inside one of the job's own buffers:
  the packet carries the bus address of that buffer plus the requested offset, and offset and
  index count together stay within the buffer's size.\<close>

theorem indexed_prim_in_bounds:
  assumes "validate_indexed_prim_list dev exec v validated u untrusted = Some (Ok, exec', v')"
    and "job_ok dev exec"
  shows "\<exists>ib len off. ib \<in> set (map (\<lambda>i. handle_bo_map dev ! i) (bo exec)) \<and>
    get_unaligned_32 u (untrusted + 1) = Some len \<and>
    get_unaligned_32 u (untrusted + 5) = Some off \<and>
    get_unaligned_32 v' (validated + 5) = Some (bo_paddr ib + off) \<and>
    unat off + unat len * (if drop_bit 4 (u ! untrusted) \<noteq> 0 then 2 else 1) \<le> unat (bo_size ib)"
proof -
  from validate_indexed_prim_list_Some [OF assms(1)]
  obtain i ib len off where *: "vc4_use_handle exec' 0 = Some (Some i)" "deref_bo dev i = Some ib"
    "get_unaligned_32 u (untrusted + 1) = Some len" "get_unaligned_32 u (untrusted + 5) = Some off"
    "off \<le> bo_size ib"
    and len: "len \<le> (bo_size ib - off) div (if drop_bit 4 (u ! untrusted) \<noteq> 0 then 2 else 1)"
    and put: "put_unaligned_32 v (validated + 5) (bo_paddr ib + off) = Some v'"
    by auto
  have ok': "job_ok dev exec'" by (rule indexed_prim_list.keeps [OF assms])
  have bo: "bo exec' = bo exec"
    using indexed_prim_list.untouched [OF assms(1)] by (simp add: same_setup_def)
  have "ib \<in> set (map (\<lambda>i. handle_bo_map dev ! i) (bo exec))"
    using * vc4_use_handle_defined [OF ok', of 0] bo by (auto simp: deref_bo_def split: if_splits)
  moreover have "unat off + unat len * (if drop_bit 4 (u ! untrusted) \<noteq> 0 then 2 else 1)
      \<le> unat (bo_size ib)"
    using word_div_bound [OF *(5) len] by (simp split: if_splits)
  ultimately show ?thesis
    using *(3,4) get_put_unaligned_32 [OF put] by blast
qed

theorem indexed_prim_in_bounds_witness:
  "\<exists>exec' v'. validate_indexed_prim_list sample_dev sample_exec1 (replicate 76 0) 23 sample_list 32
      = Some (Ok, exec', v') \<and>
    (\<exists>ib len off. ib \<in> set (map (\<lambda>i. handle_bo_map sample_dev ! i) (bo sample_exec1)) \<and>
      get_unaligned_32 sample_list 33 = Some len \<and> get_unaligned_32 sample_list 37 = Some off \<and>
      get_unaligned_32 v' 28 = Some (bo_paddr ib + off) \<and>
      unat off + unat len * (if drop_bit 4 (sample_list ! 32) \<noteq> 0 then 2 else 1) \<le> unat (bo_size ib))"
proof -
  have "map_option fst (validate_indexed_prim_list sample_dev sample_exec1 (replicate 76 0) 23
      sample_list 32) = Some Ok"
    by code_simp
  from accepted_ex [OF this] show ?thesis
    using indexed_prim_in_bounds [OF _ sample_job1_ok, of "replicate 76 0" 23 sample_list 32]
    by fastforce
qed





section \<open>Gaps of the validation\<close>

text \<open>
  Three inputs the validator lets through. With 255 by 255 tiles the tile states alone exceed the
  binner's buffer, the size of the tile list area wraps around, and the hardware is told that
  almost the whole address space is free for tile lists. A shader record with a data offset past
  the end of its buffer passes the bound on the vertex index, since the remaining size wraps
  around. And a record whose highest vertex starts exactly at the end of the buffer passes, since
  the bound does not count that vertex's own bytes.
\<close>

definition gap_list :: "u8 \<Rightarrow> u32 \<Rightarrow> u8 list" where
  "gap_list stride data_offset =
     replicate 48 0 @ replicate 12 0 @ [0, stride, 0, 0] @ u32_bytes 0 @ u32_bytes 0 @
     u32_bytes data_offset"

lemma tile_states_overflow:
  "Option.bind (validate_tile_binning_config sample_dev sample_exec (replicate 16 0) 1
       (replicate 13 0 @ [255, 255, 0]) 1)
     (\<lambda>(r, exec', v'). do { sz \<leftarrow> get_unaligned_32 v' 5; Some (r, bin_alloc_size sample_dev < sz) })
   = Some (Ok, True)"
  by code_simp

lemma data_offset_unchecked:
  "map_option fst (validate_nv_shader_rec sample_dev (gap_list 12 0x2000) sample_exec1
     (replicate 76 0) 0) = Some Ok"
  "bo_size (job_bo sample_dev sample_exec1 0) < 0x2000"
  by code_simp+

lemma last_vertex_unchecked:
  "map_option fst (validate_nv_shader_rec sample_dev (gap_list 12 (4096 - 24)) sample_exec1
     (replicate 76 0) 0) = Some Ok"
  "(4096 - 24) + 2 * 12 = bo_size (job_bo sample_dev sample_exec1 0)"
  by code_simp+

end
