(* ===== verification/Vc4_Render.thy ===== *)
theory Vc4_Render
  imports Vc4_Validate
begin

text \<open>
  The render control list (\<^verbatim>\<open>vc4_render_cl.c\<close>): for a job the kernel itself writes the list that
  loads, draws and stores every tile. Its size is computed first, a buffer of that size is
  created, and the list is emitted into it; an assertion at the end compares the two.

  The emission is shown to equal a list of bytes written down directly, \<open>rcl_bytes\<close>, whose
  length is the computed size. From that follow the absence of overruns and the assertion. The
  loop counters are 8-bit words as in the code.
\<close>

section \<open>Emitting one tile\<close>

record vc4_rcl_setup =
  color_read :: "nat option"
  color_write :: "nat option"
  zs_read :: "nat option"
  zs_write :: "nat option"
  rcl :: vc4_cl
  next_offset :: u32

definition vc4_store_before_load :: "vc4_cl \<Rightarrow> vc4_cl option" where
  "vc4_store_before_load cl = do {
     cl \<leftarrow> cl_u8 cl (packet_code VC4_PACKET_STORE_TILE_BUFFER_GENERAL);
     buf \<leftarrow> VC4_SET_FIELD VC4_LOADSTORE_TILE_BUFFER_NONE VC4_LOADSTORE_TILE_BUFFER_BUFFER_MASK
              VC4_LOADSTORE_TILE_BUFFER_BUFFER_SHIFT;
     cl \<leftarrow> cl_u16 cl (ucast (buf OR VC4_STORE_TILE_BUFFER_DISABLE_COLOR_CLEAR
              OR VC4_STORE_TILE_BUFFER_DISABLE_ZS_CLEAR
              OR VC4_STORE_TILE_BUFFER_DISABLE_VG_MASK_CLEAR));
     cl_u32 cl 0 }"

definition vc4_tile_coordinates :: "vc4_cl \<Rightarrow> u32 \<Rightarrow> u32 \<Rightarrow> vc4_cl option" where
  "vc4_tile_coordinates cl x y = do {
     cl \<leftarrow> cl_u8 cl (packet_code VC4_PACKET_TILE_COORDINATES);
     cl \<leftarrow> cl_u8 cl (ucast x);
     cl_u8 cl (ucast y) }"

text \<open>The address of a surface, for a pointer that is not NULL.\<close>

definition surf_addr :: "'f vc4_dev \<Rightarrow> nat option \<Rightarrow> drm_vc4_submit_rcl_surface \<Rightarrow> u32 option" where
  "surf_addr dev p s = do { i \<leftarrow> p; b \<leftarrow> deref_bo dev i; Some (bo_paddr b + offset s) }"

definition emit_tile ::
    "'f vc4_dev \<Rightarrow> vc4_exec_info \<Rightarrow> vc4_rcl_setup \<Rightarrow> u8 \<Rightarrow> u8 \<Rightarrow> bool \<Rightarrow> bool
      \<Rightarrow> vc4_rcl_setup option" where
  "emit_tile dev exec su x y is_first is_last =
     (let ar = args exec; has_bin = bin_cl_size ar \<noteq> 0; cl = rcl su in do {
        cl \<leftarrow> (if color_read su \<noteq> None then do {
                cl \<leftarrow> cl_u8 cl (packet_code VC4_PACKET_LOAD_TILE_BUFFER_GENERAL);
                cl \<leftarrow> cl_u16 cl (bits (args_color_read ar));
                a \<leftarrow> surf_addr dev (color_read su) (args_color_read ar);
                cl_u32 cl a } else Some cl);
        cl \<leftarrow> (if zs_read su \<noteq> None then do {
                cl \<leftarrow> (if color_read su \<noteq> None then do {
                        cl \<leftarrow> vc4_tile_coordinates cl (ucast x) (ucast y);
                        vc4_store_before_load cl } else Some cl);
                cl \<leftarrow> cl_u8 cl (packet_code VC4_PACKET_LOAD_TILE_BUFFER_GENERAL);
                cl \<leftarrow> cl_u16 cl (bits (args_zs_read ar));
                a \<leftarrow> surf_addr dev (zs_read su) (args_zs_read ar);
                cl_u32 cl a } else Some cl);
        cl \<leftarrow> vc4_tile_coordinates cl (ucast x) (ucast y);
        cl \<leftarrow> (if is_first \<and> has_bin then cl_u8 cl (packet_code VC4_PACKET_WAIT_ON_SEMAPHORE)
              else Some cl);
        cl \<leftarrow> (if has_bin then do {
                cl \<leftarrow> cl_u8 cl (packet_code VC4_PACKET_BRANCH_TO_SUB_LIST);
                cl_u32 cl (tile_alloc_offset exec +
                  (ucast y * ucast (bin_tiles_x exec) + ucast x) * 32) } else Some cl);
        cl \<leftarrow> (if zs_write su \<noteq> None then do {
                let last_tile_write = (color_write su = None);
                cl \<leftarrow> cl_u8 cl (packet_code VC4_PACKET_STORE_TILE_BUFFER_GENERAL);
                cl \<leftarrow> cl_u16 cl (ucast (ucast (bits (args_zs_write ar)) OR
                       (if last_tile_write then 0 else VC4_STORE_TILE_BUFFER_DISABLE_COLOR_CLEAR)));
                a \<leftarrow> surf_addr dev (zs_write su) (args_zs_write ar);
                cl_u32 cl (a OR (if is_last \<and> last_tile_write then VC4_LOADSTORE_TILE_BUFFER_EOF
                                 else 0)) } else Some cl);
        cl \<leftarrow> (if color_write su \<noteq> None then do {
                cl \<leftarrow> (if zs_write su \<noteq> None then vc4_tile_coordinates cl (ucast x) (ucast y)
                      else Some cl);
                (if is_last then cl_u8 cl (packet_code VC4_PACKET_STORE_MS_TILE_BUFFER_AND_EOF)
                 else cl_u8 cl (packet_code VC4_PACKET_STORE_MS_TILE_BUFFER)) } else Some cl);
        Some (su\<lparr>rcl := cl\<rparr>) })"

section \<open>The whole list\<close>

definition has_clear :: "drm_vc4_submit_cl \<Rightarrow> bool" where
  "has_clear ar \<longleftrightarrow> args_flags ar AND VC4_SUBMIT_CL_USE_CLEAR_COLOR \<noteq> 0"

definition rcl_loop_body_size :: "drm_vc4_submit_cl \<Rightarrow> vc4_rcl_setup \<Rightarrow> u32" where
  "rcl_loop_body_size ar su =
     packet_size VC4_PACKET_TILE_COORDINATES
     + (if color_read su \<noteq> None then packet_size VC4_PACKET_LOAD_TILE_BUFFER_GENERAL else 0)
     + (if zs_read su \<noteq> None then
          (if color_read su \<noteq> None then packet_size VC4_PACKET_TILE_COORDINATES
             + packet_size VC4_PACKET_STORE_TILE_BUFFER_GENERAL else 0)
          + packet_size VC4_PACKET_LOAD_TILE_BUFFER_GENERAL else 0)
     + (if bin_cl_size ar \<noteq> 0 then packet_size VC4_PACKET_BRANCH_TO_SUB_LIST else 0)
     + (if zs_write su \<noteq> None then packet_size VC4_PACKET_STORE_TILE_BUFFER_GENERAL else 0)
     + (if color_write su \<noteq> None then packet_size VC4_PACKET_STORE_MS_TILE_BUFFER else 0)
     + packet_size VC4_PACKET_TILE_COORDINATES
       * (of_bool (color_write su \<noteq> None) + of_bool (zs_write su \<noteq> None) - 1)"

definition rcl_size :: "drm_vc4_submit_cl \<Rightarrow> vc4_rcl_setup \<Rightarrow> u32" where
  "rcl_size ar su =
     (let xtiles = max_x_tile ar - min_x_tile ar + 1;
          ytiles = max_y_tile ar - min_y_tile ar + 1
      in packet_size VC4_PACKET_TILE_RENDERING_MODE_CONFIG
         + (if has_clear ar then packet_size VC4_PACKET_CLEAR_COLORS
              + packet_size VC4_PACKET_TILE_COORDINATES
              + packet_size VC4_PACKET_STORE_TILE_BUFFER_GENERAL else 0)
         + (if bin_cl_size ar \<noteq> 0 then packet_size VC4_PACKET_WAIT_ON_SEMAPHORE else 0)
         + ucast xtiles * ucast ytiles * rcl_loop_body_size ar su)"

definition rcl_prologue :: "'f vc4_dev \<Rightarrow> drm_vc4_submit_cl \<Rightarrow> vc4_rcl_setup \<Rightarrow> vc4_cl option" where
  "rcl_prologue dev ar su = do {
     cl \<leftarrow> (if has_clear ar then do {
             cl \<leftarrow> cl_u8 (rcl su) (packet_code VC4_PACKET_CLEAR_COLORS);
             cl \<leftarrow> cl_u32 cl (fst (clear_color ar));
             cl \<leftarrow> cl_u32 cl (snd (clear_color ar));
             cl \<leftarrow> cl_u32 cl (clear_z ar);
             cl \<leftarrow> cl_u8 cl (clear_s ar);
             cl \<leftarrow> vc4_tile_coordinates cl 0 0;
             cl \<leftarrow> cl_u8 cl (packet_code VC4_PACKET_STORE_TILE_BUFFER_GENERAL);
             cl \<leftarrow> cl_u16 cl VC4_LOADSTORE_TILE_BUFFER_NONE;
             cl_u32 cl 0 } else Some (rcl su));
     cl \<leftarrow> cl_u8 cl (packet_code VC4_PACKET_TILE_RENDERING_MODE_CONFIG);
     a \<leftarrow> (if color_write su \<noteq> None then surf_addr dev (color_write su) (args_color_write ar)
          else Some 0);
     cl \<leftarrow> cl_u32 cl a;
     cl \<leftarrow> cl_u16 cl (width ar);
     cl \<leftarrow> cl_u16 cl (height ar);
     cl_u16 cl (bits (args_color_write ar)) }"

text \<open>The two \<^verbatim>\<open>for\<close> loops. Their counters wrap around at 256, so they are partial functions.\<close>

partial_function (option) rcl_x_loop ::
    "'f vc4_dev \<Rightarrow> vc4_exec_info \<Rightarrow> u8 \<Rightarrow> u8 \<Rightarrow> vc4_rcl_setup \<Rightarrow> vc4_rcl_setup option" where
  "rcl_x_loop dev exec y x su =
     (if x \<le> max_x_tile (args exec) then do {
        let is_first = (x = min_x_tile (args exec) \<and> y = min_y_tile (args exec));
        let is_last = (x = max_x_tile (args exec) \<and> y = max_y_tile (args exec));
        su \<leftarrow> emit_tile dev exec su x y is_first is_last;
        rcl_x_loop dev exec y (x + 1) su }
      else Some su)"

partial_function (option) rcl_y_loop ::
    "'f vc4_dev \<Rightarrow> vc4_exec_info \<Rightarrow> u8 \<Rightarrow> vc4_rcl_setup \<Rightarrow> vc4_rcl_setup option" where
  "rcl_y_loop dev exec y su =
     (if y \<le> max_y_tile (args exec) then do {
        su \<leftarrow> rcl_x_loop dev exec y (min_x_tile (args exec)) su;
        rcl_y_loop dev exec (y + 1) su }
      else Some su)"

definition vc4_create_rcl_bo ::
    "'f firmware \<Rightarrow> 'f vc4_dev \<Rightarrow> vc4_exec_info \<Rightarrow> vc4_rcl_setup
      \<Rightarrow> (rc \<times> vc4_exec_info \<times> 'f vc4_dev) option" where
  "vc4_create_rcl_bo fw dev exec su =
     (let ar = args exec; sz = rcl_size ar su;
          (rcl_bo, dev) = vc4_bo_create fw dev sz VC4_BO_TYPE_RCL
      in case rcl_bo of
           None \<Rightarrow> Some (Err E_NOMEM, exec, dev)
         | Some i \<Rightarrow> do {
             b \<leftarrow> deref_bo dev i;
             let su = su\<lparr>rcl := vc4_init_cl\<lparr>cl_buf := bo_mem dev i, cl_next := 0, cl_size := sz\<rparr>\<rparr>;
             let exec = exec\<lparr>unref_list := unref_list exec @ [i]\<rparr>;
             cl \<leftarrow> rcl_prologue dev ar su;
             su \<leftarrow> rcl_y_loop dev exec (min_y_tile ar) (su\<lparr>rcl := cl\<rparr>);
             cassert (cl_offset (rcl su) = sz);
             let exec = exec\<lparr>ct1ca := bo_paddr b, ct1ea := bo_paddr b + cl_offset (rcl su)\<rparr>;
             Some (Ok, exec, dev\<lparr>bo_mem := (bo_mem dev)(i := cl_buf (rcl su))\<rparr>) })"

section \<open>Surfaces and the entry point\<close>

text \<open>The result carries the pointer stored through \<^verbatim>\<open>obj\<close>, which the caller set to NULL.\<close>

definition vc4_rcl_surface_setup ::
    "vc4_exec_info \<Rightarrow> drm_vc4_submit_rcl_surface \<Rightarrow> (rc \<times> nat option) option" where
  "vc4_rcl_surface_setup exec surf =
     (let tiling = VC4_GET_FIELD (ucast (bits surf)) VC4_LOADSTORE_TILE_BUFFER_TILING_MASK
                     VC4_LOADSTORE_TILE_BUFFER_TILING_SHIFT;
          buffer = VC4_GET_FIELD (ucast (bits surf)) VC4_LOADSTORE_TILE_BUFFER_BUFFER_MASK
                     VC4_LOADSTORE_TILE_BUFFER_BUFFER_SHIFT;
          fmt = VC4_GET_FIELD (ucast (bits surf)) VC4_LOADSTORE_TILE_BUFFER_FORMAT_MASK
                     VC4_LOADSTORE_TILE_BUFFER_FORMAT_SHIFT
      in if hindex surf = - 1 then Some (Ok, None)
      else do {
        obj \<leftarrow> vc4_use_bo exec (hindex surf);
        if obj = None then Some (Err E_INVAL, obj)
        else if ucast (bits surf) AND NOT (VC4_LOADSTORE_TILE_BUFFER_TILING_MASK
                  OR VC4_LOADSTORE_TILE_BUFFER_BUFFER_MASK
                  OR VC4_LOADSTORE_TILE_BUFFER_FORMAT_MASK) \<noteq> 0 then Some (Err E_INVAL, obj)
        else if VC4_TILING_FORMAT_LT < tiling then Some (Err E_INVAL, obj)
        else if buffer = VC4_LOADSTORE_TILE_BUFFER_ZS \<and> fmt \<noteq> 0 then Some (Err E_INVAL, obj)
        else if buffer = VC4_LOADSTORE_TILE_BUFFER_COLOR \<and>
                fmt \<notin> {VC4_LOADSTORE_TILE_BUFFER_BGR565, VC4_LOADSTORE_TILE_BUFFER_BGR565_DITHER,
                       VC4_LOADSTORE_TILE_BUFFER_RGBA8888} then Some (Err E_INVAL, obj)
        else if buffer \<notin> {VC4_LOADSTORE_TILE_BUFFER_ZS, VC4_LOADSTORE_TILE_BUFFER_COLOR}
             then Some (Err E_INVAL, obj)
        else if offset surf AND 0xf \<noteq> 0 then Some (Err E_INVAL, obj)
        else Some (Ok, obj) })"

definition vc4_rcl_render_config_surface_setup ::
    "vc4_exec_info \<Rightarrow> drm_vc4_submit_rcl_surface \<Rightarrow> (rc \<times> nat option) option" where
  "vc4_rcl_render_config_surface_setup exec surf =
     (let tiling = VC4_GET_FIELD (ucast (bits surf)) VC4_RENDER_CONFIG_MEMORY_FORMAT_MASK
                     VC4_RENDER_CONFIG_MEMORY_FORMAT_SHIFT;
          fmt = VC4_GET_FIELD (ucast (bits surf)) VC4_RENDER_CONFIG_FORMAT_MASK
                     VC4_RENDER_CONFIG_FORMAT_SHIFT
      in if ucast (bits surf) AND NOT (VC4_RENDER_CONFIG_MEMORY_FORMAT_MASK
              OR VC4_RENDER_CONFIG_FORMAT_MASK) \<noteq> 0 then Some (Err E_INVAL, None)
      else if hindex surf = - 1 then Some (Ok, None)
      else do {
        obj \<leftarrow> vc4_use_bo exec (hindex surf);
        if obj = None then Some (Err E_INVAL, obj)
        else if VC4_TILING_FORMAT_LT < tiling then Some (Err E_INVAL, obj)
        else if fmt \<notin> {VC4_RENDER_CONFIG_FORMAT_BGR565_DITHERED, VC4_RENDER_CONFIG_FORMAT_BGR565,
                       VC4_RENDER_CONFIG_FORMAT_RGBA8888} then Some (Err E_INVAL, obj)
        else Some (Ok, obj) })"

definition vc4_get_rcl ::
    "'f firmware \<Rightarrow> 'f vc4_dev \<Rightarrow> vc4_exec_info \<Rightarrow> (rc \<times> vc4_exec_info \<times> 'f vc4_dev) option" where
  "vc4_get_rcl fw dev exec =
     (let ar = args exec; has_bin = bin_cl_size ar \<noteq> 0 in
      if max_x_tile ar < min_x_tile ar \<or> max_y_tile ar < min_y_tile ar
      then Some (Err E_INVAL, exec, dev)
      else if has_bin \<and> (bin_tiles_x exec < max_x_tile ar \<or> bin_tiles_y exec < max_y_tile ar)
      then Some (Err E_INVAL, exec, dev)
      else do {
        (ret, cr) \<leftarrow> vc4_rcl_surface_setup exec (args_color_read ar);
        if ret \<noteq> Ok then Some (ret, exec, dev) else do {
        (ret, cw) \<leftarrow> vc4_rcl_render_config_surface_setup exec (args_color_write ar);
        if ret \<noteq> Ok then Some (ret, exec, dev) else do {
        (ret, zr) \<leftarrow> vc4_rcl_surface_setup exec (args_zs_read ar);
        if ret \<noteq> Ok then Some (ret, exec, dev) else do {
        (ret, zw) \<leftarrow> vc4_rcl_surface_setup exec (args_zs_write ar);
        if ret \<noteq> Ok then Some (ret, exec, dev)
        else if cw = None \<and> zw = None then Some (Err E_INVAL, exec, dev)
        else vc4_create_rcl_bo fw dev exec
               \<lparr>color_read = cr, color_write = cw, zs_read = zr, zs_write = zw,
                rcl = vc4_init_cl, next_offset = 0\<rparr> } } } })"

section \<open>The list as bytes\<close>

definition surf_base :: "'f vc4_dev \<Rightarrow> nat option \<Rightarrow> drm_vc4_submit_rcl_surface \<Rightarrow> u32" where
  "surf_base dev p s = (case p of None \<Rightarrow> 0 | Some i \<Rightarrow> bo_paddr (handle_bo_map dev ! i) + offset s)"

definition coords_bytes :: "u8 \<Rightarrow> u8 \<Rightarrow> u8 list" where
  "coords_bytes x y = [packet_code VC4_PACKET_TILE_COORDINATES, x, y]"

definition surf_bytes :: "vc4_packet \<Rightarrow> u16 \<Rightarrow> u32 \<Rightarrow> u8 list" where
  "surf_bytes p b a = packet_code p # u16_bytes b @ u32_bytes a"

definition tile_bytes ::
    "'f vc4_dev \<Rightarrow> vc4_exec_info \<Rightarrow> vc4_rcl_setup \<Rightarrow> u8 \<Rightarrow> u8 \<Rightarrow> bool \<Rightarrow> bool \<Rightarrow> u8 list" where
  "tile_bytes dev exec su x y is_first is_last =
     (let ar = args exec; has_bin = bin_cl_size ar \<noteq> 0 in
      (if color_read su \<noteq> None
       then surf_bytes VC4_PACKET_LOAD_TILE_BUFFER_GENERAL (bits (args_color_read ar))
              (surf_base dev (color_read su) (args_color_read ar)) else []) @
      (if zs_read su \<noteq> None
       then (if color_read su \<noteq> None then coords_bytes x y @
               surf_bytes VC4_PACKET_STORE_TILE_BUFFER_GENERAL 0xE000 0 else []) @
            surf_bytes VC4_PACKET_LOAD_TILE_BUFFER_GENERAL (bits (args_zs_read ar))
              (surf_base dev (zs_read su) (args_zs_read ar)) else []) @
      coords_bytes x y @
      (if is_first \<and> has_bin then [packet_code VC4_PACKET_WAIT_ON_SEMAPHORE] else []) @
      (if has_bin then packet_code VC4_PACKET_BRANCH_TO_SUB_LIST #
         u32_bytes (tile_alloc_offset exec +
           (ucast y * ucast (bin_tiles_x exec) + ucast x) * 32) else []) @
      (if zs_write su \<noteq> None
       then surf_bytes VC4_PACKET_STORE_TILE_BUFFER_GENERAL
              (ucast (ucast (bits (args_zs_write ar)) OR
                 (if color_write su = None then 0
                  else VC4_STORE_TILE_BUFFER_DISABLE_COLOR_CLEAR)))
              (surf_base dev (zs_write su) (args_zs_write ar) OR
                 (if is_last \<and> color_write su = None then VC4_LOADSTORE_TILE_BUFFER_EOF else 0))
       else []) @
      (if color_write su \<noteq> None
       then (if zs_write su \<noteq> None then coords_bytes x y else []) @
            [if is_last then packet_code VC4_PACKET_STORE_MS_TILE_BUFFER_AND_EOF
             else packet_code VC4_PACKET_STORE_MS_TILE_BUFFER] else []))"

definition prologue_bytes :: "'f vc4_dev \<Rightarrow> drm_vc4_submit_cl \<Rightarrow> vc4_rcl_setup \<Rightarrow> u8 list" where
  "prologue_bytes dev ar su =
     (if has_clear ar
      then packet_code VC4_PACKET_CLEAR_COLORS # u32_bytes (fst (clear_color ar)) @
           u32_bytes (snd (clear_color ar)) @ u32_bytes (clear_z ar) @ [clear_s ar] @
           coords_bytes 0 0 @ surf_bytes VC4_PACKET_STORE_TILE_BUFFER_GENERAL 0 0
      else []) @
     packet_code VC4_PACKET_TILE_RENDERING_MODE_CONFIG #
     u32_bytes (surf_base dev (color_write su) (args_color_write ar)) @
     u16_bytes (width ar) @ u16_bytes (height ar) @ u16_bytes (bits (args_color_write ar))"

definition tile_at :: "'f vc4_dev \<Rightarrow> vc4_exec_info \<Rightarrow> vc4_rcl_setup \<Rightarrow> nat \<Rightarrow> nat \<Rightarrow> u8 list" where
  "tile_at dev exec su y x =
     (let ar = args exec in
      tile_bytes dev exec su (of_nat x) (of_nat y)
        (x = unat (min_x_tile ar) \<and> y = unat (min_y_tile ar))
        (x = unat (max_x_tile ar) \<and> y = unat (max_y_tile ar)))"

definition row_bytes :: "'f vc4_dev \<Rightarrow> vc4_exec_info \<Rightarrow> vc4_rcl_setup \<Rightarrow> nat \<Rightarrow> nat \<Rightarrow> u8 list" where
  "row_bytes dev exec su y x = concat (map (tile_at dev exec su y) [x..<Suc (unat (max_x_tile (args exec)))])"

definition rows_bytes :: "'f vc4_dev \<Rightarrow> vc4_exec_info \<Rightarrow> vc4_rcl_setup \<Rightarrow> nat \<Rightarrow> u8 list" where
  "rows_bytes dev exec su y =
     concat (map (\<lambda>y. row_bytes dev exec su y (unat (min_x_tile (args exec))))
       [y..<Suc (unat (max_y_tile (args exec)))])"

text \<open>The whole list: the prologue, then the tiles row by row.\<close>

definition rcl_bytes :: "'f vc4_dev \<Rightarrow> vc4_exec_info \<Rightarrow> vc4_rcl_setup \<Rightarrow> u8 list" where
  "rcl_bytes dev exec su =
     prologue_bytes dev (args exec) su @
     rows_bytes dev exec su (unat (min_y_tile (args exec)))"

definition ptr_ok :: "'f vc4_dev \<Rightarrow> nat option \<Rightarrow> bool" where
  "ptr_ok dev p \<longleftrightarrow> (case p of None \<Rightarrow> True | Some i \<Rightarrow> i < length (handle_bo_map dev))"

definition setup_ok :: "'f vc4_dev \<Rightarrow> vc4_rcl_setup \<Rightarrow> bool" where
  "setup_ok dev su \<longleftrightarrow>
     ptr_ok dev (color_read su) \<and> ptr_ok dev (color_write su) \<and>
     ptr_ok dev (zs_read su) \<and> ptr_ok dev (zs_write su)"

section \<open>Emission equals the bytes\<close>

text \<open>Conditional emissions join the emissions around them.\<close>

lemma cl_emit_opt_first:
  "cl_next cl \<le> length (cl_buf cl) \<Longrightarrow>
     (if c then cl_emit ys cl else Some cl) = cl_emit (if c then ys else []) cl"
  by (simp add: cl_emit_Nil)

lemma cl_emit_opt_next [cl_emits]:
  "Option.bind (cl_emit xs cl) (\<lambda>cl. Option.bind (if c then cl_emit ys cl else Some cl) k) =
     Option.bind (cl_emit (xs @ (if c then ys else [])) cl) k"
  by (simp add: cl_emits)

lemma cl_emit_opt_inner [cl_emits]:
  "Option.bind (if c then cl_emit ys cl else Some cl) (\<lambda>cl. Option.bind (cl_emit zs cl) k) =
     Option.bind (cl_emit ((if c then ys else []) @ zs) cl) k"
  by (simp add: cl_emits)

lemma cl_emit_opt_inner_last [cl_emits]:
  "Option.bind (if c then cl_emit ys cl else Some cl) (\<lambda>cl. cl_emit zs cl) =
     cl_emit ((if c then ys else []) @ zs) cl"
  by (simp add: cl_emits)

lemma cl_u8_if [cl_emits]: "(if c then cl_u8 cl a else cl_u8 cl b) = cl_emit [if c then a else b] cl"
  by (simp add: cl_emits)

lemma surf_addr_eq: "ptr_ok dev p \<Longrightarrow> p \<noteq> None \<Longrightarrow> surf_addr dev p s = Some (surf_base dev p s)"
  by (auto simp: surf_addr_def surf_base_def ptr_ok_def deref_bo_def)

lemma none_mode_field: "VC4_SET_FIELD 0 7 0 = Some 0"
  by (simp add: VC4_SET_FIELD_def)

lemma store_before_load_emit [cl_emits]:
  "vc4_store_before_load cl = cl_emit (surf_bytes VC4_PACKET_STORE_TILE_BUFFER_GENERAL 0xE000 0) cl"
  by (simp add: vc4_store_before_load_def none_mode_field cl_emits surf_bytes_def)

lemma tile_coordinates_emit [cl_emits]:
  "vc4_tile_coordinates cl x y = cl_emit (coords_bytes (ucast x) (ucast y)) cl"
  by (simp add: vc4_tile_coordinates_def cl_emits coords_bytes_def)

lemma emit_tile_emit:
  assumes "setup_ok dev su"
  shows "emit_tile dev exec su x y f l =
    map_option (\<lambda>cl. su\<lparr>rcl := cl\<rparr>) (cl_emit (tile_bytes dev exec su x y f l) (rcl su))"
  using assms unfolding setup_ok_def emit_tile_def tile_bytes_def Let_def
  by (simp add: surf_addr_eq cl_emits surf_bytes_def coords_bytes_def map_conv_bind_option
      comp_def)

lemma tile_bytes_rcl [simp]: "tile_bytes dev exec (su\<lparr>rcl := cl\<rparr>) = tile_bytes dev exec su"
  by (intro ext, cases su) (simp only: tile_bytes_def vc4_rcl_setup.simps)

lemma tile_at_rcl [simp]: "tile_at dev exec (su\<lparr>rcl := cl\<rparr>) = tile_at dev exec su"
  by (intro ext) (simp add: tile_at_def)

lemma row_bytes_rcl [simp]: "row_bytes dev exec (su\<lparr>rcl := cl\<rparr>) = row_bytes dev exec su"
  by (intro ext) (simp add: row_bytes_def)

lemma rows_bytes_rcl [simp]: "rows_bytes dev exec (su\<lparr>rcl := cl\<rparr>) = rows_bytes dev exec su"
  by (intro ext) (simp add: rows_bytes_def)

lemma setup_ok_rcl [simp]: "setup_ok dev (su\<lparr>rcl := cl\<rparr>) = setup_ok dev su"
  by (simp add: setup_ok_def)

lemma rcl_x_loop_emit:
  assumes "setup_ok dev su" "max_x_tile (args exec) < 255" "x \<le> max_x_tile (args exec) + 1"
    "cl_next (rcl su) \<le> length (cl_buf (rcl su))"
  shows "rcl_x_loop dev exec y x su =
    map_option (\<lambda>cl. su\<lparr>rcl := cl\<rparr>) (cl_emit (row_bytes dev exec su (unat y) (unat x)) (rcl su))"
  using assms
proof (induction "256 - unat x" arbitrary: x su rule: less_induct)
  case less
  let ?m = "max_x_tile (args exec)"
  have m1: "unat (?m + 1) = Suc (unat ?m)" by (rule unat_inc [OF less.prems(2)])
  show ?case
  proof (cases "x \<le> ?m")
    case False
    then have "unat x = Suc (unat ?m)" using less.prems(3) m1 by (simp add: word_le_nat_alt)
    then show ?thesis
      using False less.prems(4)
      by (simp add: rcl_x_loop.simps [of _ _ _ x] row_bytes_def cl_emit_Nil)
  next
    case True
    then have lt: "x < 255" using less.prems(2) by simp
    then have x255: "unat x < 255" by (simp add: word_less_nat_alt)
    have x1: "unat (x + 1) = Suc (unat x)" by (rule unat_inc [OF lt])
    have row: "row_bytes dev exec su (unat y) (unat x) =
        tile_at dev exec su (unat y) (unat x) @ row_bytes dev exec su (unat y) (unat (x + 1))"
      using True by (simp add: row_bytes_def x1 word_le_nat_alt upt_conv_Cons del: upt_Suc)
    have tile: "tile_at dev exec su (unat y) (unat x) =
        tile_bytes dev exec su x y (x = min_x_tile (args exec) \<and> y = min_y_tile (args exec))
          (x = ?m \<and> y = max_y_tile (args exec))"
      by (simp add: tile_at_def Let_def word_unat_eq_iff)
    have IH: "rcl_x_loop dev exec y (x + 1) (su\<lparr>rcl := cl\<rparr>) = map_option (\<lambda>cl. su\<lparr>rcl := cl\<rparr>)
        (cl_emit (row_bytes dev exec su (unat y) (unat (x + 1))) cl)"
      if "cl_emit (tile_at dev exec su (unat y) (unat x)) (rcl su) = Some cl" for cl
    proof -
      have "cl_next cl \<le> length (cl_buf cl)"
        using that by (auto simp: cl_emit_def split: if_splits)
      then show ?thesis
        using less.hyps [of "x + 1" "su\<lparr>rcl := cl\<rparr>"] less.prems True x1 m1 x255
        by (simp add: word_le_nat_alt)
    qed
    show ?thesis
      using True IH
      by (cases "cl_emit (tile_at dev exec su (unat y) (unat x)) (rcl su)")
        (simp_all add: rcl_x_loop.simps [of _ _ _ x] Let_def emit_tile_emit [OF less.prems(1)]
          row tile [symmetric] cl_emit_append [symmetric])
  qed
qed

lemma rcl_y_loop_emit:
  assumes "setup_ok dev su" "max_x_tile (args exec) < 255" "max_y_tile (args exec) < 255"
    "min_x_tile (args exec) \<le> max_x_tile (args exec)" "y \<le> max_y_tile (args exec) + 1"
    "cl_next (rcl su) \<le> length (cl_buf (rcl su))"
  shows "rcl_y_loop dev exec y su =
    map_option (\<lambda>cl. su\<lparr>rcl := cl\<rparr>) (cl_emit (rows_bytes dev exec su (unat y)) (rcl su))"
  using assms
proof (induction "256 - unat y" arbitrary: y su rule: less_induct)
  case less
  let ?m = "max_y_tile (args exec)" and ?x = "min_x_tile (args exec)"
  have m1: "unat (?m + 1) = Suc (unat ?m)" by (rule unat_inc [OF less.prems(3)])
  have x: "?x \<le> max_x_tile (args exec) + 1"
    using less.prems(4) unat_inc [OF less.prems(2)] by (simp add: word_le_nat_alt)
  show ?case
  proof (cases "y \<le> ?m")
    case False
    then have "unat y = Suc (unat ?m)" using less.prems(5) m1 by (simp add: word_le_nat_alt)
    then show ?thesis
      using False less.prems(6)
      by (simp add: rcl_y_loop.simps [of _ _ y] rows_bytes_def cl_emit_Nil)
  next
    case True
    then have lt: "y < 255" using less.prems(3) by simp
    then have y255: "unat y < 255" by (simp add: word_less_nat_alt)
    have y1: "unat (y + 1) = Suc (unat y)" by (rule unat_inc [OF lt])
    have rows: "rows_bytes dev exec su (unat y) =
        row_bytes dev exec su (unat y) (unat ?x) @ rows_bytes dev exec su (unat (y + 1))"
      using True by (simp add: rows_bytes_def y1 word_le_nat_alt upt_conv_Cons del: upt_Suc)
    have IH: "rcl_y_loop dev exec (y + 1) (su\<lparr>rcl := cl\<rparr>) = map_option (\<lambda>cl. su\<lparr>rcl := cl\<rparr>)
        (cl_emit (rows_bytes dev exec su (unat (y + 1))) cl)"
      if "cl_emit (row_bytes dev exec su (unat y) (unat ?x)) (rcl su) = Some cl" for cl
    proof -
      have "cl_next cl \<le> length (cl_buf cl)"
        using that by (auto simp: cl_emit_def split: if_splits)
      then show ?thesis
        using less.hyps [of "y + 1" "su\<lparr>rcl := cl\<rparr>"] less.prems True y1 m1 y255
        by (simp add: word_le_nat_alt)
    qed
    show ?thesis
      using True IH
      by (cases "cl_emit (row_bytes dev exec su (unat y) (unat ?x)) (rcl su)")
        (simp_all add: rcl_y_loop.simps [of _ _ y] rcl_x_loop_emit [OF less.prems(1,2) x less.prems(6)]
          rows cl_emit_append [symmetric])
  qed
qed

lemma rcl_prologue_emit:
  assumes "setup_ok dev su"
  shows "rcl_prologue dev ar su = cl_emit (prologue_bytes dev ar su) (rcl su)"
  using assms unfolding rcl_prologue_def prologue_bytes_def setup_ok_def
  by (cases "color_write su")
    (simp_all add: cl_emits coords_bytes_def surf_bytes_def surf_addr_eq surf_base_def)

section \<open>The computed size\<close>

lemma tile_bytes_length:
  assumes "color_write su \<noteq> None \<or> zs_write su \<noteq> None"
  shows "length (tile_bytes dev exec su x y f l) =
    unat (rcl_loop_body_size (args exec) su) + (if f \<and> bin_cl_size (args exec) \<noteq> 0 then 1 else 0)"
  using assms
  by (auto simp: tile_bytes_def rcl_loop_body_size_def Let_def surf_bytes_def coords_bytes_def)

lemma row_bytes_length:
  assumes "color_write su \<noteq> None \<or> zs_write su \<noteq> None" "min_x_tile (args exec) \<le> max_x_tile (args exec)"
  shows "length (row_bytes dev exec su y (unat (min_x_tile (args exec)))) =
    (Suc (unat (max_x_tile (args exec))) - unat (min_x_tile (args exec)))
      * unat (rcl_loop_body_size (args exec) su) +
    (if y = unat (min_y_tile (args exec)) then (if bin_cl_size (args exec) \<noteq> 0 then 1 else 0) else 0)"
proof -
  let ?x0 = "unat (min_x_tile (args exec))" and ?x1 = "Suc (unat (max_x_tile (args exec)))"
  let ?c = "if y = unat (min_y_tile (args exec)) then (if bin_cl_size (args exec) \<noteq> 0 then 1 else 0) else 0 :: nat"
  have "length (row_bytes dev exec su y ?x0) =
    sum_list (map (\<lambda>x. unat (rcl_loop_body_size (args exec) su) + (if x = ?x0 then ?c else 0)) [?x0..<?x1])"
    unfolding row_bytes_def length_concat map_map
    by (rule arg_cong [where f = sum_list], rule map_cong)
      (auto simp: tile_at_def Let_def tile_bytes_length [OF assms(1)])
  also have "\<dots> = (?x1 - ?x0) * unat (rcl_loop_body_size (args exec) su) + ?c"
    unfolding sum_list_const_plus
    using sum_list_only_first [of ?x0 ?x1 ?c] assms(2) by (simp add: word_le_nat_alt del: upt_Suc)
  finally show ?thesis .
qed

lemma rows_bytes_length:
  assumes "color_write su \<noteq> None \<or> zs_write su \<noteq> None" "min_x_tile (args exec) \<le> max_x_tile (args exec)"
    "min_y_tile (args exec) \<le> max_y_tile (args exec)"
  shows "length (rows_bytes dev exec su (unat (min_y_tile (args exec)))) =
    (Suc (unat (max_y_tile (args exec))) - unat (min_y_tile (args exec))) *
      ((Suc (unat (max_x_tile (args exec))) - unat (min_x_tile (args exec)))
        * unat (rcl_loop_body_size (args exec) su)) +
    (if bin_cl_size (args exec) \<noteq> 0 then 1 else 0)"
proof -
  let ?y0 = "unat (min_y_tile (args exec))" and ?y1 = "Suc (unat (max_y_tile (args exec)))"
  let ?w = "(Suc (unat (max_x_tile (args exec))) - unat (min_x_tile (args exec)))
    * unat (rcl_loop_body_size (args exec) su)"
  let ?c = "if bin_cl_size (args exec) \<noteq> 0 then 1 else 0 :: nat"
  have "length (rows_bytes dev exec su ?y0) =
    sum_list (map (\<lambda>y. ?w + (if y = ?y0 then ?c else 0)) [?y0..<?y1])"
    unfolding rows_bytes_def length_concat map_map
    by (rule arg_cong [where f = sum_list], rule map_cong)
      (auto simp: row_bytes_length [OF assms(1,2)])
  also have "\<dots> = (?y1 - ?y0) * ?w + ?c"
    unfolding sum_list_const_plus
    using sum_list_only_first [of ?y0 ?y1 ?c] assms(3) by (simp add: word_le_nat_alt del: upt_Suc)
  finally show ?thesis .
qed

lemma prologue_bytes_length:
  "length (prologue_bytes dev ar su) = 11 + (if has_clear ar then 24 else 0)"
  by (simp add: prologue_bytes_def surf_bytes_def coords_bytes_def)

lemma rcl_loop_body_size_bound: "unat (rcl_loop_body_size ar su) \<le> 46"
  by (simp add: rcl_loop_body_size_def)

lemma tile_count:
  fixes a b :: u8
  assumes "a \<le> b" "b < 255"
  shows "unat (b - a + 1) = Suc (unat b) - unat a"
proof -
  have "unat (b - a) = unat b - unat a" using assms(1) by (simp add: unat_sub word_le_nat_alt)
  moreover from this have "b - a < 255"
    using assms by (simp add: word_less_nat_alt word_le_nat_alt)
  ultimately show ?thesis using assms(1) unat_inc [of "b - a" 255] by (simp add: word_le_nat_alt Suc_diff_le)
qed

definition tiles_ok :: "drm_vc4_submit_cl \<Rightarrow> bool" where
  "tiles_ok ar \<longleftrightarrow> min_x_tile ar \<le> max_x_tile ar \<and> min_y_tile ar \<le> max_y_tile ar \<and>
     max_x_tile ar < 255 \<and> max_y_tile ar < 255"

lemma rcl_bytes_length:
  assumes "color_write su \<noteq> None \<or> zs_write su \<noteq> None" "tiles_ok (args exec)"
  shows "length (rcl_bytes dev exec su) = unat (rcl_size (args exec) su)"
    and "unat (rcl_size (args exec) su) < 2 ^ 24"
proof -
  let ?ar = "args exec" and ?B = "unat (rcl_loop_body_size (args exec) su)"
  let ?W = "unat (max_x_tile ?ar - min_x_tile ?ar + 1)" and ?H = "unat (max_y_tile ?ar - min_y_tile ?ar + 1)"
  have len: "length (rcl_bytes dev exec su) =
      11 + (if has_clear ?ar then 24 else 0) + (if bin_cl_size ?ar \<noteq> 0 then 1 else 0) + ?W * ?H * ?B"
    using assms tile_count [of "min_x_tile ?ar" "max_x_tile ?ar"]
      tile_count [of "min_y_tile ?ar" "max_y_tile ?ar"]
    by (simp add: rcl_bytes_def prologue_bytes_length rows_bytes_length tiles_ok_def)
  have "rcl_size ?ar su = of_nat (length (rcl_bytes dev exec su))"
    unfolding len by (simp add: rcl_size_def Let_def)
  moreover have "length (rcl_bytes dev exec su) < 2 ^ 24"
  proof -
    have "?W \<le> 255" "?H \<le> 255"
      using unsigned_less [of "max_x_tile ?ar - min_x_tile ?ar + 1", where 'a = nat]
        unsigned_less [of "max_y_tile ?ar - min_y_tile ?ar + 1", where 'a = nat] by simp_all
    then have "?W * ?H * ?B \<le> 255 * 255 * 46"
      by (intro mult_le_mono rcl_loop_body_size_bound)
    then show ?thesis unfolding len by simp
  qed
  ultimately show "length (rcl_bytes dev exec su) = unat (rcl_size ?ar su)"
    and "unat (rcl_size ?ar su) < 2 ^ 24"
    by (simp_all add: unat_of_nat_u32)
qed

lemma vc4_bo_create_length:
  "vc4_bo_create fw dev sz ty = (p, dev') \<Longrightarrow> length (handle_bo_map dev') = length (handle_bo_map dev)"
  by (erule vc4_bo_create_cases) auto

lemma bytes_unref [simp]:
  "rcl_bytes dev (exec\<lparr>unref_list := l\<rparr>) su = rcl_bytes dev exec su"
  "rcl_bytes dev exec (su\<lparr>rcl := cl\<rparr>) = rcl_bytes dev exec su"
proof -
  have "tile_bytes dev (exec\<lparr>unref_list := l\<rparr>) su = tile_bytes dev exec su"
    by (intro ext, cases exec) (simp only: tile_bytes_def vc4_exec_info.simps)
  then have "tile_at dev (exec\<lparr>unref_list := l\<rparr>) su = tile_at dev exec su"
    by (intro ext) (simp add: tile_at_def)
  then show "rcl_bytes dev (exec\<lparr>unref_list := l\<rparr>) su = rcl_bytes dev exec su"
    by (simp add: rcl_bytes_def rows_bytes_def row_bytes_def)
  show "rcl_bytes dev exec (su\<lparr>rcl := cl\<rparr>) = rcl_bytes dev exec su"
    by (simp add: rcl_bytes_def prologue_bytes_def)
qed

lemma rcl_bytes_table:
  assumes "handle_bo_map d1 = handle_bo_map d2"
  shows "rcl_bytes d1 exec su = rcl_bytes d2 exec su"
proof -
  have sb: "surf_base d1 = surf_base d2" by (intro ext) (simp only: surf_base_def assms)
  then have "tile_bytes d1 exec su = tile_bytes d2 exec su"
    by (intro ext) (simp only: tile_bytes_def)
  then have "tile_at d1 exec su = tile_at d2 exec su" by (intro ext) (simp only: tile_at_def)
  then show ?thesis
    by (simp only: rcl_bytes_def rows_bytes_def row_bytes_def prologue_bytes_def sb)
qed

text \<open>The two halves of the emission together.\<close>

lemma rcl_emit:
  assumes "setup_ok dev su" "tiles_ok (args exec)" "color_write su \<noteq> None \<or> zs_write su \<noteq> None"
    "rcl su = \<lparr>cl_buf = m, cl_next = 0, cl_size = sz\<rparr>" "unat (rcl_size (args exec) su) \<le> length m"
  obtains cl where
    "Option.bind (rcl_prologue dev (args exec) su)
       (\<lambda>cl. rcl_y_loop dev exec (min_y_tile (args exec)) (su\<lparr>rcl := cl\<rparr>)) = Some (su\<lparr>rcl := cl\<rparr>)"
    "cl_offset cl = rcl_size (args exec) su"
    "take (unat (rcl_size (args exec) su)) (cl_buf cl) = rcl_bytes dev exec su"
    "length (cl_buf cl) = length m"
proof -
  note len = rcl_bytes_length(1) [OF assms(3,2), of dev] rcl_bytes_length(2) [OF assms(3,2)]
  obtain cl where cl: "cl_emit (rcl_bytes dev exec su) (rcl su) = Some cl"
    using assms(4,5) len cl_emit_defined [of "rcl su" "rcl_bytes dev exec su"] by auto
  have y: "min_y_tile (args exec) \<le> max_y_tile (args exec) + 1"
    using assms(2) unat_inc [of "max_y_tile (args exec)" 255]
    by (simp add: tiles_ok_def word_le_nat_alt)
  have loop: "rcl_y_loop dev exec (min_y_tile (args exec)) (su\<lparr>rcl := c\<rparr>) = map_option (\<lambda>c. su\<lparr>rcl := c\<rparr>)
      (cl_emit (rows_bytes dev exec su (unat (min_y_tile (args exec)))) c)"
    if "cl_emit (prologue_bytes dev (args exec) su) (rcl su) = Some c" for c
  proof -
    have "cl_next c \<le> length (cl_buf c)" using that by (auto simp: cl_emit_def split: if_splits)
    then show ?thesis
      using rcl_y_loop_emit [of dev "su\<lparr>rcl := c\<rparr>" exec] assms(1,2) y by (simp add: tiles_ok_def)
  qed
  show thesis
  proof (rule that)
    show "Option.bind (rcl_prologue dev (args exec) su)
       (\<lambda>cl. rcl_y_loop dev exec (min_y_tile (args exec)) (su\<lparr>rcl := cl\<rparr>)) = Some (su\<lparr>rcl := cl\<rparr>)"
      using cl loop unfolding rcl_bytes_def cl_emit_append [symmetric]
      by (auto simp: rcl_prologue_emit [OF assms(1)] Option.bind_eq_Some_conv)
    show "cl_offset cl = rcl_size (args exec) su"
      using cl_emit_next [OF cl] assms(4) len by (simp add: cl_offset_def)
    show "take (unat (rcl_size (args exec) su)) (cl_buf cl) = rcl_bytes dev exec su"
      using cl_emit_take [OF cl] cl_emit_next [OF cl] assms(4) len by simp
    show "length (cl_buf cl) = length m" using cl_emit_length [OF cl] assms(4) by simp
  qed
qed

section \<open>The render list is correct\<close>

lemma vc4_create_rcl_bo_ok:
  assumes su: "setup_ok dev su" "color_write su \<noteq> None \<or> zs_write su \<noteq> None"
    and tiles: "tiles_ok (args exec)" and tab: "length (handle_bo_map dev) = VC4_DEV_BO_NENTRY"
  shows "returns (vc4_create_rcl_bo fw dev exec su) (\<lambda>(r, exec', dev').
    (r = Err E_NOMEM \<and> exec' = exec \<and>
       fst (vc4_bo_create fw dev (rcl_size (args exec) su) VC4_BO_TYPE_RCL) = None \<or> r = Ok \<and> (\<exists>i. i < VC4_DEV_BO_NENTRY \<and>
       exec' = exec\<lparr>unref_list := unref_list exec @ [i], ct1ca := bo_paddr (handle_bo_map dev' ! i),
         ct1ea := bo_paddr (handle_bo_map dev' ! i) + rcl_size (args exec) su\<rparr> \<and>
       take (unat (rcl_size (args exec) su)) (bo_mem dev' i) = rcl_bytes dev' exec su)) \<and>
    length (handle_bo_map dev') = VC4_DEV_BO_NENTRY)"
proof -
  let ?sz = "rcl_size (args exec) su"
  obtain p dev1 where c: "vc4_bo_create fw dev ?sz VC4_BO_TYPE_RCL = (p, dev1)" by fastforce
  have tab1: "length (handle_bo_map dev1) = VC4_DEV_BO_NENTRY"
    using vc4_bo_create_length [OF c] tab by simp
  from c show ?thesis
  proof (cases rule: vc4_bo_create_cases)
    case fb
    then show ?thesis by simp
  next
    case (fail f)
    then show ?thesis using c tab1 by (simp add: vc4_create_rcl_bo_def)
  next
    case (new handle bus f)
    let ?i = "unat handle" and ?exec = "exec\<lparr>unref_list := unref_list exec @ [unat handle]\<rparr>"
    let ?su = "su\<lparr>rcl := vc4_init_cl\<lparr>cl_buf := bo_mem dev1 ?i, cl_next := 0, cl_size := ?sz\<rparr>\<rparr>"
    have sz_eq: "rcl_size (args exec) ?su = ?sz"
      by (simp add: rcl_size_def rcl_loop_body_size_def)
    have "unat ?sz \<le> length (bo_mem dev1 ?i)"
      using new(7) ROUNDUP_ge [of PGSIZE ?sz] rcl_bytes_length(2) [OF su(2) tiles] by simp
    moreover have "setup_ok dev1 ?su"
      using su(1) tab tab1 by (simp add: setup_ok_def ptr_ok_def split: option.splits)
    ultimately obtain cl where cl: "Option.bind (rcl_prologue dev1 (args exec) ?su)
        (\<lambda>cl. rcl_y_loop dev1 ?exec (min_y_tile (args exec)) (?su\<lparr>rcl := cl\<rparr>)) = Some (?su\<lparr>rcl := cl\<rparr>)"
      "cl_offset cl = ?sz" "take (unat ?sz) (cl_buf cl) = rcl_bytes dev1 exec su"
      using rcl_emit [of dev1 ?su ?exec "bo_mem dev1 ?i" ?sz] su(2) tiles sz_eq
      by (auto simp: vc4_init_cl_def)
    have b: "deref_bo dev1 ?i = Some (handle_bo_map dev1 ! ?i)"
      using new(4) tab1 by (simp add: deref_bo_def)
    have "vc4_create_rcl_bo fw dev exec su = Some (Ok,
      ?exec\<lparr>ct1ca := bo_paddr (handle_bo_map dev1 ! ?i), ct1ea := bo_paddr (handle_bo_map dev1 ! ?i) + ?sz\<rparr>,
      dev1\<lparr>bo_mem := (bo_mem dev1)(?i := cl_buf cl)\<rparr>)"
      using c new(6) cl(1,2) b
      by (auto simp: vc4_create_rcl_bo_def Let_def Option.bind_eq_Some_conv)
    moreover have "rcl_bytes (dev1\<lparr>bo_mem := m\<rparr>) exec su = rcl_bytes dev1 exec su" for m
      by (rule rcl_bytes_table) simp
    ultimately show ?thesis using cl(3) tab1 new(4) by (auto intro!: exI [of _ ?i])
  qed
qed

text \<open>The buffer a surface of the job names, and the set-up made of the four surfaces.\<close>

definition surf_ptr :: "vc4_exec_info \<Rightarrow> drm_vc4_submit_rcl_surface \<Rightarrow> nat option" where
  "surf_ptr exec s = (if hindex s = - 1 then None else Some (bo exec ! unat (hindex s)))"

definition job_setup :: "vc4_exec_info \<Rightarrow> vc4_rcl_setup" where
  "job_setup exec =
     \<lparr>color_read = surf_ptr exec (args_color_read (args exec)),
      color_write = surf_ptr exec (args_color_write (args exec)),
      zs_read = surf_ptr exec (args_zs_read (args exec)),
      zs_write = surf_ptr exec (args_zs_write (args exec)),
      rcl = vc4_init_cl, next_offset = 0\<rparr>"

definition surf_post :: "'f vc4_dev \<Rightarrow> vc4_exec_info \<Rightarrow> drm_vc4_submit_rcl_surface \<Rightarrow> rc \<times> nat option \<Rightarrow> bool" where
  "surf_post dev exec s = (\<lambda>(r, p).
     (r = Ok \<or> r = Err E_INVAL) \<and> (r = Ok \<longrightarrow> p = surf_ptr exec s \<and> ptr_ok dev p))"

lemma vc4_use_bo_returns [returnsI]:
  assumes "job_ok dev exec" "Q None"
    "\<And>k. k < length (handle_bo_map dev) \<Longrightarrow> k = bo exec ! unat i \<Longrightarrow> Q (Some k)"
  shows "returns (vc4_use_bo exec i) Q"
  using vc4_use_bo_defined [OF assms(1), of i] assms(2,3) by auto

lemma vc4_rcl_surface_setup_ok:
  assumes "job_ok dev exec"
  shows "returns (vc4_rcl_surface_setup exec s) (surf_post dev exec s)"
  unfolding vc4_rcl_surface_setup_def Let_def
  by (auto simp: surf_post_def surf_ptr_def ptr_ok_def intro!: vc4_use_bo_returns [OF assms])

lemma vc4_rcl_render_config_surface_setup_ok:
  assumes "job_ok dev exec"
  shows "returns (vc4_rcl_render_config_surface_setup exec s) (surf_post dev exec s)"
  unfolding vc4_rcl_render_config_surface_setup_def Let_def
  by (auto simp: surf_post_def surf_ptr_def ptr_ok_def intro!: vc4_use_bo_returns [OF assms])

text \<open>What building the render list does to the job and the device.\<close>

definition rcl_post ::
    "vc4_exec_info \<Rightarrow> rc \<times> vc4_exec_info \<times> 'f vc4_dev \<Rightarrow> bool" where
  "rcl_post exec = (\<lambda>(r, exec', dev').
     (r \<noteq> Ok \<and> exec' = exec \<or> r = Ok \<and> (\<exists>i. i < VC4_DEV_BO_NENTRY \<and>
        exec' = exec\<lparr>unref_list := unref_list exec @ [i],
          ct1ca := bo_paddr (handle_bo_map dev' ! i),
          ct1ea := bo_paddr (handle_bo_map dev' ! i) +
            of_nat (length (rcl_bytes dev' exec (job_setup exec)))\<rparr> \<and>
        take (length (rcl_bytes dev' exec (job_setup exec))) (bo_mem dev' i) =
          rcl_bytes dev' exec (job_setup exec))) \<and>
     length (handle_bo_map dev') = VC4_DEV_BO_NENTRY)"

lemma vc4_get_rcl_ok:
  assumes ok: "job_ok dev exec" and tab: "length (handle_bo_map dev) = VC4_DEV_BO_NENTRY"
    and max: "max_x_tile (args exec) < 255" "max_y_tile (args exec) < 255"
  shows "returns (vc4_get_rcl fw dev exec) (rcl_post exec)"
proof (cases "max_x_tile (args exec) < min_x_tile (args exec) \<or>
    max_y_tile (args exec) < min_y_tile (args exec)")
  case True
  then show ?thesis using tab by (simp add: vc4_get_rcl_def rcl_post_def)
next
  case False
  then have tiles: "tiles_ok (args exec)" using max by (simp add: tiles_ok_def not_less)
  have err: "rcl_post exec (r, exec, dev)" if "r \<noteq> Ok" for r
    using that tab by (simp add: rcl_post_def)
  have create: "returns (vc4_create_rcl_bo fw dev exec (job_setup exec)) (rcl_post exec)"
    if "setup_ok dev (job_setup exec)"
      "color_write (job_setup exec) \<noteq> None \<or> zs_write (job_setup exec) \<noteq> None"
    using vc4_create_rcl_bo_ok [OF that tiles tab, of fw]
    by (rule returns_mono) (auto simp: rcl_post_def rcl_bytes_length(1) [OF that(2) tiles])
  note surf = vc4_rcl_surface_setup_ok [OF ok, THEN returns_mono]
    vc4_rcl_render_config_surface_setup_ok [OF ok, THEN returns_mono]
  show ?thesis
    unfolding vc4_get_rcl_def Let_def
    using False err create
    by (auto intro!: surf simp: surf_post_def job_setup_def setup_ok_def)
qed

lemma rcl_x_loop_endless:
  assumes "max_x_tile (args exec) = 255"
  shows "rcl_x_loop dev exec y x su = None"
proof -
  have "max_x_tile (args exec) = 255 \<longrightarrow> False" if "rcl_x_loop dev exec y x su = Some su'" for su'
    by (rule rcl_x_loop.raw_induct [of "\<lambda>dev exec y x su r. max_x_tile (args exec) = 255 \<longrightarrow> False"
          "((((dev, exec), y), x), su)" su', simplified prod.case, OF _ that])
      (auto simp: Let_def Option.bind_eq_Some_conv split: if_splits)
  then show ?thesis using assms by (cases "rcl_x_loop dev exec y x su") auto
qed

lemma rcl_y_loop_endless:
  assumes "max_y_tile (args exec) = 255"
  shows "rcl_y_loop dev exec y su = None"
proof -
  have "max_y_tile (args exec) = 255 \<longrightarrow> False" if "rcl_y_loop dev exec y su = Some su'" for su'
    by (rule rcl_y_loop.raw_induct [of "\<lambda>dev exec y su r. max_y_tile (args exec) = 255 \<longrightarrow> False",
          OF _ that])
      (auto simp: Option.bind_eq_Some_conv split: if_splits)
  then show ?thesis using assms by (cases "rcl_y_loop dev exec y su") auto
qed

text \<open>C3. For every job whose tile numbers stay below 255, building the render list returns: no
  write leaves the list's buffer and the closing assertion holds. On success the memory from
  \<^verbatim>\<open>ct1ca\<close> up to \<^verbatim>\<open>ct1ea\<close> is exactly the list written down in \<open>rcl_bytes\<close> (prologue, then every
  tile of the requested rectangle row by row, loads before stores, one wait for the binner in
  front of the first tile, the end-of-frame mark on the last), and the buffer is on the list of
  those released with the job.\<close>

theorem render_list_exact:
  assumes "job_ok dev exec" "length (handle_bo_map dev) = VC4_DEV_BO_NENTRY"
    and "max_x_tile (args exec) < 255" "max_y_tile (args exec) < 255"
  shows "returns (vc4_get_rcl fw dev exec) (\<lambda>(r, exec', dev').
    r = Ok \<longrightarrow> (\<exists>i. unref_list exec' = unref_list exec @ [i] \<and>
      ct1ca exec' = bo_paddr (handle_bo_map dev' ! i) \<and>
      ct1ea exec' = ct1ca exec' + of_nat (length (rcl_bytes dev' exec (job_setup exec))) \<and>
      take (length (rcl_bytes dev' exec (job_setup exec))) (bo_mem dev' i) =
        rcl_bytes dev' exec (job_setup exec)))"
  using vc4_get_rcl_ok [OF assms, of fw] by (rule returns_mono) (auto simp: rcl_post_def)

text \<open>A job that clears and stores one tile of the first buffer.\<close>

definition render_exec :: vc4_exec_info where
  "render_exec = sample_exec1\<lparr>args := sample_args\<lparr>
     args_color_read := sample_surface\<lparr>hindex := - 1\<rparr>,
     args_color_write := sample_surface\<lparr>bits := 4\<rparr>,
     args_zs_read := sample_surface\<lparr>hindex := - 1\<rparr>,
     args_zs_write := sample_surface\<lparr>hindex := - 1\<rparr>\<rparr>,
     bin_tiles_x := 1, bin_tiles_y := 1\<rparr>"

declare rcl_x_loop.simps [code] rcl_y_loop.simps [code]

lemma render_exec_ok: "job_ok sample_dev render_exec"
  by code_simp

lemma render_size: "rcl_size (args render_exec) (job_setup render_exec) = 21"
  by code_simp

lemma sample_create:
  "fst (vc4_bo_create ref_fw sample_dev 21 VC4_BO_TYPE_RCL) = Some 3"
  "fst (vc4_bo_create ref_fw sample_dev 12 VC4_BO_TYPE_RCL) = Some 3"
  by (simp_all add: vc4_bo_create_def sample_dev_def ref_fw_def mbox_mem_alloc_def
      mbox_mem_lock_def mbox_property_def mbox_property_list_def Let_def in_place_def
      VC4_DEV_BO_NENTRY_value)

lemma render_surfaces:
  "vc4_get_rcl ref_fw sample_dev render_exec =
     vc4_create_rcl_bo ref_fw sample_dev render_exec (job_setup render_exec)"
proof -
  have "vc4_rcl_surface_setup render_exec (args_color_read (args render_exec)) = Some (Ok, None)"
    "vc4_rcl_surface_setup render_exec (args_zs_read (args render_exec)) = Some (Ok, None)"
    "vc4_rcl_surface_setup render_exec (args_zs_write (args render_exec)) = Some (Ok, None)"
    "vc4_rcl_render_config_surface_setup render_exec (args_color_write (args render_exec)) =
       Some (Ok, Some 1)"
    "job_setup render_exec = \<lparr>color_read = None, color_write = Some 1, zs_read = None,
       zs_write = None, rcl = vc4_init_cl, next_offset = 0\<rparr>"
    "\<not> max_x_tile (args render_exec) < min_x_tile (args render_exec)"
    "\<not> max_y_tile (args render_exec) < min_y_tile (args render_exec)"
    "\<not> bin_tiles_x render_exec < max_x_tile (args render_exec)"
    "\<not> bin_tiles_y render_exec < max_y_tile (args render_exec)"
    by code_simp+
  then show ?thesis by (simp add: vc4_get_rcl_def Let_def)
qed

theorem render_list_exact_witness:
  "returns (vc4_get_rcl ref_fw sample_dev render_exec) (\<lambda>(r, exec', dev').
    r = Ok \<and> (\<exists>i. unref_list exec' = [i] \<and>
      take (length (rcl_bytes dev' render_exec (job_setup render_exec))) (bo_mem dev' i) =
        rcl_bytes dev' render_exec (job_setup render_exec)))"
proof -
  have max: "max_x_tile (args render_exec) < 255" "max_y_tile (args render_exec) < 255"
    "setup_ok sample_dev (job_setup render_exec)" "tiles_ok (args render_exec)"
    "color_write (job_setup render_exec) \<noteq> None \<or> zs_write (job_setup render_exec) \<noteq> None"
    "unref_list render_exec = []"
    by code_simp+
  have tab: "length (handle_bo_map sample_dev) = VC4_DEV_BO_NENTRY"
    by (simp add: sample_dev_def VC4_DEV_BO_NENTRY_value)
  have "fst x = Ok" if "vc4_get_rcl ref_fw sample_dev render_exec = Some x" for x
    using vc4_create_rcl_bo_ok [OF max(3,5,4) tab, of ref_fw] that sample_create(1)
    by (auto simp: render_surfaces render_size)
  then show ?thesis
    using render_list_exact [OF render_exec_ok tab max(1,2), of ref_fw] max(6)
    by (fastforce elim!: returns_mono)
qed



end
