(* ===== verification/Slab.thy ===== *)
theory Slab
  imports Prelude
begin

text \<open>
  The kernel's object allocator (\<^verbatim>\<open>mm/slab.c\<close>): requests are served from thirteen caches, one for
  each power of two from 32 bytes to 128 KB.

  This theory holds the choice of the cache for a request. Whether memory is left is not decided
  here: callers pass it as a parameter.
\<close>

section \<open>Size classes\<close>

abbreviation (input) MIN_SIZE_ORDER :: nat where "MIN_SIZE_ORDER \<equiv> 5"
abbreviation (input) MAX_SIZE_ORDER :: nat where "MAX_SIZE_ORDER \<equiv> 17"

text \<open>The loop of \<^verbatim>\<open>getorder\<close>; \<open>None\<close> is the panic behind it.\<close>

function getorder_loop :: "u32 \<Rightarrow> nat \<Rightarrow> u32 \<Rightarrow> nat option" where
  "getorder_loop n order order_size =
     (if order \<le> MAX_SIZE_ORDER then
        if n \<le> order_size then Some order
        else getorder_loop n (order + 1) (push_bit 1 order_size)
      else None)"
  by auto
termination by (relation "measure (\<lambda>(n, order, order_size). 18 - order)") auto

declare getorder_loop.simps [simp del]

definition getorder :: "u32 \<Rightarrow> nat option" where
  "getorder n = getorder_loop n MIN_SIZE_ORDER (push_bit MIN_SIZE_ORDER 1)"

text \<open>
  \<^verbatim>\<open>kmalloc\<close>, with the parameter \<open>avail\<close> telling whether the cache can serve the request. The
  result is the number of bytes of the object handed out: the object size of the cache, a power
  of two and so unchanged by the rounding in \<^verbatim>\<open>init_kmem_cache\<close>. The outer \<open>None\<close> is a panic.
\<close>

definition kmalloc :: "bool \<Rightarrow> u32 \<Rightarrow> nat option option" where
  "kmalloc avail sz = do {
     cassert (0 < sz);
     order \<leftarrow> getorder sz;
     Some (if MAX_SIZE_ORDER < order then None else if avail then Some (2 ^ order) else None) }"

section \<open>What a caller gets\<close>

lemma double_size:
  fixes sz :: u32
  assumes "unat sz = 2 ^ order" "order \<le> 17"
  shows "unat (push_bit 1 sz) = 2 ^ (order + 1)"
proof -
  have "(2 :: nat) ^ order \<le> 2 ^ 17" using assms(2) by (intro power_increasing) auto
  then have "unat (sz + sz) = unat sz + unat sz" using assms(1) by (intro unat_add_small) simp
  moreover have "push_bit 1 sz = sz + sz" by (simp add: push_bit_eq_mult)
  ultimately show ?thesis using assms(1) by (simp only: power_add) simp
qed

lemma getorder_loop_Some:
  assumes "getorder_loop n order sz = Some k" "unat sz = 2 ^ order" "order \<le> 18"
  shows "order \<le> k \<and> k \<le> 17 \<and> unat n \<le> 2 ^ k \<and> (k = order \<or> 2 ^ (k - 1) < unat n)"
  using assms
proof (induction n order sz rule: getorder_loop.induct)
  case (1 n order sz)
  show ?case
  proof (cases "order \<le> 17 \<and> \<not> n \<le> sz")
    case False
    then show ?thesis using "1.prems"
      by (auto simp: getorder_loop.simps [of n order] word_le_nat_alt split: if_splits)
  next
    case True
    then have *: "order + 1 \<le> k \<and> k \<le> 17 \<and> unat n \<le> 2 ^ k \<and> (k = order + 1 \<or> 2 ^ (k - 1) < unat n)"
      using "1.IH" "1.prems" double_size [of sz order] by (simp add: getorder_loop.simps [of n order])
    moreover have "2 ^ order < unat n" using True "1.prems"(2) by (simp add: word_le_nat_alt)
    ultimately show ?thesis by auto
  qed
qed

lemma getorder_loop_None:
  assumes "getorder_loop n order sz = None" "unat sz = 2 ^ order" "order \<le> 17"
  shows "2 ^ 17 < unat n"
  using assms
proof (induction n order sz rule: getorder_loop.induct)
  case (1 n order sz)
  then have n: "\<not> n \<le> sz" "getorder_loop n (order + 1) (push_bit 1 sz) = None"
    by (auto simp: getorder_loop.simps [of n order] split: if_splits)
  then have gt: "2 ^ order < unat n" using "1.prems"(2) by (simp add: word_le_nat_alt)
  show ?case
  proof (cases "order = 17")
    case False
    then show ?thesis
      using "1.IH" n "1.prems"(2,3) double_size [of sz order] by simp
  qed (use gt in simp)
qed

lemma getorder_Some:
  assumes "getorder n = Some k"
  shows "5 \<le> k" "k \<le> 17" "unat n \<le> 2 ^ k" "k = 5 \<or> 2 ^ (k - 1) < unat n"
  using getorder_loop_Some [OF assms [unfolded getorder_def]] by simp_all

lemma getorder_None: "getorder n = None \<longleftrightarrow> 2 ^ 17 < unat n"
proof
  show "getorder n = None \<Longrightarrow> 2 ^ 17 < unat n"
    using getorder_loop_None [of n 5 32] by (simp add: getorder_def)
  assume *: "2 ^ 17 < unat n"
  show "getorder n = None"
  proof (rule ccontr)
    assume "getorder n \<noteq> None"
    then obtain k where "getorder n = Some k" by auto
    from getorder_Some(2,3) [OF this] have "unat n \<le> 2 ^ 17"
      using power_increasing [of k 17 "2 :: nat"] by linarith
    then show False using * by simp
  qed
qed

lemma getorder_tight: "getorder sz = Some k \<Longrightarrow> 2 ^ k < max 33 (2 * unat sz)"
  using getorder_Some(1,4) [of sz k] by (cases k) auto

lemma kmalloc_returns [returnsI]:
  assumes "sz \<noteq> 0" "unat sz \<le> 2 ^ 17" "Q None" "\<And>n. unat sz \<le> n \<Longrightarrow> 32 \<le> n \<Longrightarrow> Q (Some n)"
  shows "returns (kmalloc avail sz) Q"
proof -
  obtain k where k: "getorder sz = Some k" using assms(2) getorder_None [of sz] by fastforce
  have "(2 :: nat) ^ 5 \<le> 2 ^ k" using getorder_Some(1) [OF k] by (intro power_increasing) auto
  then have "Q (Some (2 ^ k))" using assms(4) getorder_Some(3) [OF k] by simp
  then show ?thesis
    using assms(1,3) k getorder_Some(2) [OF k] by (auto simp: kmalloc_def cassert_def word_neq_0_conv)
qed



end
