(* ===== verification/Vc4_Gem.thy ===== *)
theory Vc4_Gem
  imports Vc4_Render Slab "HOL-Library.Multiset"
begin

text \<open>
  Job submission (\<^verbatim>\<open>vc4_gem.c\<close>) and the driver's ioctl entry point (\<^verbatim>\<open>vc4_drv.c\<close>, with
  \<^verbatim>\<open>vc4_mmap_bo_ioctl\<close> of \<^verbatim>\<open>vc4_bo.c\<close>).

  What surrounds the driver is passed in.
  \<^item> \<open>env\<close> is what one system call sees of the rest of the kernel: whether the \<open>k\<close>-th allocation
    finds memory, the contents of fresh memory, the calling process's memory, and the result of
    \<^verbatim>\<open>remap_pfn_range\<close>.
  \<^item> \<open>fw\<close> is the firmware and \<open>hw\<close> the GPU's register file. Every register write is also kept in
    a log, so that statements can be made about their order.
\<close>

section \<open>The registers\<close>

record 'h v3d =
  v3d_write :: "u32 \<Rightarrow> u32 \<Rightarrow> 'h \<Rightarrow> 'h"
  v3d_read :: "u32 \<Rightarrow> 'h \<Rightarrow> u32 \<times> 'h"

record 'h v3d_state =
  v3d_hw :: 'h
  v3d_log :: "(u32 \<times> u32) list"

abbreviation (input) V3D_L2CACTL :: u32 where "V3D_L2CACTL \<equiv> 0x20"
abbreviation (input) V3D_L2CACTL_L2CCLR :: u32 where "V3D_L2CACTL_L2CCLR \<equiv> 4"
abbreviation (input) V3D_SLCACTL :: u32 where "V3D_SLCACTL \<equiv> 0x24"
abbreviation (input) V3D_BFC :: u32 where "V3D_BFC \<equiv> 0x134"
abbreviation (input) V3D_RFC :: u32 where "V3D_RFC \<equiv> 0x138"

definition V3D_CTNCS :: "u32 \<Rightarrow> u32" where "V3D_CTNCS n = 0x100 + 4 * n"
definition V3D_CTNEA :: "u32 \<Rightarrow> u32" where "V3D_CTNEA n = 0x108 + 4 * n"
definition V3D_CTNCA :: "u32 \<Rightarrow> u32" where "V3D_CTNCA n = 0x110 + 4 * n"

definition V3D_WRITE :: "'h v3d \<Rightarrow> u32 \<Rightarrow> u32 \<Rightarrow> 'h v3d_state \<Rightarrow> 'h v3d_state" where
  "V3D_WRITE hw reg val st =
     \<lparr>v3d_hw = v3d_write hw reg val (v3d_hw st), v3d_log = v3d_log st @ [(reg, val)]\<rparr>"

text \<open>The busy-waiting loops: read a register while its value satisfies a condition.\<close>

partial_function (option) v3d_wait ::
    "'h v3d \<Rightarrow> u32 \<Rightarrow> (u32 \<Rightarrow> bool) \<Rightarrow> 'h v3d_state \<Rightarrow> 'h v3d_state option" where
  "v3d_wait hw reg c st =
     (let (v, h) = v3d_read hw reg (v3d_hw st); st = st\<lparr>v3d_hw := h\<rparr>
      in if c v then v3d_wait hw reg c st else Some st)"

definition submit_cl :: "'h v3d \<Rightarrow> u32 \<Rightarrow> u32 \<Rightarrow> u32 \<Rightarrow> 'h v3d_state \<Rightarrow> 'h v3d_state option" where
  "submit_cl hw thread start end_addr st = do {
     let st = V3D_WRITE hw (V3D_CTNCS thread) 0x20 st;
     st \<leftarrow> v3d_wait hw (V3D_CTNCS thread) (\<lambda>v. v AND 0x20 \<noteq> 0) st;
     let st = V3D_WRITE hw (V3D_CTNCA thread) start st;
     Some (V3D_WRITE hw (V3D_CTNEA thread) end_addr st) }"

definition vc4_flush_caches :: "'h v3d \<Rightarrow> 'h v3d_state \<Rightarrow> 'h v3d_state option" where
  "vc4_flush_caches hw st = do {
     let st = V3D_WRITE hw V3D_L2CACTL V3D_L2CACTL_L2CCLR st;
     t1 \<leftarrow> VC4_SET_FIELD 0xf (VC4_MASK 27 24) 24;
     t0 \<leftarrow> VC4_SET_FIELD 0xf (VC4_MASK 19 16) 16;
     uc \<leftarrow> VC4_SET_FIELD 0xf (VC4_MASK 11 8) 8;
     ic \<leftarrow> VC4_SET_FIELD 0xf (VC4_MASK 3 0) 0;
     Some (V3D_WRITE hw V3D_SLCACTL (t1 OR t0 OR uc OR ic) st) }"

definition vc4_submit_next_bin_job ::
    "'h v3d \<Rightarrow> vc4_exec_info \<Rightarrow> 'h v3d_state \<Rightarrow> 'h v3d_state option" where
  "vc4_submit_next_bin_job hw exec st = do {
     st \<leftarrow> vc4_flush_caches hw st;
     if ct0ca exec = ct0ea exec then Some st
     else do {
       let st = V3D_WRITE hw V3D_BFC 1 st;
       st \<leftarrow> submit_cl hw 0 (ct0ca exec) (ct0ea exec) st;
       v3d_wait hw V3D_BFC (\<lambda>v. v = 0) st } }"

definition vc4_submit_next_render_job ::
    "'h v3d \<Rightarrow> vc4_exec_info \<Rightarrow> 'h v3d_state \<Rightarrow> 'h v3d_state option" where
  "vc4_submit_next_render_job hw exec st = do {
     let st = V3D_WRITE hw V3D_RFC 1 st;
     st \<leftarrow> submit_cl hw 1 (ct1ca exec) (ct1ea exec) st;
     v3d_wait hw V3D_RFC (\<lambda>v. v = 0) st }"

definition vc4_queue_submit :: "'h v3d \<Rightarrow> vc4_exec_info \<Rightarrow> 'h v3d_state \<Rightarrow> 'h v3d_state option" where
  "vc4_queue_submit hw exec st = do {
     st \<leftarrow> vc4_submit_next_bin_job hw exec st;
     vc4_submit_next_render_job hw exec st }"

section \<open>The surrounding kernel\<close>

record kenv =
  env_avail :: "nat \<Rightarrow> bool"
  env_fresh :: "nat \<Rightarrow> u8"
  env_user :: "u32 \<Rightarrow> u8 option"
  env_remap :: "u32 \<Rightarrow> u32 \<Rightarrow> u32"

text \<open>\<^verbatim>\<open>copy_from_user\<close>: all bytes of the range, or a fault if one of them is not mapped.\<close>

definition copy_from_user :: "kenv \<Rightarrow> u32 \<Rightarrow> nat \<Rightarrow> u8 list option" where
  "copy_from_user env addr n =
     (let bs = map (\<lambda>k. env_user env (addr + of_nat k)) [0..<n]
      in if None \<in> set bs then None else Some (map the bs))"

fun words_of :: "u8 list \<Rightarrow> u32 list" where
  "words_of (a # b # c # d # bs) = bytes_u32 [a, b, c, d] # words_of bs"
| "words_of bs = []"

section \<open>Setting up a job\<close>

text \<open>\<open>cap\<close> is the size in bytes of the array \<^verbatim>\<open>exec->bo\<close>; \<open>bos\<close> is its part filled so far.\<close>

fun lookup_handles :: "'f vc4_dev \<Rightarrow> nat \<Rightarrow> u32 list \<Rightarrow> nat list \<Rightarrow> (rc \<times> nat list) option" where
  "lookup_handles dev cap [] bos = Some (Ok, bos)"
| "lookup_handles dev cap (h # hs) bos =
     (case vc4_lookup_bo dev h of
        None \<Rightarrow> Some (Err E_INVAL, bos)
      | Some i \<Rightarrow> if 4 * (length bos + 1) \<le> cap then lookup_handles dev cap hs (bos @ [i])
                  else None)"

definition vc4_cl_lookup_bos ::
    "kenv \<Rightarrow> 'f vc4_dev \<Rightarrow> vc4_exec_info \<Rightarrow> (rc \<times> vc4_exec_info) option" where
  "vc4_cl_lookup_bos env dev exec =
     (let ar = args exec; exec = exec\<lparr>bo_count := bo_handle_count ar\<rparr> in
      if bo_count exec = 0 then Some (Ok, exec)
      else do {
        let exec = exec\<lparr>exec_fb_bo := fb_bo dev\<rparr>;
        bo_mem \<leftarrow> kmalloc (env_avail env 1) (bo_count exec * 4);
        (case bo_mem of
           None \<Rightarrow> Some (Err E_NOMEM, exec)
         | Some bo_cap \<Rightarrow> do {
             handles \<leftarrow> kmalloc (env_avail env 2) (bo_count exec);
             (case handles of
                None \<Rightarrow> Some (Err E_NOMEM, exec)
              | Some handles_cap \<Rightarrow>
                  (case copy_from_user env (ucast (bo_handles ar)) (unat (bo_count exec * 4)) of
                     None \<Rightarrow> Some (Err E_FAULT, exec)
                   | Some bs \<Rightarrow> do {
                       cassert (length bs \<le> handles_cap);
                       (ret, bos) \<leftarrow> lookup_handles dev bo_cap (words_of bs) [];
                       Some (ret, exec\<lparr>bo := bos\<rparr>) })) }) })"

text \<open>The two copies into the temporary buffer; the inner \<open>None\<close> is a fault.\<close>

definition bcl_copy_in :: "kenv \<Rightarrow> drm_vc4_submit_cl \<Rightarrow> nat \<Rightarrow> nat \<Rightarrow> u8 list option option" where
  "bcl_copy_in env ar exec_size shader_rec_offset =
     (let u = map (env_fresh env) [0..<exec_size] in
      case (if bin_cl_size ar \<noteq> 0
            then copy_from_user env (ucast (bin_cl ar)) (unat (bin_cl_size ar)) else Some []) of
        None \<Rightarrow> Some None
      | Some bin \<Rightarrow> do {
          u \<leftarrow> store_bytes u 0 bin;
          (case (if args_shader_rec_size ar \<noteq> 0
                 then copy_from_user env (ucast (shader_rec ar)) (unat (args_shader_rec_size ar))
                 else Some []) of
             None \<Rightarrow> Some None
           | Some recs \<Rightarrow> do {
               u \<leftarrow> store_bytes u shader_rec_offset recs;
               Some (Some u) }) })"

text \<open>The job's own buffer and the validation into it.\<close>

definition bcl_validate ::
    "'f firmware \<Rightarrow> 'f vc4_dev \<Rightarrow> vc4_exec_info \<Rightarrow> u8 list \<Rightarrow> u32 \<Rightarrow> u32
      \<Rightarrow> (rc \<times> vc4_exec_info \<times> 'f vc4_dev) option" where
  "bcl_validate fw dev exec u exec_size shader_rec_offset =
     (let (bo, dev) = vc4_bo_create fw dev exec_size VC4_BO_TYPE_BCL in
      case bo of
        None \<Rightarrow> Some (Err E_NOMEM, exec, dev)
      | Some i \<Rightarrow> do {
          b \<leftarrow> deref_bo dev i;
          let exec = exec\<lparr>exec_bo := Some i, unref_list := unref_list exec @ [i],
                          ct0ca := bo_paddr b + 0,
                          shader_rec_v := unat shader_rec_offset,
                          shader_rec_p := bo_paddr b + shader_rec_offset,
                          shader_rec_size := args_shader_rec_size (args exec)\<rparr>;
          (ret, exec, v) \<leftarrow> vc4_validate_bin_cl dev (bo_mem dev i) u exec;
          if ret \<noteq> Ok then Some (ret, exec, dev\<lparr>bo_mem := (bo_mem dev)(i := v)\<rparr>)
          else do {
            (ret, exec, v) \<leftarrow> vc4_validate_shader_recs dev u exec v;
            Some (ret, exec, dev\<lparr>bo_mem := (bo_mem dev)(i := v)\<rparr>) } })"

definition vc4_get_bcl ::
    "kenv \<Rightarrow> 'f firmware \<Rightarrow> 'f vc4_dev \<Rightarrow> vc4_exec_info
      \<Rightarrow> (rc \<times> vc4_exec_info \<times> 'f vc4_dev) option" where
  "vc4_get_bcl env fw dev exec =
     (let ar = args exec;
          bin_offset = 0;
          shader_rec_offset = ROUNDUP (bin_offset + bin_cl_size ar) 16;
          uniforms_offset = shader_rec_offset + args_shader_rec_size ar;
          exec_size = uniforms_offset + uniforms_size ar;
          temp_size = exec_size + 8 * shader_rec_count ar
      in
      if shader_rec_offset < bin_cl_size ar \<or> uniforms_offset < shader_rec_offset \<or>
         exec_size < uniforms_offset \<or> (- 1) div 8 \<le> shader_rec_count ar \<or> temp_size < exec_size
      then Some (Err E_INVAL, exec, dev)
      else do {
        temp \<leftarrow> kmalloc (env_avail env 3) temp_size;
        if temp = None then Some (Err E_NOMEM, exec, dev)
        else do {
          let exec = exec\<lparr>shader_rec_u := unat shader_rec_offset,
                          shader_state := replicate (unat (shader_rec_count ar)) None,
                          shader_state_size := shader_rec_count ar\<rparr>;
          u \<leftarrow> bcl_copy_in env ar (unat exec_size) (unat shader_rec_offset);
          (case u of
             None \<Rightarrow> Some (Err E_FAULT, exec, dev)
           | Some u \<Rightarrow> bcl_validate fw dev exec u exec_size shader_rec_offset) } })"

text \<open>Releasing a job destroys the buffers on its list, from the front.\<close>

fun vc4_complete_exec :: "'f firmware \<Rightarrow> 'f vc4_dev \<Rightarrow> nat list \<Rightarrow> 'f vc4_dev option" where
  "vc4_complete_exec fw dev [] = Some dev"
| "vc4_complete_exec fw dev (i # is) =
     (if i < length (handle_bo_map dev) then vc4_complete_exec fw (vc4_bo_destroy fw dev i) is
      else None)"

text \<open>The state of a job after \<^verbatim>\<open>memset\<close>. On the 32-bit build \<^verbatim>\<open>sizeof(struct vc4_exec_info)\<close> is 92.\<close>

definition exec_init :: "drm_vc4_submit_cl \<Rightarrow> vc4_exec_info" where
  "exec_init ar =
     \<lparr>args = ar, bo = [], exec_fb_bo = None, bo_count = 0, unref_list = [], bo_index = [0, 0],
      exec_bo = None, shader_state = [], shader_state_size = 0, shader_state_count = 0,
      bin_tiles_x = 0, bin_tiles_y = 0, tile_alloc_offset = 0, ct0ca = 0, ct0ea = 0, ct1ca = 0,
      ct1ea = 0, shader_rec_u = 0, shader_rec_v = 0, shader_rec_p = 0, shader_rec_size = 0\<rparr>"

text \<open>The steps between the allocation of the job and the label \<^verbatim>\<open>fail\<close>.\<close>

definition submit_cl_steps ::
    "kenv \<Rightarrow> 'f firmware \<Rightarrow> 'h v3d \<Rightarrow> 'f vc4_dev \<Rightarrow> 'h v3d_state \<Rightarrow> vc4_exec_info
      \<Rightarrow> (rc \<times> vc4_exec_info \<times> 'f vc4_dev \<times> 'h v3d_state) option" where
  "submit_cl_steps env fw hw dev st exec = do {
     (ret, exec) \<leftarrow> vc4_cl_lookup_bos env dev exec;
     if ret \<noteq> Ok then Some (ret, exec, dev, st)
     else do {
       (ret, exec, dev) \<leftarrow>
         (if bin_cl_size (args exec) \<noteq> 0 then vc4_get_bcl env fw dev exec
          else Some (Ok, exec\<lparr>ct0ca := 0, ct0ea := 0\<rparr>, dev));
       if ret \<noteq> Ok then Some (ret, exec, dev, st)
       else do {
         (ret, exec, dev) \<leftarrow> vc4_get_rcl fw dev exec;
         if ret \<noteq> Ok then Some (ret, exec, dev, st)
         else do {
           st \<leftarrow> vc4_queue_submit hw exec st;
           Some (ret, exec, dev, st) } } } }"

definition vc4_submit_cl_ioctl ::
    "kenv \<Rightarrow> 'f firmware \<Rightarrow> 'h v3d \<Rightarrow> 'f vc4_dev \<Rightarrow> 'h v3d_state \<Rightarrow> drm_vc4_submit_cl
      \<Rightarrow> (rc \<times> 'f vc4_dev \<times> 'h v3d_state) option" where
  "vc4_submit_cl_ioctl env fw hw dev st ar = do {
     p \<leftarrow> kmalloc (env_avail env 0) 92;
     if p = None then Some (Err E_NOMEM, dev, st)
     else do {
       (ret, exec, dev, st) \<leftarrow> submit_cl_steps env fw hw dev st (exec_init ar);
       dev \<leftarrow> vc4_complete_exec fw dev (unref_list exec);
       Some (ret, dev, st) } }"

section \<open>The other ioctls and the dispatcher\<close>

text \<open>\<open>env_remap\<close> is \<^verbatim>\<open>remap_pfn_range\<close> with a start address of 0: from page number and length to the
  address chosen, or 0.\<close>

definition vc4_mmap :: "kenv \<Rightarrow> u32 \<Rightarrow> u32 \<Rightarrow> u32 \<Rightarrow> rc \<times> u32" where
  "vc4_mmap env vm_start vm_end paddr =
     (let start = paddr AND NOT (PGSIZE - 1);
          r = env_remap env (drop_bit 12 start) (vm_end - vm_start)
      in if r = 0 then (Err E_NOMEM, vm_start) else (Ok, r))"

text \<open>On the 32-bit build \<^verbatim>\<open>sizeof(struct vma_struct)\<close> is 48.\<close>

definition vc4_mmap_bo_ioctl ::
    "kenv \<Rightarrow> 'f vc4_dev \<Rightarrow> drm_vc4_mmap_bo \<Rightarrow> (rc \<times> drm_vc4_mmap_bo) option" where
  "vc4_mmap_bo_ioctl env dev ar =
     (case vc4_lookup_bo dev (mmap_handle ar) of
        None \<Rightarrow> Some (Err E_INVAL, ar)
      | Some i \<Rightarrow> do {
          b \<leftarrow> deref_bo dev i;
          p \<leftarrow> kmalloc (env_avail env 0) 48;
          if p = None then Some (Err E_NOMEM, ar)
          else
            let len = ROUNDUP (bo_size b) PGSIZE;
                (ret, vm_start) = vc4_mmap env 0 (0 + len) (bo_paddr b)
            in Some (ret, ar\<lparr>mmap_offset := vm_start\<rparr>) })"

text \<open>The request number selects the type of the data; numbers without a handler are the last
  constructor.\<close>

datatype vc4_request =
    DRM_IOCTL_VC4_SUBMIT_CL drm_vc4_submit_cl
  | DRM_IOCTL_VC4_CREATE_BO drm_vc4_create_bo
  | DRM_IOCTL_VC4_MMAP_BO drm_vc4_mmap_bo
  | DRM_IOCTL_VC4_FREE_BO drm_vc4_free_bo
  | DRM_IOCTL_VC4_OTHER

definition vc4_ioctl ::
    "kenv \<Rightarrow> 'f firmware \<Rightarrow> 'h v3d \<Rightarrow> 'f vc4_dev option \<Rightarrow> 'h v3d_state \<Rightarrow> vc4_request
      \<Rightarrow> (rc \<times> vc4_request \<times> 'f vc4_dev option \<times> 'h v3d_state) option" where
  "vc4_ioctl env fw hw vc4 st req =
     (case vc4 of
        None \<Rightarrow> Some (Err E_NODEV, req, vc4, st)
      | Some dev \<Rightarrow>
          (case req of
             DRM_IOCTL_VC4_SUBMIT_CL ar \<Rightarrow> do {
               (ret, dev, st) \<leftarrow> vc4_submit_cl_ioctl env fw hw dev st ar;
               Some (ret, req, Some dev, st) }
           | DRM_IOCTL_VC4_CREATE_BO ar \<Rightarrow> do {
               (ret, ar, dev) \<leftarrow> vc4_create_bo_ioctl fw dev ar;
               Some (ret, DRM_IOCTL_VC4_CREATE_BO ar, Some dev, st) }
           | DRM_IOCTL_VC4_MMAP_BO ar \<Rightarrow> do {
               (ret, ar) \<leftarrow> vc4_mmap_bo_ioctl env dev ar;
               Some (ret, DRM_IOCTL_VC4_MMAP_BO ar, Some dev, st) }
           | DRM_IOCTL_VC4_FREE_BO ar \<Rightarrow>
               (let (ret, dev) = vc4_free_bo_ioctl fw dev ar in Some (ret, req, Some dev, st))
           | DRM_IOCTL_VC4_OTHER \<Rightarrow> Some (Err E_INVAL, req, vc4, st)))"

section \<open>Buffers a job holds\<close>

text \<open>
  What the driver relies on of the firmware's memory service: \<open>live f\<close> is the set of handles
  handed out and not yet released in the firmware state \<open>f\<close>. An allocation returns 0 or a handle
  that was not live; locking and unlocking change nothing; releasing ends a handle's life.
\<close>

definition fw_ok :: "'f firmware \<Rightarrow> ('f \<Rightarrow> u32 set) \<Rightarrow> bool" where
  "fw_ok fw live \<longleftrightarrow>
     (\<forall>f sz al fl h f'. mbox_mem_alloc fw f sz al fl = (h, f') \<longrightarrow>
        h = 0 \<and> live f' = live f \<or> h \<noteq> 0 \<and> h \<notin> live f \<and> live f' = insert h (live f)) \<and>
     (\<forall>f h. live (snd (mbox_mem_lock fw f h)) = live f) \<and>
     (\<forall>f h. live (snd (mbox_mem_unlock fw f h)) = live f) \<and>
     (\<forall>f h. live (snd (mbox_mem_free fw f h)) = live f - {h})"

definition dev_live :: "('f \<Rightarrow> u32 set) \<Rightarrow> 'f vc4_dev \<Rightarrow> bool" where
  "dev_live live dev \<longleftrightarrow>
     length (handle_bo_map dev) = VC4_DEV_BO_NENTRY \<and>
     (\<forall>k<VC4_DEV_BO_NENTRY. handle_bo_map dev ! k \<noteq> bo_zero \<longrightarrow>
        of_nat k \<in> live (fw_state dev))"

definition bo_iomap :: "'f vc4_dev \<Rightarrow> nat \<Rightarrow> u32 \<times> u32" where
  "bo_iomap dev i = (bo_vaddr (handle_bo_map dev ! i), bo_size (handle_bo_map dev ! i))"

text \<open>\<open>dev'\<close> is \<open>dev\<close> with the buffers \<open>is\<close> created in addition, and nothing else.\<close>

definition extends :: "('f \<Rightarrow> u32 set) \<Rightarrow> 'f vc4_dev \<Rightarrow> nat list \<Rightarrow> 'f vc4_dev \<Rightarrow> bool" where
  "extends live dev is dev' \<longleftrightarrow>
     dev_live live dev \<and> dev_live live dev' \<and> distinct is \<and>
     (\<forall>i\<in>set is. i < VC4_DEV_BO_NENTRY \<and> handle_bo_map dev ! i = bo_zero \<and>
        of_nat i \<notin> live (fw_state dev) \<and> unat (bo_handle (handle_bo_map dev' ! i)) = i \<and>
        bo_type (handle_bo_map dev' ! i) \<noteq> VC4_BO_TYPE_FB) \<and>
     (\<forall>k<VC4_DEV_BO_NENTRY. k \<notin> set is \<longrightarrow> handle_bo_map dev' ! k = handle_bo_map dev ! k) \<and>
     (\<forall>k<VC4_DEV_BO_NENTRY. handle_bo_map dev ! k \<noteq> bo_zero \<longrightarrow> bo_mem dev' k = bo_mem dev k) \<and>
     bin_bo dev' = bin_bo dev \<and> bin_alloc_size dev' = bin_alloc_size dev \<and> fb_bo dev' = fb_bo dev \<and>
     live (fw_state dev') = live (fw_state dev) \<union> of_nat ` set is \<and>
     mset (iomaps dev') = mset (iomaps dev) + mset (map (bo_iomap dev') is)"

lemma extends_refl: "dev_live live dev \<Longrightarrow> extends live dev [] dev"
  by (simp add: extends_def)

lemma fw_okD:
  assumes "fw_ok fw live"
  shows "mbox_mem_alloc fw f sz al fl = (h, f') \<Longrightarrow>
      h = 0 \<and> live f' = live f \<or> h \<noteq> 0 \<and> h \<notin> live f \<and> live f' = insert h (live f)"
    and "live (snd (mbox_mem_lock fw f h)) = live f"
    and "live (snd (mbox_mem_unlock fw f h)) = live f"
    and "live (snd (mbox_mem_free fw f h)) = live f - {h}"
proof -
  note * = assms [unfolded fw_ok_def]
  show "mbox_mem_alloc fw f sz al fl = (h, f') \<Longrightarrow>
      h = 0 \<and> live f' = live f \<or> h \<noteq> 0 \<and> h \<notin> live f \<and> live f' = insert h (live f)"
    by (rule * [THEN conjunct1, rule_format])
qed (use assms in \<open>simp_all add: fw_ok_def\<close>)

text \<open>Creating a buffer under the firmware's contract.\<close>

lemma vc4_bo_create_live:
  assumes fw: "fw_ok fw live" and "vc4_bo_create fw dev sz ty = (p, dev')" "ty \<noteq> VC4_BO_TYPE_FB"
  shows "p = None \<and> (\<exists>f. dev' = dev\<lparr>fw_state := f\<rparr> \<and> live f = live (fw_state dev)) \<or>
    (\<exists>handle bus f. p = Some (unat handle) \<and> unat handle < VC4_DEV_BO_NENTRY \<and>
       handle \<notin> live (fw_state dev) \<and> live f = insert handle (live (fw_state dev)) \<and>
       dev' = dev\<lparr>fw_state := f,
         iomaps := (bus, ROUNDUP sz PGSIZE) # iomaps dev,
         handle_bo_map := (handle_bo_map dev)[unat handle :=
           \<lparr>bo_size = ROUNDUP sz PGSIZE, bo_handle = handle, bo_paddr = bus, bo_vaddr = bus,
            bo_type = ty\<rparr>],
         bo_mem := (bo_mem dev)(unat handle := replicate (unat (ROUNDUP sz PGSIZE)) 0)\<rparr>)"
    (is "?fail \<or> ?new")
proof -
  obtain h f1 where alloc: "mbox_mem_alloc fw (fw_state dev) (ROUNDUP sz PGSIZE) PGSIZE
      (MEM_FLAG_COHERENT OR MEM_FLAG_ZERO) = (h, f1)" by fastforce
  obtain bus f2 where lock: "mbox_mem_lock fw f1 h = (bus, f2)" by fastforce
  have l2: "live f2 = live f1" using fw_okD(2) [OF fw, of f1 h] lock by simp
  have a: "h \<noteq> 0 \<Longrightarrow> h \<notin> live (fw_state dev) \<and> live f1 = insert h (live (fw_state dev))"
    "h = 0 \<Longrightarrow> live f1 = live (fw_state dev)"
    using fw_okD(1) [OF fw alloc] by auto
  have free: "live (snd (mbox_mem_free fw f h)) = live (fw_state dev)"
    if "live f = live f1" "h \<noteq> 0" for f
    using fw_okD(4) [OF fw, of f h] a(1) that by auto
  have failI: "p = None \<Longrightarrow> dev' = dev\<lparr>fw_state := f\<rparr> \<Longrightarrow> live f = live (fw_state dev) \<Longrightarrow> ?fail" for f
    by blast
  note eq = assms(2) [unfolded vc4_bo_create_def alloc lock Let_def, simplified assms(3)]
  consider "sz = 0" | "sz \<noteq> 0" "h = 0" | "sz \<noteq> 0" "h \<noteq> 0" "VC4_DEV_BO_NENTRY \<le> unat h"
    | "sz \<noteq> 0" "h \<noteq> 0" "unat h < VC4_DEV_BO_NENTRY" "bus = 0"
    | "sz \<noteq> 0" "h \<noteq> 0" "unat h < VC4_DEV_BO_NENTRY" "bus \<noteq> 0"
    by fastforce
  then show ?thesis
  proof cases
    case 1
    then show ?thesis using eq failI [of "fw_state dev"] by simp
  next
    case 2
    then show ?thesis using eq alloc failI [of f1] a(2) by simp
  next
    case 3
    then show ?thesis using eq alloc failI [OF _ _ free [OF refl]] by simp
  next
    case 4
    then show ?thesis using eq alloc lock failI [OF _ _ free [OF l2]] by simp
  next
    case 5
    then have "?new"
      using eq alloc lock a(1) l2 by (intro exI [of _ h] exI [of _ bus] exI [of _ f2]) simp
    then show ?thesis by blast
  qed
qed

lemma bo_iomap_frame [simp]:
  "bo_iomap (d\<lparr>fw_state := f\<rparr>) = bo_iomap d" "bo_iomap (d\<lparr>bo_mem := m\<rparr>) = bo_iomap d"
  by (auto simp: bo_iomap_def)

lemma vc4_bo_create_extends:
  assumes fw: "fw_ok fw live" and ex: "extends live dev is d1"
    and c: "vc4_bo_create fw d1 sz ty = (p, d2)" "ty \<noteq> VC4_BO_TYPE_FB"
  shows "(case p of None \<Rightarrow> extends live dev is d2 | Some i \<Rightarrow> extends live dev (is @ [i]) d2)"
  using vc4_bo_create_live [OF fw c]
proof (elim disjE conjE exE)
  fix f assume "p = None" "d2 = d1\<lparr>fw_state := f\<rparr>" "live f = live (fw_state d1)"
  then show ?thesis using ex by (auto simp: extends_def dev_live_def)
next
  fix handle bus :: u32 and f
  let ?i = "unat handle"
  let ?b = "\<lparr>bo_size = ROUNDUP sz PGSIZE, bo_handle = handle, bo_paddr = bus, bo_vaddr = bus, bo_type = ty\<rparr>"
  assume p: "p = Some ?i" and i: "?i < VC4_DEV_BO_NENTRY" and new: "handle \<notin> live (fw_state d1)"
    and f: "live f = insert handle (live (fw_state d1))"
    and d2: "d2 = d1\<lparr>fw_state := f, iomaps := (bus, ROUNDUP sz PGSIZE) # iomaps d1,
      handle_bo_map := (handle_bo_map d1)[?i := ?b],
      bo_mem := (bo_mem d1)(?i := replicate (unat (ROUNDUP sz PGSIZE)) 0)\<rparr>"
  note E = ex [unfolded extends_def dev_live_def]
  have blank1: "handle_bo_map d1 ! ?i = bo_zero"
    using E i new by auto
  have notin: "?i \<notin> set is" using E new by auto
  then have blank: "handle_bo_map dev ! ?i = bo_zero" using E i blank1 by auto
  have new': "handle \<notin> live (fw_state dev)" using E new by auto
  have len: "length (handle_bo_map d1) = VC4_DEV_BO_NENTRY" using E by simp
  have upd: "handle_bo_map d2 ! k = (if k = ?i then ?b else handle_bo_map d1 ! k)"
    if "k < VC4_DEV_BO_NENTRY" for k
    using that len by (simp add: d2 nth_list_update_in)
  have iomap: "map (bo_iomap d2) is = map (bo_iomap d1) is"
    using E upd notin by (auto simp: bo_iomap_def)
  have bi: "bo_iomap d2 ?i = (bus, ROUNDUP sz PGSIZE)" using upd [OF i] by (simp add: bo_iomap_def)
  have fields: "iomaps d2 = (bus, ROUNDUP sz PGSIZE) # iomaps d1" "bin_bo d2 = bin_bo d1"
    "bin_alloc_size d2 = bin_alloc_size d1" "fb_bo d2 = fb_bo d1" "fw_state d2 = f"
    "length (handle_bo_map d2) = VC4_DEV_BO_NENTRY"
    using len by (simp_all add: d2)
  have "mset (iomaps d2) = mset (iomaps dev) + mset (map (bo_iomap d1) is @ [bo_iomap d2 ?i])"
    using E by (simp add: fields bi)
  then have io: "mset (iomaps d2) = mset (iomaps dev) + mset (map (bo_iomap d2) (is @ [?i]))"
    by (simp only: iomap map_append list.map)
  have dl: "dev_live live d2" using E upd f fields by (auto simp: dev_live_def)
  have mem: "bo_mem d2 k = bo_mem dev k"
    if "k < VC4_DEV_BO_NENTRY" "handle_bo_map dev ! k \<noteq> bo_zero" for k
    using that E blank by (auto simp: d2)
  have "extends live dev (is @ [?i]) d2"
    unfolding extends_def
    using E dl notin blank new' i upd mem io c(2) f fields by (auto simp: dev_live_def)
  then show ?thesis using p by simp
qed

lemma extends_mem:
  assumes "extends live dev is d1" "i \<in> set is"
  shows "extends live dev is (d1\<lparr>bo_mem := (bo_mem d1)(i := v)\<rparr>)"
  using assms by (auto simp: extends_def dev_live_def)

lemma vc4_bo_destroy_extends:
  assumes fw: "fw_ok fw live" and ex: "extends live dev (i # is) d1"
  shows "extends live dev is (vc4_bo_destroy fw d1 i)"
proof -
  let ?b = "handle_bo_map d1 ! i" and ?d = "vc4_bo_destroy fw d1 i"
  note E = ex [unfolded extends_def dev_live_def]
  have i: "i < VC4_DEV_BO_NENTRY" "unat (bo_handle ?b) = i" "bo_type ?b \<noteq> VC4_BO_TYPE_FB"
    "i \<notin> set is" and len: "length (handle_bo_map d1) = VC4_DEV_BO_NENTRY"
    using E by auto
  let ?f = "snd (mbox_mem_free fw (snd (mbox_mem_unlock fw (fw_state d1) (bo_handle ?b))) (bo_handle ?b))"
  have d: "?d = d1\<lparr>fw_state := ?f, iomaps := remove1 (bo_iomap d1 i) (iomaps d1),
      handle_bo_map := (handle_bo_map d1)[i := bo_zero], bo_mem := (bo_mem d1)(i := [])\<rparr>"
    using i(3) by (simp add: vc4_bo_destroy_def Let_def bo_iomap_def)
  have "of_nat (unat (bo_handle ?b)) = bo_handle ?b" by simp
  then have h: "of_nat i = bo_handle ?b" unfolding i(2) .
  have live: "live ?f = live (fw_state dev) \<union> of_nat ` set is"
  proof -
    have "live ?f = live (fw_state d1) - {of_nat i}"
      by (simp add: h fw_okD(3) [OF fw] fw_okD(4) [OF fw])
    moreover have "of_nat i \<notin> (of_nat ` set is :: u32 set)"
    proof
      assume "of_nat i \<in> (of_nat ` set is :: u32 set)"
      then obtain k where k: "k \<in> set is" "(of_nat i :: u32) = of_nat k" by auto
      then have "k < VC4_DEV_BO_NENTRY" using E by auto
      then have "unat (of_nat k :: u32) = k" "unat (of_nat i :: u32) = i"
        using i(1) by (simp_all add: unat_of_nat_u32 VC4_DEV_BO_NENTRY_value)
      then show False using k i(4) by simp
    qed
    ultimately show ?thesis using E by auto
  qed
  have upd: "handle_bo_map ?d ! k = (if k = i then bo_zero else handle_bo_map d1 ! k)"
    if "k < VC4_DEV_BO_NENTRY" for k
    using that len by (simp add: d nth_list_update_in)
  have iomap: "map (bo_iomap ?d) is = map (bo_iomap d1) is"
    using E upd i(4) by (auto simp: bo_iomap_def)
  have dl: "dev_live live ?d"
    unfolding dev_live_def
  proof (intro conjI allI impI)
    show "length (handle_bo_map ?d) = VC4_DEV_BO_NENTRY" using len by (simp add: d)
    fix k assume k: "k < VC4_DEV_BO_NENTRY" "handle_bo_map ?d ! k \<noteq> bo_zero"
    then have ki: "k \<noteq> i" "handle_bo_map d1 ! k \<noteq> bo_zero" using upd by auto
    then show "of_nat k \<in> live (fw_state ?d)"
      using E k(1) live by (cases "k \<in> set is") (auto simp: d)
  qed
  have "mset (iomaps ?d) = mset (iomaps dev) + mset (map (bo_iomap d1) is)"
    using E by (simp add: d)
  then have io: "mset (iomaps ?d) = mset (iomaps dev) + mset (map (bo_iomap ?d) is)"
    by (simp only: iomap)
  have fields: "bin_bo ?d = bin_bo d1" "bin_alloc_size ?d = bin_alloc_size d1" "fb_bo ?d = fb_bo d1"
    "fw_state ?d = ?f" "bo_mem ?d = (bo_mem d1)(i := [])"
    by (simp_all add: d)
  show ?thesis
    unfolding extends_def using E dl upd live i(4) io fields by (auto simp: dev_live_def)
qed

lemma vc4_complete_exec_extends:
  assumes "fw_ok fw live" "extends live dev is d1"
  shows "\<exists>d2. vc4_complete_exec fw d1 is = Some d2 \<and> extends live dev [] d2"
  using assms(2)
proof (induction "is" arbitrary: d1)
  case (Cons i "is")
  have "i < length (handle_bo_map d1)" using Cons.prems by (simp add: extends_def dev_live_def)
  then show ?case
    using Cons.IH [OF vc4_bo_destroy_extends [OF assms(1) Cons.prems]] by simp
qed simp

text \<open>The validators never touch the list of buffers to release.\<close>

lemma validate_packet_setup:
  assumes "cmd_info_tab cmd = Some info" "validate_packet dev u dst src cmd info exec v = Some (r, exec', v')"
  shows "same_setup exec exec'"
proof (cases "info_func info")
  case None
  then show ?thesis using assms(2) by (auto simp: validate_packet_def Option.bind_eq_Some_conv)
next
  case (Some g)
  then show ?thesis
    using assms(2) packet_validator.untouched [OF info_validator [OF assms(1)]]
    by (auto simp: validate_packet_def Option.bind_eq_Some_conv)
qed

lemma validate_bin_cl_loop_setup:
  fixes dev :: "'f vc4_dev"
  assumes "validate_bin_cl_loop dev u len dst src exec v = Some x"
  shows "same_setup exec (fst (snd (snd x)))"
proof (rule validate_bin_cl_loop.raw_induct
    [of "\<lambda>dev u len dst src exec v x. same_setup exec (fst (snd (snd x)))", OF _ assms])
  fix loop :: "'f vc4_dev \<Rightarrow> u8 list \<Rightarrow> u32 \<Rightarrow> u32 \<Rightarrow> u32 \<Rightarrow> vc4_exec_info \<Rightarrow> u8 list
      \<Rightarrow> (rc \<times> u32 \<times> vc4_exec_info \<times> u8 list) option"
    and dev u len dst src exec v x
  assume IH: "\<And>dev u len dst src exec v x. loop dev u len dst src exec v = Some x \<Longrightarrow>
      same_setup exec (fst (snd (snd x)))"
    and body: "(if src < len then do {
        cmd \<leftarrow> load8 u (unat src);
        if ARRAY_SIZE_cmd_info \<le> unat cmd then Some (Err E_INVAL, dst, exec, v)
        else (case cmd_info_tab cmd of
          None \<Rightarrow> Some (Err E_INVAL, dst, exec, v)
        | Some info \<Rightarrow>
            if len < src + info_len info then Some (Err E_INVAL, dst, exec, v)
            else do {
              (ret, exec, v) \<leftarrow> validate_packet dev u (unat dst) (unat src) cmd info exec v;
              if ret \<noteq> Ok then Some (Err E_INVAL, dst, exec, v)
              else
                let src = src + info_len info;
                    dst = (if cmd \<noteq> packet_code VC4_PACKET_GEM_HANDLES
                                  then dst + info_len info else dst)
                in if cmd = packet_code VC4_PACKET_HALT then Some (Ok, dst, exec, v)
                   else loop dev u len dst src exec v }) }
      else Some (Ok, dst, exec, v)) = Some x"
  then show "same_setup exec (fst (snd (snd x)))"
    by (auto simp: Option.bind_eq_Some_conv Let_def dest!: IH
        dest: validate_packet_setup intro: same_setup_trans split: if_splits option.splits)
qed

lemma vc4_validate_bin_cl_unref:
  assumes "vc4_validate_bin_cl dev v u exec = Some (r, exec', v')"
  shows "unref_list exec' = unref_list exec"
proof -
  obtain ret dst e w
    where l: "validate_bin_cl_loop dev u (bin_cl_size (args exec)) 0 0 exec v = Some (ret, dst, e, w)"
      and e: "(if ret \<noteq> Ok then Some (ret, e, w) else Some (Ok, e\<lparr>ct0ea := ct0ca e + dst\<rparr>, w))
        = Some (r, exec', v')"
    using assms unfolding vc4_validate_bin_cl_def Option.bind_eq_Some_conv by auto
  have "unref_list e = unref_list exec"
    using validate_bin_cl_loop_setup [OF l] by (simp add: same_setup_def)
  moreover have "exec' = e \<or> exec' = e\<lparr>ct0ea := ct0ca e + dst\<rparr>" using e by (simp split: if_splits)
  ultimately show ?thesis by (elim disjE) simp_all
qed

lemma validate_nv_shader_rec_unref:
  "validate_nv_shader_rec dev u exec v i = Some (r, exec', v') \<Longrightarrow> unref_list exec' = unref_list exec"
  by (auto simp: validate_nv_shader_rec_def relocate_nv_shader_rec_def Option.bind_eq_Some_conv
      Let_def simp del: lookup_relocs.simps split: if_splits option.splits)

lemma validate_shader_recs_loop_unref:
  "validate_shader_recs_loop dev u is exec v = Some (r, exec', v') \<Longrightarrow> unref_list exec' = unref_list exec"
  by (induction "is" arbitrary: exec v)
    (auto simp: Option.bind_eq_Some_conv dest: validate_nv_shader_rec_unref split: if_splits)

lemma bcl_validate_extends:
  assumes fw: "fw_ok fw live" and ex: "extends live dev (unref_list exec) d1"
  shows "ensures (bcl_validate fw d1 exec u sz off)
    (\<lambda>(r, exec', d2). extends live dev (unref_list exec') d2)"
proof -
  obtain p d2 where c: "vc4_bo_create fw d1 sz VC4_BO_TYPE_BCL = (p, d2)" by fastforce
  note new = vc4_bo_create_extends [OF fw ex c]
  show ?thesis
  proof (cases p)
    case None
    then show ?thesis using new by (simp add: bcl_validate_def c)
  next
    case (Some i)
    then have mem: "extends live dev (unref_list exec @ [i]) (d2\<lparr>bo_mem := (bo_mem d2)(i := v)\<rparr>)" for v
      using new extends_mem [of live dev "unref_list exec @ [i]" d2 i] by simp
    show ?thesis
      using Some mem
      by (auto simp: bcl_validate_def c Let_def vc4_validate_shader_recs_def Option.bind_eq_Some_conv
          intro!: ensuresI split: if_splits
          dest!: vc4_validate_bin_cl_unref validate_shader_recs_loop_unref)
  qed
qed

lemma vc4_get_bcl_extends:
  assumes fw: "fw_ok fw live" and ex: "extends live dev (unref_list exec) d1"
  shows "ensures (vc4_get_bcl env fw d1 exec)
    (\<lambda>(r, exec', d2). extends live dev (unref_list exec') d2)"
  unfolding vc4_get_bcl_def Let_def
  using ex by (auto intro!: ensuresI [of "kmalloc b n" for b n] ensuresI [of "bcl_copy_in e a n m" for e a n m]
      bcl_validate_extends [OF fw] split: option.splits)

lemma vc4_create_rcl_bo_extends:
  assumes fw: "fw_ok fw live" and ex: "extends live dev (unref_list exec) d1"
  shows "ensures (vc4_create_rcl_bo fw d1 exec su)
    (\<lambda>(r, exec', d2). extends live dev (unref_list exec') d2)"
proof -
  obtain p d2 where c: "vc4_bo_create fw d1 (rcl_size (args exec) su) VC4_BO_TYPE_RCL = (p, d2)"
    by fastforce
  note new = vc4_bo_create_extends [OF fw ex c]
  show ?thesis
  proof (cases p)
    case None
    then show ?thesis using new by (simp add: vc4_create_rcl_bo_def c Let_def)
  next
    case (Some i)
    then have mem: "extends live dev (unref_list exec @ [i]) (d2\<lparr>bo_mem := (bo_mem d2)(i := v)\<rparr>)" for v
      using new extends_mem [of live dev "unref_list exec @ [i]" d2 i] by simp
    show ?thesis
      using Some mem by (auto simp: vc4_create_rcl_bo_def c Let_def intro!: ensuresI)
  qed
qed

lemma vc4_get_rcl_extends:
  assumes fw: "fw_ok fw live" and ex: "extends live dev (unref_list exec) d1"
  shows "ensures (vc4_get_rcl fw d1 exec)
    (\<lambda>(r, exec', d2). extends live dev (unref_list exec') d2)"
  unfolding vc4_get_rcl_def Let_def
  using ex
  by (auto intro!: ensuresI [of "vc4_rcl_surface_setup e s" for e s]
      ensuresI [of "vc4_rcl_render_config_surface_setup e s" for e s]
      vc4_create_rcl_bo_extends [OF fw])

lemma vc4_cl_lookup_bos_unref:
  "ensures (vc4_cl_lookup_bos env dev exec) (\<lambda>(r, exec'). unref_list exec' = unref_list exec)"
  by (auto simp: vc4_cl_lookup_bos_def Let_def intro!: ensuresI [of "kmalloc b n" for b n]
      ensuresI [of "cassert b" for b] ensuresI [of "lookup_handles d c hs bs" for d c hs bs]
      split: option.split)

lemma submit_cl_steps_extends:
  assumes fw: "fw_ok fw live" and dl: "dev_live live dev" and ul: "unref_list exec = []"
  shows "ensures (submit_cl_steps env fw hw dev st exec)
    (\<lambda>(r, exec', dev', st'). extends live dev (unref_list exec') dev')"
proof -
  have base: "extends live dev [] dev" by (rule extends_refl [OF dl])
  have look: "extends live dev (unref_list e) dev"
    if "vc4_cl_lookup_bos env dev exec = Some (r, e)" for r e
    using ensuresD [OF vc4_cl_lookup_bos_unref that] ul base by simp
  have bcl: "extends live dev (unref_list e') d'"
    if "vc4_get_bcl env fw dev e = Some (r, e', d')" "extends live dev (unref_list e) dev" for e r e' d'
    using ensuresD [OF vc4_get_bcl_extends [OF fw that(2)] that(1)] by simp
  have rcl: "extends live dev (unref_list e') d'"
    if "vc4_get_rcl fw d e = Some (r, e', d')" "extends live dev (unref_list e) d" for d e r e' d'
    using ensuresD [OF vc4_get_rcl_extends [OF fw that(2)] that(1)] by simp
  show ?thesis
    by (auto simp: submit_cl_steps_def Option.bind_eq_Some_conv split: if_splits
        intro!: ensuresI) (erule rcl bcl look | simp)+
qed

end
