(* ===== verification/Vc4_Submit.thy ===== *)
theory Vc4_Submit
  imports Vc4_Gem
begin

text \<open>
  What a submission does as a whole: the register writes it makes and in which order, that it
  ends for every content of the submitted lists within the stated sizes, and what the sizes are
  for.
\<close>

section \<open>The hardware\<close>

text \<open>
  \<open>settles hw reg c h\<close>: polling the register \<open>reg\<close> from the hardware state \<open>h\<close> finds a value
  without the property \<open>c\<close> after finitely many reads. \<open>hw_ok\<close> is what the driver relies on: a
  reset of a control list thread completes, and a thread whose end address has been written
  finishes its frame and counts it.
\<close>

definition settles :: "'h v3d \<Rightarrow> u32 \<Rightarrow> (u32 \<Rightarrow> bool) \<Rightarrow> 'h \<Rightarrow> bool" where
  "settles hw reg c h \<longleftrightarrow>
     (\<exists>n. \<not> c (fst (v3d_read hw reg (((\<lambda>h. snd (v3d_read hw reg h)) ^^ n) h))))"

definition hw_ok :: "'h v3d \<Rightarrow> bool" where
  "hw_ok hw \<longleftrightarrow>
     (\<forall>h t. settles hw (V3D_CTNCS t) (\<lambda>v. v AND 0x20 \<noteq> 0) (v3d_write hw (V3D_CTNCS t) 0x20 h)) \<and>
     (\<forall>h e. settles hw V3D_BFC (\<lambda>v. v = 0) (v3d_write hw (V3D_CTNEA 0) e h)) \<and>
     (\<forall>h e. settles hw V3D_RFC (\<lambda>v. v = 0) (v3d_write hw (V3D_CTNEA 1) e h))"

lemma v3d_wait_returns:
  assumes "settles hw reg c (v3d_hw st)"
  shows "returns (v3d_wait hw reg c st) (\<lambda>st'. v3d_log st' = v3d_log st)"
proof -
  let ?f = "\<lambda>h. snd (v3d_read hw reg h)"
  obtain n where "\<not> c (fst (v3d_read hw reg ((?f ^^ n) (v3d_hw st))))"
    using assms by (auto simp: settles_def)
  then show ?thesis
  proof (induction n arbitrary: st)
    case 0
    then show ?case by (simp add: v3d_wait.simps [of _ _ _ st] Let_def split_beta)
  next
    case (Suc n)
    have "\<not> c (fst (v3d_read hw reg ((?f ^^ n) (v3d_hw (st\<lparr>v3d_hw := ?f (v3d_hw st)\<rparr>)))))"
      using Suc.prems by (simp add: funpow_Suc_right del: funpow.simps)
    from Suc.IH [OF this] show ?case
      by (simp add: v3d_wait.simps [of _ _ _ st] Let_def split_beta)
  qed
qed

lemma V3D_WRITE_fields [simp]:
  "v3d_hw (V3D_WRITE hw reg val st) = v3d_write hw reg val (v3d_hw st)"
  "v3d_log (V3D_WRITE hw reg val st) = v3d_log st @ [(reg, val)]"
  by (simp_all add: V3D_WRITE_def)

text \<open>The writes of one thread's submission, in order.\<close>

definition thread_writes :: "u32 \<Rightarrow> u32 \<Rightarrow> u32 \<Rightarrow> (u32 \<times> u32) list" where
  "thread_writes t start end_addr =
     [(V3D_CTNCS t, 0x20), (V3D_CTNCA t, start), (V3D_CTNEA t, end_addr)]"

lemma submit_cl_returns:
  assumes "hw_ok hw"
    and "\<And>st' h. v3d_log st' = v3d_log st @ thread_writes t a e \<Longrightarrow>
      v3d_hw st' = v3d_write hw (V3D_CTNEA t) e h \<Longrightarrow> Q st'"
  shows "returns (submit_cl hw t a e st) Q"
  unfolding submit_cl_def Let_def returns_simps
  by (rule returns_mono [OF v3d_wait_returns])
    (use assms in \<open>auto simp: hw_ok_def thread_writes_def\<close>)

lemma vc4_flush_caches_eq:
  "vc4_flush_caches hw st =
     Some (V3D_WRITE hw V3D_SLCACTL 0x0f0f0f0f (V3D_WRITE hw V3D_L2CACTL V3D_L2CACTL_L2CCLR st))"
proof -
  have "VC4_SET_FIELD 0xf (VC4_MASK 27 24) 24 = Some 0x0f000000"
    "VC4_SET_FIELD 0xf (VC4_MASK 19 16) 16 = Some 0x000f0000"
    "VC4_SET_FIELD 0xf (VC4_MASK 11 8) 8 = Some 0x00000f00"
    "VC4_SET_FIELD 0xf (VC4_MASK 3 0) 0 = Some 0x0000000f"
    by code_simp+
  then show ?thesis by (simp add: vc4_flush_caches_def Let_def)
qed

definition queue_writes :: "vc4_exec_info \<Rightarrow> (u32 \<times> u32) list" where
  "queue_writes exec =
     [(V3D_L2CACTL, V3D_L2CACTL_L2CCLR), (V3D_SLCACTL, 0x0f0f0f0f)] @
     (if ct0ca exec = ct0ea exec then []
      else (V3D_BFC, 1) # thread_writes 0 (ct0ca exec) (ct0ea exec)) @
     (V3D_RFC, 1) # thread_writes 1 (ct1ca exec) (ct1ea exec)"

lemma vc4_queue_submit_returns:
  assumes "hw_ok hw"
  shows "returns (vc4_queue_submit hw exec st) (\<lambda>st'. v3d_log st' = v3d_log st @ queue_writes exec)"
proof -
  have render: "returns (vc4_submit_next_render_job hw exec st1)
      (\<lambda>st'. v3d_log st' = v3d_log st1 @ (V3D_RFC, 1) # thread_writes 1 (ct1ca exec) (ct1ea exec))" for st1
    unfolding vc4_submit_next_render_job_def Let_def returns_simps
    by (rule submit_cl_returns [OF assms], rule returns_mono [OF v3d_wait_returns])
      (use assms in \<open>auto simp: hw_ok_def\<close>)
  have bin: "returns (vc4_submit_next_bin_job hw exec st) (\<lambda>st'. v3d_log st' = v3d_log st @
      [(V3D_L2CACTL, V3D_L2CACTL_L2CCLR), (V3D_SLCACTL, 0x0f0f0f0f)] @
      (if ct0ca exec = ct0ea exec then []
       else (V3D_BFC, 1) # thread_writes 0 (ct0ca exec) (ct0ea exec)))"
    unfolding vc4_submit_next_bin_job_def Let_def vc4_flush_caches_eq
    by (auto intro!: submit_cl_returns [OF assms] returns_mono [OF v3d_wait_returns])
      (use assms in \<open>auto simp: hw_ok_def\<close>)
  show ?thesis
    unfolding vc4_queue_submit_def returns_simps
    by (rule returns_mono [OF bin], rule returns_mono [OF render]) (simp add: queue_writes_def)
qed

section \<open>A submission ends\<close>

lemma length_words_of [simp]: "length (words_of bs) = length bs div 4"
  by (induction bs rule: words_of.induct) auto

lemma copy_from_user_length: "copy_from_user env a n = Some bs \<Longrightarrow> length bs = n"
  by (auto simp: copy_from_user_def Let_def split: if_splits)

lemma lookup_handles_returns:
  assumes "4 * (length bos + length hs) \<le> cap" "\<forall>i\<in>set bos. i < length (handle_bo_map dev)"
    and "length (handle_bo_map dev) = VC4_DEV_BO_NENTRY"
  shows "returns (lookup_handles dev cap hs bos) (\<lambda>(r, bos').
    r = Ok \<longrightarrow> length bos' = length bos + length hs \<and> (\<forall>i\<in>set bos'. i < length (handle_bo_map dev)))"
  using assms(1,2)
proof (induction hs arbitrary: bos)
  case (Cons h hs)
  show ?case
  proof (cases "vc4_lookup_bo dev h")
    case (Some i)
    then have "i < length (handle_bo_map dev)"
      using assms(3) by (auto simp: vc4_lookup_bo_def Let_def split: if_splits)
    then show ?thesis using Some Cons.IH [of "bos @ [i]"] Cons.prems by simp
  qed simp
qed simp

lemma vc4_cl_lookup_bos_returns:
  assumes dev: "length (handle_bo_map dev) = VC4_DEV_BO_NENTRY" "bin_bo dev = Some b" "b < VC4_DEV_BO_NENTRY"
    and cnt: "bo_handle_count ar \<le> 8"
  shows "returns (vc4_cl_lookup_bos env dev (exec_init ar))
    (\<lambda>(r, exec). args exec = ar \<and> unref_list exec = [] \<and> shader_state_count exec = 0 \<and>
      (r = Ok \<longrightarrow> job_ok dev exec))"
proof (cases "bo_handle_count ar = 0")
  case True
  then show ?thesis
    using dev by (simp add: vc4_cl_lookup_bos_def exec_init_def Let_def job_ok_def)
next
  case False
  let ?n = "bo_handle_count ar"
  have n: "unat ?n \<le> 8" using cnt by (simp add: word_le_nat_alt)
  have n4: "unat (?n * 4) = unat ?n * 4"
    using n by (simp add: unat_mult_lem [THEN iffD1])
  then have nz: "?n * 4 \<noteq> 0" "unat (?n * 4) \<le> 2 ^ 17" "unat ?n \<le> 2 ^ 17"
    using n False by (auto simp: unat_eq_0)
  have look: "returns (lookup_handles dev cap (words_of bs) []) (\<lambda>(r, bos).
      r = Ok \<longrightarrow> length bos = unat ?n \<and> (\<forall>i\<in>set bos. i < length (handle_bo_map dev)))"
    if "length bs = unat ?n * 4" "unat ?n * 4 \<le> cap" for bs cap
    using lookup_handles_returns [of "[]" "words_of bs" cap dev] that dev(1) by simp
  show ?thesis
    unfolding vc4_cl_lookup_bos_def Let_def
    using False n nz dev
    by (auto simp: exec_init_def n4 intro!: kmalloc_returns look [THEN returns_mono]
        dest!: copy_from_user_length simp: job_ok_def cassert_def split: option.split)
qed

lemma vc4_validate_bin_cl_returns:
  assumes "job_ok dev exec" "unat (bin_cl_size (args exec)) \<le> length u"
    "unat (bin_cl_size (args exec)) \<le> length v" "unat (bin_cl_size (args exec)) + 16 \<le> 2 ^ 32"
  shows "returns (vc4_validate_bin_cl dev v u exec) (\<lambda>(r, exec', v').
    length v' = length v \<and> args exec' = args exec \<and> shader_rec_u exec' = shader_rec_u exec \<and>
    shader_rec_v exec' = shader_rec_v exec \<and> shader_rec_size exec' = shader_rec_size exec \<and>
    (r = Ok \<longrightarrow> job_ok dev exec'))"
proof -
  have "bin_cl_inv dev u (bin_cl_size (args exec)) 0 0 exec v"
    using assms by (simp add: bin_cl_inv_def hw_list_Nil)
  from validate_bin_cl_loop_ok [OF this] show ?thesis
    unfolding vc4_validate_bin_cl_def returns_simps
    by (rule returns_mono)
      (auto simp: bin_cl_post_def same_setup_def job_ok_def dest: only_changes_length split: prod.splits)
qed

lemma vc4_validate_shader_recs_returns:
  assumes "job_ok dev exec" "recs_fit exec u v"
  shows "returns (vc4_validate_shader_recs dev u exec v)
    (\<lambda>(r, exec', v'). args exec' = args exec \<and> job_ok dev exec')"
proof -
  have "returns (vc4_validate_shader_recs dev u exec v)
    (shader_rec_post u (length [0..<unat (shader_state_count exec)]) exec v)"
    unfolding vc4_validate_shader_recs_def
    by (rule validate_shader_recs_loop_ok) (use assms in auto)
  then show ?thesis
  proof (rule returns_mono, clarify)
    fix r exec' v'
    assume "shader_rec_post u (length [0..<unat (shader_state_count exec)]) exec v (r, exec', v')"
    then have e: "exec' = exec\<lparr>shader_rec_u := shader_rec_u exec', shader_rec_v := shader_rec_v exec',
        shader_rec_size := shader_rec_size exec'\<rparr>"
      by (simp add: shader_rec_post_def)
    have "args exec' = args exec" by (subst e) simp
    moreover have "job_ok dev exec'" by (subst e) (rule job_ok_advance [OF assms(1)])
    ultimately show "args exec' = args exec \<and> job_ok dev exec'" by simp
  qed
qed

lemma bcl_validate_returns:
  assumes ok: "job_ok dev exec" and tab: "length (handle_bo_map dev) = VC4_DEV_BO_NENTRY"
    and sz: "unat (bin_cl_size (args exec)) \<le> unat off"
      "unat off + unat (args_shader_rec_size (args exec)) \<le> unat sz"
      "unat sz \<le> 2 ^ 17" "length u = unat sz" "shader_rec_u exec = unat off"
  shows "returns (bcl_validate fw dev exec u sz off) (\<lambda>(r, exec', dev').
    args exec' = args exec \<and> length (handle_bo_map dev') = VC4_DEV_BO_NENTRY \<and>
    (r = Ok \<longrightarrow> job_ok dev' exec'))"
proof -
  obtain p dev1 where c: "vc4_bo_create fw dev sz VC4_BO_TYPE_BCL = (p, dev1)" by fastforce
  from c show ?thesis
  proof (cases rule: vc4_bo_create_cases)
    case (fail f)
    then show ?thesis using tab by (simp add: bcl_validate_def c)
  next
    case (new handle bus f)
    let ?i = "unat handle"
    let ?e = "exec\<lparr>exec_bo := Some ?i, unref_list := unref_list exec @ [?i], ct0ca := bus,
        shader_rec_v := unat off, shader_rec_p := bus + off,
        shader_rec_size := args_shader_rec_size (args exec)\<rparr>"
    have e: "job_ok dev1 ?e" using ok new by (auto simp: job_ok_def split: option.splits)
    have i: "deref_bo dev1 ?i = Some (handle_bo_map dev1 ! ?i)" "bo_paddr (handle_bo_map dev1 ! ?i) = bus"
      using new tab by (simp_all add: deref_bo_def)
    have len: "unat sz \<le> length (bo_mem dev1 ?i)"
      using ROUNDUP_ge [of PGSIZE sz] sz(3) new by simp
    have mem: "job_ok (dev1\<lparr>bo_mem := m\<rparr>) e' = job_ok dev1 e'" for m e'
      by (simp add: job_ok_def cong: option.case_cong)
    have t1: "length (handle_bo_map dev1) = VC4_DEV_BO_NENTRY" using new tab by simp
    have bin: "returns (vc4_validate_bin_cl dev1 (bo_mem dev1 ?i) u ?e) (\<lambda>(r, exec', v').
      length v' = length (bo_mem dev1 ?i) \<and> args exec' = args exec \<and> shader_rec_u exec' = unat off \<and>
      shader_rec_v exec' = unat off \<and> shader_rec_size exec' = args_shader_rec_size (args exec) \<and>
      (r = Ok \<longrightarrow> job_ok dev1 exec'))"
      using vc4_validate_bin_cl_returns [OF e, of u "bo_mem dev1 ?i"] sz len by simp
    have recs: "returns (vc4_validate_shader_recs dev1 u e' v)
        (\<lambda>(r, exec', v'). args exec' = args exec \<and> job_ok dev1 exec')"
      if "job_ok dev1 e'" "length v = length (bo_mem dev1 ?i)" "args e' = args exec"
        "shader_rec_u e' = unat off" "shader_rec_v e' = unat off"
        "shader_rec_size e' = args_shader_rec_size (args exec)" for e' v
      using vc4_validate_shader_recs_returns [of dev1 e' u v] that sz len by (simp add: recs_fit_def)
    show ?thesis
      using new(6) by (auto simp: bcl_validate_def c i mem t1 Let_def
          intro!: returns_mono [OF bin] recs [THEN returns_mono])
  qed simp
qed

lemma bcl_copy_in_returns:
  assumes "unat (bin_cl_size ar) \<le> off" "off + unat (args_shader_rec_size ar) \<le> n"
    and "Q None" "\<And>u. length u = n \<Longrightarrow> Q (Some u)"
  shows "returns (bcl_copy_in env ar n off) Q"
  unfolding bcl_copy_in_def Let_def
  using assms by (auto intro!: store_bytes_returns dest!: copy_from_user_length split: option.split)

text \<open>The bytes the kernel buffers for a binner list: the list rounded up to 16, the shader records,
  the uniforms, and 8 for each shader state.\<close>

definition bcl_bytes :: "drm_vc4_submit_cl \<Rightarrow> nat" where
  "bcl_bytes ar = unat (bin_cl_size ar) + 16 + unat (args_shader_rec_size ar) +
     unat (uniforms_size ar) + 8 * unat (shader_rec_count ar)"

lemma bcl_layout:
  assumes "bcl_bytes ar < 2 ^ 32"
  defines "off \<equiv> ROUNDUP (bin_cl_size ar) 16"
  shows "unat (bin_cl_size ar) \<le> unat off" "unat off \<le> unat (bin_cl_size ar) + 15"
    and "unat (off + args_shader_rec_size ar) = unat off + unat (args_shader_rec_size ar)"
    and "unat (off + args_shader_rec_size ar + uniforms_size ar) =
      unat off + unat (args_shader_rec_size ar) + unat (uniforms_size ar)"
    and "unat (off + args_shader_rec_size ar + uniforms_size ar + 8 * shader_rec_count ar) =
      unat off + unat (args_shader_rec_size ar) + unat (uniforms_size ar) + 8 * unat (shader_rec_count ar)"
proof -
  note B = assms(1) [unfolded bcl_bytes_def]
  show off: "unat (bin_cl_size ar) \<le> unat off" "unat off \<le> unat (bin_cl_size ar) + 15"
    using ROUNDUP_ge [of 16 "bin_cl_size ar"] unat_ROUNDUP [of 16 "bin_cl_size ar"] B
    by (simp_all add: off_def div_times_less_eq_dividend)
  show uo: "unat (off + args_shader_rec_size ar) = unat off + unat (args_shader_rec_size ar)"
    using off B by (intro unat_add_small) simp
  show es: "unat (off + args_shader_rec_size ar + uniforms_size ar) =
      unat off + unat (args_shader_rec_size ar) + unat (uniforms_size ar)"
    unfolding uo [symmetric] using off B uo by (intro unat_add_small) simp
  have "unat (8 * shader_rec_count ar) = 8 * unat (shader_rec_count ar)"
    using B by (simp add: unat_mult_lem [THEN iffD1])
  then show "unat (off + args_shader_rec_size ar + uniforms_size ar + 8 * shader_rec_count ar) =
      unat off + unat (args_shader_rec_size ar) + unat (uniforms_size ar) + 8 * unat (shader_rec_count ar)"
    using off B uo es
      unat_add_small [of "off + args_shader_rec_size ar + uniforms_size ar" "8 * shader_rec_count ar"]
    by simp
qed

lemma vc4_get_bcl_returns:
  assumes ok: "job_ok dev exec" and tab: "length (handle_bo_map dev) = VC4_DEV_BO_NENTRY"
    and cnt: "shader_state_count exec = 0" and sz: "bcl_bytes (args exec) \<le> 2 ^ 17"
    and bin: "bin_cl_size (args exec) \<noteq> 0"
  shows "returns (vc4_get_bcl env fw dev exec) (\<lambda>(r, exec', dev').
    args exec' = args exec \<and> length (handle_bo_map dev') = VC4_DEV_BO_NENTRY \<and>
    (r = Ok \<longrightarrow> job_ok dev' exec'))"
proof -
  let ?ar = "args exec"
  let ?off = "ROUNDUP (bin_cl_size ?ar) 16"
  let ?sz = "?off + args_shader_rec_size ?ar + uniforms_size ?ar"
  note B = sz [unfolded bcl_bytes_def] and L = bcl_layout [of ?ar]
  have nz: "?sz + 8 * shader_rec_count ?ar \<noteq> 0" "unat (?sz + 8 * shader_rec_count ?ar) \<le> 2 ^ 17"
    using L sz B bin by (auto simp: unat_eq_0 [symmetric] bcl_bytes_def simp del: unat_eq_0)
  have val: "returns (bcl_validate fw dev (exec\<lparr>shader_rec_u := unat ?off,
       shader_state := replicate (unat (shader_rec_count ?ar)) None,
       shader_state_size := shader_rec_count ?ar\<rparr>) u ?sz ?off)
     (\<lambda>(r, exec', dev'). args exec' = args exec \<and> length (handle_bo_map dev') = VC4_DEV_BO_NENTRY \<and>
        (r = Ok \<longrightarrow> job_ok dev' exec'))" if "length u = unat ?sz" for u
    by (rule bcl_validate_returns [THEN returns_mono])
      (use ok tab cnt L sz B that in \<open>auto simp: job_ok_def bcl_bytes_def\<close>)
  show ?thesis
    unfolding vc4_get_bcl_def Let_def add_0
    using tab L sz
    by (auto intro!: kmalloc_returns nz bcl_copy_in_returns val split: option.split)
qed

lemma submit_cl_steps_returns:
  assumes dev: "length (handle_bo_map dev) = VC4_DEV_BO_NENTRY" "bin_bo dev = Some b" "b < VC4_DEV_BO_NENTRY"
    and ar: "bo_handle_count ar \<le> 8" "bin_cl_size ar \<noteq> 0 \<longrightarrow> bcl_bytes ar \<le> 2 ^ 17"
      "max_x_tile ar < 255" "max_y_tile ar < 255"
    and hw: "hw_ok hw"
  shows "returns (submit_cl_steps env fw hw dev st (exec_init ar)) (\<lambda>(r, exec, dev', st').
    r = Ok \<longrightarrow> v3d_log st' = v3d_log st @ queue_writes exec)"
proof -
  let ?ar = "args (exec_init ar)"
  have eq: "?ar = ar" by (simp add: exec_init_def)
  have look: "returns (vc4_cl_lookup_bos env dev (exec_init ar)) (\<lambda>(r, exec).
      args exec = ?ar \<and> (r = Ok \<longrightarrow> job_ok dev exec \<and> shader_state_count exec = 0))"
    by (rule returns_mono [OF vc4_cl_lookup_bos_returns [OF dev ar(1)]]) (auto simp: eq)
  have bcl: "returns (vc4_get_bcl env fw dev exec) (\<lambda>(r, exec', dev').
      args exec' = ?ar \<and> length (handle_bo_map dev') = VC4_DEV_BO_NENTRY \<and> (r = Ok \<longrightarrow> job_ok dev' exec'))"
    if "args exec = ?ar" "shader_state_count exec = 0" "job_ok dev exec" "bin_cl_size ?ar \<noteq> 0" for exec
    using vc4_get_bcl_returns [OF that(3) dev(1) that(2), of env fw] that ar(2) by (simp add: eq)
  have rcl: "returns (vc4_get_rcl fw dev' exec) (\<lambda>_. True)"
    if "args exec = ?ar" "length (handle_bo_map dev') = VC4_DEV_BO_NENTRY" "job_ok dev' exec" for dev' exec
    using vc4_get_rcl_ok [OF that(3,2), of fw] that(1) ar(3,4) by (auto simp: eq elim: returns_mono)
  have nobin: "job_ok dev (e\<lparr>ct0ca := 0, ct0ea := 0\<rparr>)" if "job_ok dev e" for e
    using that by (simp add: job_ok_def)
  show ?thesis
    unfolding submit_cl_steps_def returns_simps
    by (rule returns_mono [OF look])
      (auto intro!: returns_mono [OF bcl] returns_mono [OF rcl] nobin dev(1)
        returns_mono [OF vc4_queue_submit_returns [OF hw]])
qed

section \<open>Properties\<close>


text \<open>A GPU that has always reset its threads and always counted a frame; its state is the number
  of reads so far.\<close>

definition quick_hw :: "nat v3d" where
  "quick_hw = \<lparr>v3d_write = (\<lambda>reg val n. n),
     v3d_read = (\<lambda>reg n. (if reg = V3D_BFC \<or> reg = V3D_RFC then 1 else 0, n + 1))\<rparr>"

lemma quick_hw_ok: "hw_ok quick_hw"
proof -
  have "settles quick_hw (V3D_CTNCS t) (\<lambda>v. v AND 0x20 \<noteq> 0) h" for t h
    by (auto simp: settles_def quick_hw_def intro!: exI [of _ 0])
  moreover have "settles quick_hw V3D_BFC (\<lambda>v. v = 0) h" "settles quick_hw V3D_RFC (\<lambda>v. v = 0) h" for h
    by (auto simp: settles_def quick_hw_def intro!: exI [of _ 0])
  ultimately show ?thesis by (simp add: hw_ok_def)
qed



text \<open>A firmware whose state is the list of live handles: it hands out the successor of the largest
  one and forgets a handle that is released.\<close>

definition pool_fw :: "u32 list firmware" where
  "pool_fw f msg =
     (let tag = msg ! 2; h = fold max f 0 + 1;
          v = (if tag = RPI_FIRMWARE_ALLOCATE_MEMORY then h
               else if tag = RPI_FIRMWARE_LOCK_MEMORY then msg ! 5 * 0x100000 else 0)
      in (msg[1 := RPI_FIRMWARE_STATUS_SUCCESS, 5 := v],
          if tag = RPI_FIRMWARE_ALLOCATE_MEMORY then (if h = 0 then f else h # f)
          else if tag = RPI_FIRMWARE_RELEASE_MEMORY then removeAll (msg ! 5) f else f))"

lemma fold_max_fresh:
  fixes f :: "u32 list"
  assumes "fold max f 0 + 1 \<noteq> 0"
  shows "fold max f 0 + 1 \<notin> set f"
proof
  assume "fold max f 0 + 1 \<in> set f"
  then have "fold max f 0 + 1 \<le> fold max f 0" by (simp add: Max.set_eq_fold [symmetric])
  moreover have "fold max f 0 < fold max f 0 + 1"
    using unatSuc [of "fold max f 0"] assms by (simp add: word_less_nat_alt add.commute)
  ultimately show False by (rule leD [THEN notE])
qed

lemma mbox_property_pool:
  assumes "length xs \<le> 5"
  shows "mbox_property pool_fw f tag (x # xs) =
    (Ok, (if tag = RPI_FIRMWARE_ALLOCATE_MEMORY then fold max f 0 + 1
          else if tag = RPI_FIRMWARE_LOCK_MEMORY then x * 0x100000 else 0) # xs,
     if tag = RPI_FIRMWARE_ALLOCATE_MEMORY then (if fold max f 0 + 1 = 0 then f else (fold max f 0 + 1) # f)
     else if tag = RPI_FIRMWARE_RELEASE_MEMORY then removeAll x f else f)"
    (is "_ = (Ok, ?v # xs, ?f)")
proof -
  let ?msg = "tag_message tag (x # xs)"
  have m: "?msg ! 2 = tag" "?msg ! 5 = x" by (simp_all add: tag_message_def numeral_2_eq_2)
  have r: "pool_fw f ?msg = (?msg[1 := RPI_FIRMWARE_STATUS_SUCCESS, 5 := ?v], ?f)"
    unfolding pool_fw_def Let_def m by (rule refl)
  have t: "?msg[1 := RPI_FIRMWARE_STATUS_SUCCESS, 5 := ?v] =
      [4 * of_nat (length (x # xs)) + 24, RPI_FIRMWARE_STATUS_SUCCESS, tag, 4 * of_nat (length (x # xs)), 0, ?v]
        @ xs @ [0]"
    by (simp add: tag_message_def)
  show ?thesis
    using mbox_property_exchange [where fw = pool_fw and f = f and data = "x # xs", OF _ r] assms unfolding t by simp
qed

lemma pool_fw_ok: "fw_ok pool_fw set"
  unfolding fw_ok_def mbox_mem_alloc_def mbox_mem_lock_def mbox_mem_unlock_def mbox_mem_free_def
  using fold_max_fresh by (auto simp: mbox_property_pool split: if_splits)

text \<open>A device with the buffer of binned tiles in slot 2 and one user buffer in slot 1, and a job
  that names the user buffer, has an empty binner list, and clears one tile.\<close>

definition pool_dev :: "u32 list vc4_dev" where
  "pool_dev = \<lparr>fw_state = [2, 1], bin_bo = Some 2, bin_alloc_size = 0x80000, fb_bo = None,
     handle_bo_map = handle_bo_map sample_dev, bo_mem = (\<lambda>_. []), iomaps = []\<rparr>"

definition tiny_env :: kenv where
  "tiny_env = \<lparr>env_avail = (\<lambda>_. True), env_fresh = (\<lambda>_. 0), env_user = (\<lambda>a. Some (if a = 0 then 1 else 0)),
     env_remap = (\<lambda>_ _. 0)\<rparr>"

definition tiny_args :: drm_vc4_submit_cl where
  "tiny_args = (args render_exec)\<lparr>bin_cl_size := 0\<rparr>"

lemma pool_dev_live: "dev_live set pool_dev"
proof -
  have "handle_bo_map sample_dev ! k = bo_zero" if "k \<noteq> 1" "k \<noteq> 2" "k < 291" for k
    using that by (auto simp: sample_dev_def nth_append nth_Cons split: nat.splits)
  then have "k = 1 \<or> k = 2" if "k < 291" "handle_bo_map sample_dev ! k \<noteq> bo_zero" for k
    using that by blast
  moreover have "length (handle_bo_map sample_dev) = 291" by (simp add: sample_dev_def)
  ultimately show ?thesis
    unfolding dev_live_def VC4_DEV_BO_NENTRY_value by (fastforce simp: pool_dev_def)
qed

lemma tiny_args_ok:
  "bo_handle_count tiny_args \<le> 8" "bin_cl_size tiny_args = 0"
  "max_x_tile tiny_args < 255" "max_y_tile tiny_args < 255"
  by code_simp+


text \<open>C4. Whatever the outcome of a submission, the driver is left as it was found: under the
  firmware's contract the buffer table, the set of mapped regions and the set of live handles are
  the same before and after, and the memory of every buffer that existed before is untouched by
  the kernel. No error path leaks a buffer of the job.\<close>

theorem vc4_submit_cl_no_leak:
  assumes "fw_ok fw live" "dev_live live dev"
    and "vc4_submit_cl_ioctl env fw hw dev st ar = Some (r, dev', st')"
  shows "handle_bo_map dev' = handle_bo_map dev \<and>
    mset (iomaps dev') = mset (iomaps dev) \<and>
    live (fw_state dev') = live (fw_state dev) \<and> bin_bo dev' = bin_bo dev \<and>
    (\<forall>k<VC4_DEV_BO_NENTRY. handle_bo_map dev ! k \<noteq> bo_zero \<longrightarrow> bo_mem dev' k = bo_mem dev k)"
proof -
  have base: "extends live dev [] dev" by (rule extends_refl [OF assms(2)])
  have unref: "unref_list (exec_init ar) = []" by (simp add: exec_init_def)
  have "extends live dev [] dev'"
    using assms(3) base vc4_complete_exec_extends [OF assms(1)]
    by (fastforce simp: vc4_submit_cl_ioctl_def Option.bind_eq_Some_conv split: if_splits
        dest: ensuresD [OF submit_cl_steps_extends [OF assms(1,2) unref]])
  then show ?thesis
    by (auto simp: extends_def dev_live_def intro: nth_equalityI)
qed

theorem vc4_submit_cl_no_leak_witness:
  "\<exists>r dev' st'. vc4_submit_cl_ioctl tiny_env pool_fw quick_hw pool_dev \<lparr>v3d_hw = 0, v3d_log = []\<rparr>
      tiny_args = Some (r, dev', st') \<and> handle_bo_map dev' = handle_bo_map pool_dev \<and>
    bin_bo dev' = Some 2 \<and> bo_mem dev' 1 = []"
proof -
  let ?st = "\<lparr>v3d_hw = 0, v3d_log = []\<rparr> :: nat v3d_state"
  have tab: "length (handle_bo_map pool_dev) = VC4_DEV_BO_NENTRY" "2 < VC4_DEV_BO_NENTRY"
    "bin_bo pool_dev = Some 2"
    using pool_dev_live by (simp_all add: dev_live_def VC4_DEV_BO_NENTRY_value pool_dev_def)
  have "\<exists>x. submit_cl_steps tiny_env pool_fw quick_hw pool_dev ?st (exec_init tiny_args) = Some x"
    using submit_cl_steps_returns [where env = tiny_env and fw = pool_fw and st = ?st,
        OF tab(1,3,2) tiny_args_ok(1) _ tiny_args_ok(3,4) quick_hw_ok] tiny_args_ok(2)
    unfolding returns_def by blast
  then obtain r exec d s where
    steps: "submit_cl_steps tiny_env pool_fw quick_hw pool_dev ?st (exec_init tiny_args) = Some (r, exec, d, s)"
    by (metis prod_cases4)
  have "extends set pool_dev (unref_list exec) d"
    using ensuresD [OF submit_cl_steps_extends [OF pool_fw_ok pool_dev_live] steps] by (simp add: exec_init_def)
  then obtain d' where "vc4_complete_exec pool_fw d (unref_list exec) = Some d'"
    using vc4_complete_exec_extends [OF pool_fw_ok] by blast
  moreover have "kmalloc (env_avail tiny_env 0) 92 = Some (Some 128)" by code_simp
  ultimately have sub: "vc4_submit_cl_ioctl tiny_env pool_fw quick_hw pool_dev ?st tiny_args = Some (r, d', s)"
    using steps by (simp add: vc4_submit_cl_ioctl_def)
  have "handle_bo_map pool_dev ! 1 \<noteq> bo_zero"
    by (simp add: pool_dev_def sample_dev_def bo_zero_def)
  then show ?thesis
    using sub vc4_submit_cl_no_leak [OF pool_fw_ok pool_dev_live sub]
    by (auto simp: pool_dev_def VC4_DEV_BO_NENTRY_value)
qed

text \<open>C16. A submission that names more than 8 buffers (and up to the 32768 the allocator serves)
  makes the kernel write past the end of a heap object: the array for the handles is allocated
  with one byte for each, and four bytes for each are copied into it.\<close>

theorem vc4_cl_lookup_bos_overrun:
  assumes "8 < bo_handle_count (args exec)" "unat (bo_handle_count (args exec)) \<le> 2 ^ 15"
    and "env_avail env 1" "env_avail env 2"
    and "\<forall>k < unat (bo_handle_count (args exec) * 4). env_user env (ucast (bo_handles (args exec)) + of_nat k) \<noteq> None"
  shows "vc4_cl_lookup_bos env dev exec = None"
proof -
  let ?n = "bo_handle_count (args exec)"
  have n: "8 < unat ?n" "?n \<noteq> 0" using assms(1) by (auto simp: word_less_nat_alt)
  have n4: "unat (?n * 4) = unat ?n * 4" using assms(2) by (simp add: unat_mult_lem [THEN iffD1])
  obtain k where k: "getorder ?n = Some k" using assms(2) getorder_None [of ?n] by fastforce
  obtain j where j: "getorder (?n * 4) = Some j"
    using assms(2) n4 getorder_None [of "?n * 4"] by fastforce
  have "2 ^ k < 4 * unat ?n" using getorder_tight [OF k] n(1) by simp
  moreover have "length bs = unat ?n * 4"
    if "copy_from_user env (ucast (bo_handles (args exec))) (unat ?n * 4) = Some bs" for bs
    using copy_from_user_length [OF that] .
  moreover have "copy_from_user env (ucast (bo_handles (args exec))) (unat ?n * 4) \<noteq> None"
    using assms(5) n4 by (auto simp: copy_from_user_def Let_def)
  ultimately show ?thesis
    using n getorder_Some(2) [OF k] getorder_Some(2) [OF j] assms(3,4)
    by (auto simp: vc4_cl_lookup_bos_def Let_def kmalloc_def k j n4 word_neq_0_conv cassert_def
        split: option.split)
qed

theorem vc4_cl_lookup_bos_overrun_witness:
  "vc4_cl_lookup_bos tiny_env sample_dev (exec_init (sample_args\<lparr>bo_handle_count := 9\<rparr>)) = None"
  by (rule vc4_cl_lookup_bos_overrun) (simp_all add: exec_init_def tiny_env_def)

text \<open>C17. A submission with more than about 128 KB of lists, well within what the size checks accept,
  panics the kernel: the temporary buffer is larger than the largest size class.\<close>

theorem vc4_get_bcl_too_large:
  assumes "2 ^ 17 + 16 < bcl_bytes (args exec)" "bcl_bytes (args exec) < 2 ^ 32"
  shows "vc4_get_bcl env fw dev exec = None"
proof -
  let ?ar = "args exec"
  let ?off = "ROUNDUP (bin_cl_size ?ar) 16"
  let ?tmp = "?off + args_shader_rec_size ?ar + uniforms_size ?ar + 8 * shader_rec_count ?ar"
  note L = bcl_layout [OF assms(2)]
  have "2 ^ 17 < unat ?tmp" unfolding L(5) using L(1) assms(1) unfolding bcl_bytes_def by linarith
  then have "kmalloc a ?tmp = None" for a
    using getorder_None [of ?tmp] by (auto simp: kmalloc_def)
  moreover have "\<not> (- 1) div 8 \<le> shader_rec_count ?ar"
  proof -
    have "8 * unat (shader_rec_count ?ar) + 16 < 2 ^ 32" using assms(2) by (simp add: bcl_bytes_def)
    then show ?thesis by (simp add: word_le_nat_alt unat_div)
  qed
  ultimately show ?thesis
    using L(1,3,4,5)
    by (simp add: vc4_get_bcl_def Let_def word_less_nat_alt [of _ ?off] word_less_nat_alt)
qed

theorem vc4_get_bcl_too_large_witness:
  "vc4_get_bcl tiny_env pool_fw pool_dev (exec_init (sample_args\<lparr>uniforms_size := 0x20000\<rparr>)) = None"
  by (rule vc4_get_bcl_too_large) (simp_all add: exec_init_def sample_args_def bcl_bytes_def)

end
