(* ===== verification/List_H.thy ===== *)
theory List_H
  imports Prelude
begin

text \<open>
  The kernel's intrusive doubly linked lists (\<^verbatim>\<open>libs/list.h\<close>). The memory is a map from addresses
  to the two links stored there; following a link that points outside of it has no outcome.

  A list is a ring through its head. \<open>ring h cs\<close> says that the entries \<open>cs\<close>, in this order, form a
  ring; rotating \<open>cs\<close> gives the same ring. The lemmas show that each operation is the obvious
  operation on the sequence of entries and touches no other entry. The other theories rely on it:
  they write a list as the sequence of its entries.
\<close>

section \<open>Operations\<close>

record list_entry =
  le_prev :: nat
  le_next :: nat

type_synonym list_heap = "nat \<rightharpoonup> list_entry"

definition put_prev :: "list_heap \<Rightarrow> nat \<Rightarrow> nat \<Rightarrow> list_heap option" where
  "put_prev h p v = map_option (\<lambda>e. h(p \<mapsto> e\<lparr>le_prev := v\<rparr>)) (h p)"

definition put_next :: "list_heap \<Rightarrow> nat \<Rightarrow> nat \<Rightarrow> list_heap option" where
  "put_next h p v = map_option (\<lambda>e. h(p \<mapsto> e\<lparr>le_next := v\<rparr>)) (h p)"

definition list_init :: "list_heap \<Rightarrow> nat \<Rightarrow> list_heap option" where
  "list_init h elm = do { h \<leftarrow> put_next h elm elm; put_prev h elm elm }"

text \<open>\<^verbatim>\<open>__list_add\<close> and \<^verbatim>\<open>__list_del\<close>\<close>

definition list_add_between :: "list_heap \<Rightarrow> nat \<Rightarrow> nat \<Rightarrow> nat \<Rightarrow> list_heap option" where
  "list_add_between h elm prev nxt = do {
     h \<leftarrow> put_prev h nxt elm;
     h \<leftarrow> put_next h prev elm;
     h \<leftarrow> put_next h elm nxt;
     put_prev h elm prev }"

definition list_del_between :: "list_heap \<Rightarrow> nat \<Rightarrow> nat \<Rightarrow> list_heap option" where
  "list_del_between h prev nxt = do { h \<leftarrow> put_next h prev nxt; put_prev h nxt prev }"

definition list_next :: "list_heap \<Rightarrow> nat \<Rightarrow> nat option" where
  "list_next h listelm = map_option le_next (h listelm)"

definition list_prev :: "list_heap \<Rightarrow> nat \<Rightarrow> nat option" where
  "list_prev h listelm = map_option le_prev (h listelm)"

definition list_add_before :: "list_heap \<Rightarrow> nat \<Rightarrow> nat \<Rightarrow> list_heap option" where
  "list_add_before h listelm elm = do { p \<leftarrow> list_prev h listelm; list_add_between h elm p listelm }"

definition list_add_after :: "list_heap \<Rightarrow> nat \<Rightarrow> nat \<Rightarrow> list_heap option" where
  "list_add_after h listelm elm = do { n \<leftarrow> list_next h listelm; list_add_between h elm listelm n }"

definition list_add :: "list_heap \<Rightarrow> nat \<Rightarrow> nat \<Rightarrow> list_heap option" where
  "list_add h listelm elm = list_add_after h listelm elm"

definition list_del :: "list_heap \<Rightarrow> nat \<Rightarrow> list_heap option" where
  "list_del h listelm = do {
     p \<leftarrow> list_prev h listelm;
     n \<leftarrow> list_next h listelm;
     list_del_between h p n }"

definition list_del_init :: "list_heap \<Rightarrow> nat \<Rightarrow> list_heap option" where
  "list_del_init h listelm = do { h \<leftarrow> list_del h listelm; list_init h listelm }"

definition list_empty :: "list_heap \<Rightarrow> nat \<Rightarrow> bool option" where
  "list_empty h list = map_option (\<lambda>n. n = list) (list_next h list)"

text \<open>The loop with which the kernel walks a list,
  \<^verbatim>\<open>while ((le = list_next(le)) != list) ...\<close>, collecting the entries it visits.\<close>

partial_function (option) list_walk :: "list_heap \<Rightarrow> nat \<Rightarrow> nat \<Rightarrow> nat list option" where
  "list_walk h list le = do {
     le \<leftarrow> list_next h le;
     if le \<noteq> list then do { rest \<leftarrow> list_walk h list le; Some (le # rest) } else Some [] }"

section \<open>Rings\<close>

definition joined :: "list_heap \<Rightarrow> nat \<Rightarrow> nat \<Rightarrow> bool" where
  "joined h p q \<longleftrightarrow> list_next h p = Some q \<and> list_prev h q = Some p"

text \<open>\<open>chain h p xs q\<close>: from \<open>p\<close> through \<open>xs\<close> to \<open>q\<close>.\<close>

fun chain :: "list_heap \<Rightarrow> nat \<Rightarrow> nat list \<Rightarrow> nat \<Rightarrow> bool" where
  "chain h p [] q \<longleftrightarrow> joined h p q"
| "chain h p (x # xs) q \<longleftrightarrow> joined h p x \<and> chain h x xs q"

fun ring :: "list_heap \<Rightarrow> nat list \<Rightarrow> bool" where
  "ring h [] \<longleftrightarrow> False"
| "ring h (x # xs) \<longleftrightarrow> distinct (x # xs) \<and> chain h x xs x"

lemma chain_append: "chain h p (xs @ y # ys) q \<longleftrightarrow> chain h p xs y \<and> chain h y ys q"
  by (induction xs arbitrary: p) auto

lemma ring_rotate: "ring h (xs @ ys) \<longleftrightarrow> ring h (ys @ xs)"
  by (cases xs; cases ys) (auto simp: chain_append)

text \<open>What the links of a chain depend on.\<close>

lemma chain_frame:
  assumes "chain h p xs q"
    and "\<And>z. z \<in> set (p # xs) \<Longrightarrow> list_next h' z = list_next h z"
    and "\<And>z. z \<in> set (xs @ [q]) \<Longrightarrow> list_prev h' z = list_prev h z"
  shows "chain h' p xs q"
  using assms by (induction xs arbitrary: p) (auto simp: joined_def)

lemma chain_valid: "chain h p xs q \<Longrightarrow> z \<in> set (p # xs) \<Longrightarrow> \<exists>e. h z = Some e"
  by (induction xs arbitrary: p) (auto simp: joined_def list_next_def)

lemma chain_valid_end: "chain h p xs q \<Longrightarrow> \<exists>e. h q = Some e"
  by (induction xs arbitrary: p) (auto simp: joined_def list_prev_def)

lemma chain_last: "chain h p xs q \<Longrightarrow> list_prev h q = Some (last (p # xs))"
  by (induction xs arbitrary: p) (auto simp: joined_def)

lemma chain_first: "chain h p xs q \<Longrightarrow> list_next h p = Some (hd (xs @ [q]))"
  by (cases xs) (auto simp: joined_def)

text \<open>The effect of the two internal functions on the links.\<close>

lemma put_links:
  "put_prev h p v = Some h' \<Longrightarrow> list_prev h' = (list_prev h)(p := Some v) \<and> list_next h' = list_next h"
  "put_next h p v = Some h' \<Longrightarrow> list_next h' = (list_next h)(p := Some v) \<and> list_prev h' = list_prev h"
  by (auto simp: put_prev_def put_next_def list_prev_def list_next_def)

lemma put_dom:
  "put_prev h p v = Some h' \<Longrightarrow> dom h' = dom h"
  "put_next h p v = Some h' \<Longrightarrow> dom h' = dom h"
  by (auto simp: put_prev_def put_next_def split: if_splits)

lemma put_defined: "p \<in> dom h \<Longrightarrow> \<exists>h'. put_prev h p v = Some h'" "p \<in> dom h \<Longrightarrow> \<exists>h'. put_next h p v = Some h'"
  by (auto simp: put_prev_def put_next_def)

lemma heap_eqI: "list_next h p = list_next h' p \<Longrightarrow> list_prev h p = list_prev h' p \<Longrightarrow> h p = h' p"
  by (cases "h p"; cases "h' p") (auto simp: list_next_def list_prev_def)

lemma list_add_between_links:
  assumes "{elm, p, n} \<subseteq> dom h"
  shows "\<exists>h'. list_add_between h elm p n = Some h' \<and> dom h' = dom h \<and>
    list_next h' = (list_next h)(p := Some elm, elm := Some n) \<and>
    list_prev h' = (list_prev h)(n := Some elm, elm := Some p)"
proof -
  obtain h1 where 1: "put_prev h n elm = Some h1" using assms put_defined(1) [of n h elm] by auto
  obtain h2 where 2: "put_next h1 p elm = Some h2"
    using assms put_dom(1) [OF 1] put_defined(2) [of p h1 elm] by auto
  obtain h3 where 3: "put_next h2 elm n = Some h3"
    using assms put_dom(1) [OF 1] put_dom(2) [OF 2] put_defined(2) [of elm h2 n] by auto
  obtain h4 where 4: "put_prev h3 elm p = Some h4"
    using assms put_dom(1) [OF 1] put_dom(2) [OF 2] put_dom(2) [OF 3] put_defined(1) [of elm h3 p] by auto
  show ?thesis
    using 1 2 3 4 put_links(1) [OF 1] put_links(2) [OF 2] put_links(2) [OF 3] put_links(1) [OF 4]
      put_dom(1) [OF 1] put_dom(2) [OF 2] put_dom(2) [OF 3] put_dom(1) [OF 4]
    by (auto simp: list_add_between_def)
qed

lemma list_del_between_links:
  assumes "{p, n} \<subseteq> dom h"
  shows "\<exists>h'. list_del_between h p n = Some h' \<and> dom h' = dom h \<and>
    list_next h' = (list_next h)(p := Some n) \<and> list_prev h' = (list_prev h)(n := Some p)"
proof -
  obtain h1 where 1: "put_next h p n = Some h1" using assms put_defined(2) [of p h n] by auto
  obtain h2 where 2: "put_prev h1 n p = Some h2"
    using assms put_dom(2) [OF 1] put_defined(1) [of n h1 p] by auto
  show ?thesis
    using 1 2 put_links(2) [OF 1] put_links(1) [OF 2] put_dom(2) [OF 1] put_dom(1) [OF 2]
    by (auto simp: list_del_between_def)
qed

lemma list_init_links:
  assumes "elm \<in> dom h"
  shows "\<exists>h'. list_init h elm = Some h' \<and> dom h' = dom h \<and>
    list_next h' = (list_next h)(elm := Some elm) \<and> list_prev h' = (list_prev h)(elm := Some elm)"
proof -
  obtain h1 where 1: "put_next h elm elm = Some h1" using assms put_defined(2) [of elm h elm] by auto
  obtain h2 where 2: "put_prev h1 elm elm = Some h2"
    using assms put_dom(2) [OF 1] put_defined(1) [of elm h1 elm] by auto
  show ?thesis
    using 1 2 put_links(2) [OF 1] put_links(1) [OF 2] put_dom(2) [OF 1] put_dom(1) [OF 2]
    by (auto simp: list_init_def)
qed

section \<open>The operations on a ring\<close>

lemma list_add_before_ring:
  assumes r: "ring h (p # xs)" and e: "elm \<in> dom h" "elm \<notin> set (p # xs)"
  shows "\<exists>h'. list_add_before h p elm = Some h' \<and> ring h' (p # xs @ [elm]) \<and> dom h' = dom h \<and>
    (\<forall>z. z \<notin> set (elm # p # xs) \<longrightarrow> h' z = h z)"
proof -
  let ?l = "last (p # xs)"
  have c: "chain h p xs p" "distinct (p # xs)" using r by auto
  have l: "?l \<in> set (p # xs)" by (rule last_in_set) simp
  have "{elm, ?l, p} \<subseteq> dom h" using e(1) chain_valid [OF c(1)] l by auto
  from list_add_between_links [OF this] obtain h' where
    h': "list_add_between h elm ?l p = Some h'" "dom h' = dom h"
      "list_next h' = (list_next h)(?l := Some elm, elm := Some p)"
      "list_prev h' = (list_prev h)(p := Some elm, elm := Some ?l)" by auto
  have chain: "chain h' p (xs @ [elm]) p"
  proof (cases xs rule: rev_cases)
    case Nil
    then show ?thesis using e(2) h'(3,4) by (auto simp: joined_def)
  next
    case (snoc ys y)
    then have "chain h p ys y" using c(1) by (simp add: chain_append)
    then have "chain h' p ys y"
      by (rule chain_frame) (use snoc e(2) c(2) h'(3,4) in auto)
    then show ?thesis using snoc e(2) c(2) h'(3,4) by (auto simp: chain_append joined_def)
  qed
  have "h' z = h z" if "z \<notin> set (elm # p # xs)" for z
    using that l h'(3,4) by (intro heap_eqI) auto
  then show ?thesis
    using h'(1,2) chain c(2) e(2) chain_last [OF c(1)] by (auto simp: list_add_before_def)
qed

lemma list_add_after_before:
  assumes "ring h (p # xs)"
  shows "list_add_after h p elm = list_add_before h (hd (xs @ [p])) elm"
proof -
  have c: "chain h p xs p" using assms by simp
  have "list_prev h (hd (xs @ [p])) = Some p" using c by (cases xs) (auto simp: joined_def)
  then show ?thesis
    using chain_first [OF c] by (simp add: list_add_after_def list_add_before_def)
qed

lemma list_add_after_ring:
  assumes r: "ring h (p # xs)" and e: "elm \<in> dom h" "elm \<notin> set (p # xs)"
  shows "\<exists>h'. list_add_after h p elm = Some h' \<and> ring h' (p # elm # xs) \<and> dom h' = dom h \<and>
    (\<forall>z. z \<notin> set (elm # p # xs) \<longrightarrow> h' z = h z)"
proof (cases xs)
  case Nil
  then show ?thesis
    using list_add_before_ring [OF assms] list_add_after_before [OF r, of elm] by simp
next
  case (Cons y ys)
  have "ring h (y # ys @ [p])" using r ring_rotate [of h "[p]" "y # ys"] Cons by simp
  from list_add_before_ring [OF this e(1)] obtain h' where
    h': "list_add_before h y elm = Some h'" "ring h' ((y # ys) @ [p, elm])" "dom h' = dom h"
      "\<forall>z. z \<notin> set (elm # y # ys @ [p]) \<longrightarrow> h' z = h z" using e(2) Cons by auto
  have "ring h' (p # elm # xs)" using h'(2) ring_rotate [of h' "y # ys" "[p, elm]"] Cons by simp
  then show ?thesis
    using h'(1,3,4) list_add_after_before [OF r, of elm] Cons by auto
qed

lemma list_del_ring:
  assumes r: "ring h (p # xs)" and ne: "xs \<noteq> []"
  shows "\<exists>h'. list_del h p = Some h' \<and> ring h' xs \<and> dom h' = dom h \<and>
    (\<forall>z. z \<notin> set xs \<longrightarrow> h' z = h z)"
proof -
  obtain x ys where xs: "xs = x # ys" using ne by (cases xs) auto
  let ?l = "last xs"
  have c: "chain h x ys p" "distinct (p # x # ys)" "joined h p x" using r by (auto simp: xs)
  have l: "?l \<in> set xs" using ne by (rule last_in_set)
  have "{?l, x} \<subseteq> dom h" using chain_valid [OF c(1)] l by (auto simp: xs)
  from list_del_between_links [OF this] obtain h' where
    h': "list_del_between h ?l x = Some h'" "dom h' = dom h"
      "list_next h' = (list_next h)(?l := Some x)" "list_prev h' = (list_prev h)(x := Some ?l)" by auto
  have "chain h' x ys x"
  proof (cases ys rule: rev_cases)
    case Nil
    then show ?thesis using h'(3,4) by (simp add: joined_def xs)
  next
    case (snoc zs z)
    then have "chain h x zs z" using c(1) by (simp add: chain_append)
    then have "chain h' x zs z"
      by (rule chain_frame) (use snoc c(2) h'(3,4) xs in auto)
    then show ?thesis using snoc h'(3,4) by (auto simp: chain_append joined_def xs)
  qed
  moreover have "h' z = h z" if "z \<notin> set xs" for z
    using that l xs h'(3,4) by (intro heap_eqI) auto
  ultimately show ?thesis
    using h'(1,2) c chain_last [OF c(1)] by (auto simp: list_del_def joined_def xs)
qed

lemma list_del_init_ring:
  assumes r: "ring h (p # xs)" and ne: "xs \<noteq> []"
  shows "\<exists>h'. list_del_init h p = Some h' \<and> ring h' xs \<and> ring h' [p] \<and> dom h' = dom h \<and>
    (\<forall>z. z \<notin> set (p # xs) \<longrightarrow> h' z = h z)"
proof -
  obtain h1 where h1: "list_del h p = Some h1" "ring h1 xs" "dom h1 = dom h" "\<forall>z. z \<notin> set xs \<longrightarrow> h1 z = h z"
    using list_del_ring [OF assms] by blast
  have p: "p \<in> dom h" "p \<notin> set xs" using r chain_valid [of h p xs p p] by auto
  obtain h2 where h2: "list_init h1 p = Some h2" "dom h2 = dom h1"
      "list_next h2 = (list_next h1)(p := Some p)" "list_prev h2 = (list_prev h1)(p := Some p)"
    using list_init_links [of p h1] p(1) h1(3) by auto
  obtain y ys where xs: "xs = y # ys" using ne by (cases xs) auto
  have "chain h2 y ys y"
    by (rule chain_frame [of h1]) (use h1(2) p(2) h2(3,4) xs in auto)
  moreover have "h2 z = h z" if "z \<notin> set (p # xs)" for z
  proof -
    have "h2 z = h1 z" using that h2(3,4) by (intro heap_eqI) auto
    then show ?thesis using that h1(4) by auto
  qed
  ultimately show ?thesis
    using h1 h2 xs by (auto simp: list_del_init_def joined_def)
qed

lemma list_walk_chain: "chain h p xs q \<Longrightarrow> q \<notin> set xs \<Longrightarrow> list_walk h q p = Some xs"
proof (induction xs arbitrary: p)
  case Nil
  then show ?case by (subst list_walk.simps) (simp add: joined_def)
next
  case (Cons x xs)
  then show ?case by (subst list_walk.simps) (auto simp: joined_def)
qed

lemma list_empty_ring: "ring h (p # xs) \<Longrightarrow> list_empty h p = Some (xs = [])"
  by (cases xs) (auto simp: list_empty_def joined_def)

section \<open>Queues\<close>

text \<open>
  Run queues, wait queues and the timer list are lists that grow at the tail. The contract of
  such a queue: \<open>rep h l xs\<close> is that the list with head \<open>l\<close> holds the entries \<open>xs\<close>.
\<close>

locale tail_queue =
  fixes rep :: "'h \<Rightarrow> nat \<Rightarrow> nat list \<Rightarrow> bool"
    and usable :: "'h \<Rightarrow> nat set"
    and add_tail :: "'h \<Rightarrow> nat \<Rightarrow> nat \<Rightarrow> 'h option"
    and remove :: "'h \<Rightarrow> nat \<Rightarrow> 'h option"
    and walk :: "'h \<Rightarrow> nat \<Rightarrow> nat list option"
  assumes add_tail: "rep h l xs \<Longrightarrow> e \<in> usable h \<Longrightarrow> e \<notin> set (l # xs) \<Longrightarrow>
      \<exists>h'. add_tail h l e = Some h' \<and> rep h' l (xs @ [e]) \<and> usable h' = usable h"
    and remove: "rep h l (xs @ e # ys) \<Longrightarrow>
      \<exists>h'. remove h e = Some h' \<and> rep h' l (xs @ ys) \<and> usable h' = usable h"
    and walk: "rep h l xs \<Longrightarrow> walk h l = Some xs"
begin

lemma add_all:
  assumes "rep h l xs" "set es \<subseteq> usable h" "distinct es" "set es \<inter> set (l # xs) = {}"
  shows "\<exists>h'. foldl (\<lambda>s e. Option.bind s (\<lambda>h. add_tail h l e)) (Some h) es = Some h' \<and>
    rep h' l (xs @ es)"
  using assms
proof (induction es arbitrary: h xs)
  case (Cons e es)
  then obtain h1 where h1: "add_tail h l e = Some h1" "rep h1 l (xs @ [e])" "usable h1 = usable h"
    using add_tail [of h l xs e] by auto
  then show ?case using Cons.IH [of h1 "xs @ [e]"] Cons.prems by auto
qed auto

text \<open>First in, first out.\<close>

lemma fifo:
  assumes "rep h l []" "set (e # es) \<subseteq> usable h" "distinct (e # es)" "l \<notin> set (e # es)"
  shows "\<exists>h1 h2. foldl (\<lambda>s e. Option.bind s (\<lambda>h. add_tail h l e)) (Some h) (e # es) = Some h1 \<and>
    walk h1 l = Some (e # es) \<and> remove h1 e = Some h2 \<and> walk h2 l = Some es"
proof -
  obtain h1 where h1: "foldl (\<lambda>s e. Option.bind s (\<lambda>h. add_tail h l e)) (Some h) (e # es) = Some h1"
    "rep h1 l (e # es)"
    using add_all [OF assms(1-3)] assms(4) by auto
  then obtain h2 where "remove h1 e = Some h2" "rep h2 l es"
    using remove [of h1 l "[]" e es] by auto
  then show ?thesis using h1 walk by blast
qed

end

lemma ring_remove:
  assumes "ring h (l # xs @ e # ys)"
  shows "\<exists>h'. list_del_init h e = Some h' \<and> ring h' (l # xs @ ys) \<and> ring h' [e] \<and> dom h' = dom h \<and>
    (\<forall>z. z \<notin> set (l # xs @ e # ys) \<longrightarrow> h' z = h z)"
proof -
  have "ring h (e # (ys @ l # xs))" using assms ring_rotate [of h "l # xs" "e # ys"] by simp
  from list_del_init_ring [OF this] obtain h' where
    "list_del_init h e = Some h'" "ring h' (ys @ l # xs)" "ring h' [e]" "dom h' = dom h"
    "\<forall>z. z \<notin> set (e # ys @ l # xs) \<longrightarrow> h' z = h z" by blast
  then show ?thesis using ring_rotate [of h' ys "l # xs"] by auto
qed

lemma ring_walk: "ring h (l # xs) \<Longrightarrow> list_walk h l l = Some xs"
  using list_walk_chain [of h l xs l] by auto

interpretation ring_queue: tail_queue "\<lambda>h l xs. ring h (l # xs)" dom list_add_before list_del_init
  "\<lambda>h l. list_walk h l l"
proof
  fix h l xs e
  assume "ring h (l # xs)" "e \<in> dom h" "e \<notin> set (l # xs)"
  then show "\<exists>h'. list_add_before h l e = Some h' \<and> ring h' (l # xs @ [e]) \<and> dom h' = dom h"
    using list_add_before_ring by blast
next
  fix h l xs e ys
  assume "ring h (l # xs @ e # ys)"
  then show "\<exists>h'. list_del_init h e = Some h' \<and> ring h' (l # xs @ ys) \<and> dom h' = dom h"
    using ring_remove by blast
qed (rule ring_walk)

section \<open>Properties\<close>

text \<open>C19. Insertion before and after any entry of a list is insertion into the sequence of its entries
  at that place, and no entry outside of the list is touched.\<close>

theorem list_insert_refines:
  assumes "ring h (xs @ p # ys)" "elm \<in> dom h" "elm \<notin> set (xs @ p # ys)"
  shows "(\<exists>h'. list_add_before h p elm = Some h' \<and> ring h' (xs @ elm # p # ys) \<and>
      (\<forall>z. z \<notin> set (elm # xs @ p # ys) \<longrightarrow> h' z = h z)) \<and>
    (\<exists>h'. list_add_after h p elm = Some h' \<and> ring h' (xs @ p # elm # ys) \<and>
      (\<forall>z. z \<notin> set (elm # xs @ p # ys) \<longrightarrow> h' z = h z))"
proof -
  have r: "ring h (p # ys @ xs)" using assms(1) ring_rotate [of h xs "p # ys"] by simp
  obtain h1 where "list_add_before h p elm = Some h1" "ring h1 ((p # ys) @ xs @ [elm])"
    "\<forall>z. z \<notin> set (elm # xs @ p # ys) \<longrightarrow> h1 z = h z"
    using list_add_before_ring [OF r assms(2)] assms(3) by auto
  moreover obtain h2 where "list_add_after h p elm = Some h2" "ring h2 ((p # elm # ys) @ xs)"
    "\<forall>z. z \<notin> set (elm # xs @ p # ys) \<longrightarrow> h2 z = h z"
    using list_add_after_ring [OF r assms(2)] assms(3) by auto
  ultimately show ?thesis
    using ring_rotate [of h1 "p # ys" "xs @ [elm]"] ring_rotate [of h2 "p # elm # ys" xs] by auto
qed

text \<open>A memory with a list of two entries (2 and 3, head 1) and a fresh entry 4.\<close>

definition sample_heap :: list_heap where
  "sample_heap = [1 \<mapsto> \<lparr>le_prev = 3, le_next = 2\<rparr>, 2 \<mapsto> \<lparr>le_prev = 1, le_next = 3\<rparr>,
     3 \<mapsto> \<lparr>le_prev = 2, le_next = 1\<rparr>, 4 \<mapsto> \<lparr>le_prev = 4, le_next = 4\<rparr>]"

lemma sample_heap_ring: "ring sample_heap [1, 2, 3]"
  by (simp add: sample_heap_def joined_def list_next_def list_prev_def)

theorem list_insert_refines_witness:
  "(\<exists>h'. list_add_before sample_heap 2 4 = Some h' \<and> ring h' [1, 4, 2, 3]) \<and>
   (\<exists>h'. list_add_after sample_heap 2 4 = Some h' \<and> ring h' [1, 2, 4, 3])"
proof -
  have "4 \<in> dom sample_heap" by (simp add: sample_heap_def)
  then show ?thesis
    using list_insert_refines [of sample_heap "[1]" 2 "[3]" 4] sample_heap_ring by simp blast
qed

text \<open>C20. Removing an entry removes it from the sequence, leaves it as an empty list of its own, touches
  nothing outside of the list, and the loop that walks the list from its head ends after visiting
  the remaining entries once each, in order.\<close>

theorem list_remove_refines:
  assumes "ring h (l # xs @ e # ys)"
  shows "\<exists>h'. list_del_init h e = Some h' \<and> ring h' (l # xs @ ys) \<and> list_empty h' e = Some True \<and>
    list_walk h' l l = Some (xs @ ys) \<and> (\<forall>z. z \<notin> set (l # xs @ e # ys) \<longrightarrow> h' z = h z)"
proof -
  obtain h' where h': "list_del_init h e = Some h'" "ring h' (l # xs @ ys)" "ring h' [e]"
    "\<forall>z. z \<notin> set (l # xs @ e # ys) \<longrightarrow> h' z = h z"
    using ring_remove [OF assms] by blast
  then show ?thesis using ring_walk [OF h'(2)] list_empty_ring [OF h'(3)] by auto
qed

theorem list_remove_refines_witness:
  "\<exists>h'. list_del_init sample_heap 2 = Some h' \<and> list_walk h' 1 1 = Some [3] \<and> h' 4 = sample_heap 4"
  using list_remove_refines [of sample_heap 1 "[]" 2 "[3]"] sample_heap_ring by auto

end
