(* ===== verification/Pipe.thy ===== *)
theory Pipe
  imports Slab
begin

text \<open>
  Pipes (\<^verbatim>\<open>fs/pipe/pipe_state.c\<close>): a ring buffer shared by any number of readers and writers.

  The semaphore of a pipe makes everything between \<^verbatim>\<open>lock_state\<close> and \<^verbatim>\<open>unlock_state\<close> one atomic
  section; \<open>pipe_read_section\<close> and \<open>pipe_write_section\<close> are these sections. A call that has to wait
  leaves its section, enters the wait queue in a second step, and starts over when it is woken.
  The relation \<open>pipe_step\<close> interleaves the steps of all processes; two ghost fields collect the
  bytes ever written and ever read.

  Positions are signed 32-bit numbers (\<^verbatim>\<open>off_t\<close> on ARM); incrementing the largest one has no
  outcome.
\<close>

section \<open>The ring buffer\<close>

text \<open>\<^verbatim>\<open>struct pipe_state\<close> takes 72 bytes of the page on the 32-bit build.\<close>

definition PIPE_BUFSIZE :: nat where
  "PIPE_BUFSIZE = 4096 - 72"

record pipe_state =
  p_rpos :: int
  p_wpos :: int
  pipe_buf :: "u8 list"
  isclosed :: bool
  ref_count :: int
  reader_queue :: "nat list"
  writer_queue :: "nat list"

text \<open>Fresh memory has arbitrary contents \<open>fresh\<close>.\<close>

definition pipe_state_create :: "bool \<Rightarrow> (nat \<Rightarrow> u8) \<Rightarrow> pipe_state option option" where
  "pipe_state_create avail fresh = do {
     p \<leftarrow> kmalloc avail 4096;
     Some (map_option (\<lambda>_. \<lparr>p_rpos = 0, p_wpos = 0, pipe_buf = map fresh [0..<PIPE_BUFSIZE],
       isclosed = False, ref_count = 1, reader_queue = [], writer_queue = []\<rparr>) p) }"

definition is_empty :: "pipe_state \<Rightarrow> bool" where
  "is_empty state \<longleftrightarrow> p_rpos state = p_wpos state"

text \<open>The difference is converted to \<^verbatim>\<open>size_t\<close> before it is compared.\<close>

definition is_full :: "pipe_state \<Rightarrow> bool" where
  "is_full state \<longleftrightarrow> PIPE_BUFSIZE \<le> unat (of_int (p_wpos state - p_rpos state) :: u32)"

definition pipe_index :: "int \<Rightarrow> nat" where
  "pipe_index pos = unat (of_int pos :: u32) mod PIPE_BUFSIZE"

definition off_inc :: "int \<Rightarrow> int option" where
  "off_inc pos = (if pos < 2 ^ 31 - 1 then Some (pos + 1) else None)"

text \<open>One iteration of the loops. The inner \<open>None\<close> is the exit of the loop at an empty or full
  buffer.\<close>

definition get_byte :: "pipe_state \<Rightarrow> (u8 \<times> pipe_state) option option" where
  "get_byte state =
     (if is_empty state then Some None
      else do {
        b \<leftarrow> load8 (pipe_buf state) (pipe_index (p_rpos state));
        r \<leftarrow> off_inc (p_rpos state);
        Some (Some (b, state\<lparr>p_rpos := r\<rparr>)) })"

definition put_byte :: "pipe_state \<Rightarrow> u8 \<Rightarrow> pipe_state option option" where
  "put_byte state b =
     (if is_full state then Some None
      else do {
        buf \<leftarrow> store8 (pipe_buf state) (pipe_index (p_wpos state)) b;
        w \<leftarrow> off_inc (p_wpos state);
        Some (Some (state\<lparr>pipe_buf := buf, p_wpos := w\<rparr>)) })"

primrec drain :: "('s \<Rightarrow> ('b \<times> 's) option option) \<Rightarrow> nat \<Rightarrow> 's \<Rightarrow> ('b list \<times> 's) option" where
  "drain get 0 s = Some ([], s)"
| "drain get (Suc k) s = do {
     x \<leftarrow> get s;
     (case x of
        None \<Rightarrow> Some ([], s)
      | Some (b, s) \<Rightarrow> do { (bs, s) \<leftarrow> drain get k s; Some (b # bs, s) }) }"

text \<open>The first component of the result is what was not stored.\<close>

primrec fill :: "('s \<Rightarrow> 'b \<Rightarrow> 's option option) \<Rightarrow> 'b list \<Rightarrow> 's \<Rightarrow> ('b list \<times> 's) option" where
  "fill put [] s = Some ([], s)"
| "fill put (b # bs) s = do {
     x \<leftarrow> put s b;
     (case x of None \<Rightarrow> Some (b # bs, s) | Some s \<Rightarrow> fill put bs s) }"

section \<open>The operations\<close>

text \<open>Waking a queue empties it.\<close>

definition wakeup_reader :: "pipe_state \<Rightarrow> pipe_state" where
  "wakeup_reader state = state\<lparr>reader_queue := []\<rparr>"

definition wakeup_writer :: "pipe_state \<Rightarrow> pipe_state" where
  "wakeup_writer state = state\<lparr>writer_queue := []\<rparr>"

definition pipe_state_acquire :: "pipe_state \<Rightarrow> pipe_state option" where
  "pipe_state_acquire state = do {
     cassert (0 < ref_count state);
     Some (state\<lparr>ref_count := ref_count state + 1\<rparr>) }"

text \<open>The inner \<open>None\<close> is the released state.\<close>

definition pipe_state_release :: "pipe_state \<Rightarrow> pipe_state option option" where
  "pipe_state_release state = do {
     cassert (0 < ref_count state);
     let state = state\<lparr>ref_count := ref_count state - 1\<rparr>;
     if ref_count state = 0 then do {
       cassert (reader_queue state = []);
       cassert (writer_queue state = []);
       Some None }
     else Some (Some state) }"

definition pipe_state_close :: "pipe_state \<Rightarrow> pipe_state option" where
  "pipe_state_close state = do {
     cassert (0 < ref_count state);
     Some (wakeup_writer (wakeup_reader (state\<lparr>isclosed := True\<rparr>))) }"

definition pipe_state_size :: "pipe_state \<Rightarrow> bool \<Rightarrow> u32" where
  "pipe_state_size state write =
     (let sz = of_int (p_wpos state - p_rpos state) :: u32 in
      if write then if isclosed state then 0 else of_nat PIPE_BUFSIZE - sz
      else sz)"

datatype read_outcome = ReadDone "u8 list" | ReadWait

definition pipe_read_section :: "pipe_state \<Rightarrow> u32 \<Rightarrow> (read_outcome \<times> pipe_state) option" where
  "pipe_read_section state n =
     (if is_empty state then
        if isclosed state then Some (ReadDone [], state) else Some (ReadWait, state)
      else do {
        (bs, state) \<leftarrow> drain get_byte (unat n) state;
        Some (ReadDone bs, if bs \<noteq> [] then wakeup_writer state else state) })"

text \<open>\<open>bs\<close> is what is left to write; both outcomes say what is left then.\<close>

datatype write_outcome = WriteDone "u8 list" | WriteWait "u8 list"

definition pipe_write_section :: "pipe_state \<Rightarrow> u8 list \<Rightarrow> (write_outcome \<times> pipe_state) option" where
  "pipe_write_section state bs =
     (if isclosed state then Some (WriteDone bs, state)
      else do {
        (left, state) \<leftarrow> fill put_byte bs state;
        if left \<noteq> [] then Some (WriteWait left, wakeup_reader state)
        else Some (WriteDone [], if bs \<noteq> [] then wakeup_reader state else state) })"

section \<open>Readers and writers\<close>

text \<open>What a process does with the pipe: nothing, a call about to take the lock, a call that has
  released the lock in order to wait but is not in the queue yet, a call that sleeps.\<close>

datatype pipe_proc =
    Idle
  | Reading u32 | ReadGap u32 | ReadSleep u32
  | Writing "u8 list" | WriteGap "u8 list" | WriteSleep "u8 list"

record pipe_system =
  sys_pipe :: pipe_state
  sys_procs :: "nat \<Rightarrow> pipe_proc"
  sys_in :: "u8 list"
  sys_out :: "u8 list"

inductive pipe_step :: "pipe_system \<Rightarrow> pipe_system \<Rightarrow> bool" where
  call_read: "sys_procs s p = Idle \<Longrightarrow>
    pipe_step s (s\<lparr>sys_procs := (sys_procs s)(p := Reading n)\<rparr>)"
| read_done: "sys_procs s p = Reading n \<Longrightarrow>
    pipe_read_section (sys_pipe s) n = Some (ReadDone bs, state) \<Longrightarrow>
    pipe_step s (s\<lparr>sys_pipe := state, sys_procs := (sys_procs s)(p := Idle), sys_out := sys_out s @ bs\<rparr>)"
| read_wait: "sys_procs s p = Reading n \<Longrightarrow>
    pipe_read_section (sys_pipe s) n = Some (ReadWait, state) \<Longrightarrow>
    pipe_step s (s\<lparr>sys_pipe := state, sys_procs := (sys_procs s)(p := ReadGap n)\<rparr>)"
| read_sleep: "sys_procs s p = ReadGap n \<Longrightarrow>
    pipe_step s (s\<lparr>sys_pipe := (sys_pipe s)\<lparr>reader_queue := reader_queue (sys_pipe s) @ [p]\<rparr>,
      sys_procs := (sys_procs s)(p := ReadSleep n)\<rparr>)"
| read_woken: "sys_procs s p = ReadSleep n \<Longrightarrow> p \<notin> set (reader_queue (sys_pipe s)) \<Longrightarrow>
    pipe_step s (s\<lparr>sys_procs := (sys_procs s)(p := Reading n)\<rparr>)"
| read_intr: "sys_procs s p = ReadSleep n \<Longrightarrow> p \<in> set (reader_queue (sys_pipe s)) \<Longrightarrow>
    pipe_step s (s\<lparr>sys_pipe := (sys_pipe s)\<lparr>reader_queue := remove1 p (reader_queue (sys_pipe s))\<rparr>,
      sys_procs := (sys_procs s)(p := Idle)\<rparr>)"
| call_write: "sys_procs s p = Idle \<Longrightarrow>
    pipe_step s (s\<lparr>sys_procs := (sys_procs s)(p := Writing bs)\<rparr>)"
| write_done: "sys_procs s p = Writing bs \<Longrightarrow>
    pipe_write_section (sys_pipe s) bs = Some (WriteDone left, state) \<Longrightarrow>
    pipe_step s (s\<lparr>sys_pipe := state, sys_procs := (sys_procs s)(p := Idle),
      sys_in := sys_in s @ take (length bs - length left) bs\<rparr>)"
| write_wait: "sys_procs s p = Writing bs \<Longrightarrow>
    pipe_write_section (sys_pipe s) bs = Some (WriteWait left, state) \<Longrightarrow>
    pipe_step s (s\<lparr>sys_pipe := state, sys_procs := (sys_procs s)(p := WriteGap left),
      sys_in := sys_in s @ take (length bs - length left) bs\<rparr>)"
| write_sleep: "sys_procs s p = WriteGap bs \<Longrightarrow>
    pipe_step s (s\<lparr>sys_pipe := (sys_pipe s)\<lparr>writer_queue := writer_queue (sys_pipe s) @ [p]\<rparr>,
      sys_procs := (sys_procs s)(p := WriteSleep bs)\<rparr>)"
| write_woken: "sys_procs s p = WriteSleep bs \<Longrightarrow> p \<notin> set (writer_queue (sys_pipe s)) \<Longrightarrow>
    pipe_step s (s\<lparr>sys_procs := (sys_procs s)(p := Writing bs)\<rparr>)"
| write_intr: "sys_procs s p = WriteSleep bs \<Longrightarrow> p \<in> set (writer_queue (sys_pipe s)) \<Longrightarrow>
    pipe_step s (s\<lparr>sys_pipe := (sys_pipe s)\<lparr>writer_queue := remove1 p (writer_queue (sys_pipe s))\<rparr>,
      sys_procs := (sys_procs s)(p := Idle)\<rparr>)"
| close: "pipe_state_close (sys_pipe s) = Some state \<Longrightarrow> pipe_step s (s\<lparr>sys_pipe := state\<rparr>)"

definition pipe_start :: "pipe_state \<Rightarrow> pipe_system" where
  "pipe_start state = \<lparr>sys_pipe = state, sys_procs = (\<lambda>_. Idle), sys_in = [], sys_out = []\<rparr>"

section \<open>A bounded first-in-first-out buffer\<close>

text \<open>The contract of the two single-byte operations, and what it means for the loops.\<close>

locale bounded_fifo =
  fixes inv :: "'s \<Rightarrow> bool" and contents :: "'s \<Rightarrow> 'b list" and cap :: nat
    and get :: "'s \<Rightarrow> ('b \<times> 's) option option" and put :: "'s \<Rightarrow> 'b \<Rightarrow> 's option option"
  assumes get: "inv s \<Longrightarrow> ensures (get s) (\<lambda>r. case r of None \<Rightarrow> contents s = []
      | Some (b, s') \<Rightarrow> inv s' \<and> contents s = b # contents s')"
    and put: "inv s \<Longrightarrow> ensures (put s b) (\<lambda>r. case r of None \<Rightarrow> cap \<le> length (contents s)
      | Some s' \<Rightarrow> inv s' \<and> contents s' = contents s @ [b])"
    and cap: "inv s \<Longrightarrow> length (contents s) \<le> cap"
begin

lemma drain_fifo:
  "inv s \<Longrightarrow> ensures (drain get k s) (\<lambda>(bs, s'). inv s' \<and> contents s = bs @ contents s' \<and>
     length bs = min k (length (contents s)))"
proof (induction k arbitrary: s)
  case (Suc k)
  show ?case
    unfolding drain.simps ensures_simps
    by (rule ensures_mono [OF get [OF Suc.prems]])
      (use Suc.prems in \<open>auto split: option.splits intro!: ensures_mono [OF Suc.IH]\<close>)
qed simp

lemma fill_fifo:
  "inv s \<Longrightarrow> ensures (fill put bs s) (\<lambda>(left, s'). inv s' \<and>
     (\<exists>ws. bs = ws @ left \<and> contents s' = contents s @ ws) \<and>
     (left \<noteq> [] \<longrightarrow> length (contents s') = cap))"
proof (induction bs arbitrary: s)
  case (Cons b bs)
  show ?case
    unfolding fill.simps ensures_simps
  proof (rule ensures_mono [OF put [OF Cons.prems]])
    fix x
    assume x: "case x of None \<Rightarrow> cap \<le> length (contents s)
      | Some s' \<Rightarrow> inv s' \<and> contents s' = contents s @ [b]"
    show "ensures (case x of None \<Rightarrow> Some (b # bs, s) | Some s \<Rightarrow> fill put bs s)
      (\<lambda>(left, s'). inv s' \<and> (\<exists>ws. b # bs = ws @ left \<and> contents s' = contents s @ ws) \<and>
        (left \<noteq> [] \<longrightarrow> length (contents s') = cap))"
    proof (cases x)
      case None
      then show ?thesis using x Cons.prems cap [OF Cons.prems] by simp
    next
      case (Some s')
      then have s': "inv s'" "contents s' = contents s @ [b]" using x by auto
      show ?thesis unfolding Some option.case
        by (rule ensures_mono [OF Cons.IH [OF s'(1)]]) (auto simp: s'(2))
    qed
  qed
qed simp

end

text \<open>A buffer whose operations are moreover defined while a budget lasts.\<close>

locale budgeted_fifo = bounded_fifo inv contents cap get put
  for inv :: "'s \<Rightarrow> bool" and contents :: "'s \<Rightarrow> 'b list" and cap get put +
  fixes budget :: "'s \<Rightarrow> nat"
  assumes get_defined: "inv s \<Longrightarrow> \<exists>r. get s = Some r \<and>
      (\<forall>b s'. r = Some (b, s') \<longrightarrow> budget s' = budget s)"
    and put_defined: "inv s \<Longrightarrow> 0 < budget s \<Longrightarrow> \<exists>r. put s b = Some r \<and>
      (\<forall>s'. r = Some s' \<longrightarrow> budget s' = budget s - 1)"
begin

lemma drain_defined: "inv s \<Longrightarrow> drain get k s \<noteq> None"
proof (induction k arbitrary: s)
  case (Suc k)
  obtain r where r: "get s = Some r" using get_defined [OF Suc.prems] by blast
  show ?case
  proof (cases r)
    case (Some x)
    then obtain b s' where "r = Some (b, s')" by (cases x) auto
    moreover from this have "inv s'" using ensuresD [OF get [OF Suc.prems] r] by simp
    ultimately show ?thesis using Suc.IH [of s'] r by auto
  qed (simp add: r)
qed simp

lemma fill_defined: "inv s \<Longrightarrow> length bs \<le> budget s \<Longrightarrow> fill put bs s \<noteq> None"
proof (induction bs arbitrary: s)
  case (Cons b bs)
  obtain r where r: "put s b = Some r" "\<forall>s'. r = Some s' \<longrightarrow> budget s' = budget s - 1"
    using put_defined [OF Cons.prems(1)] Cons.prems(2) by (metis length_Cons Suc_le_lessD zero_less_Suc order_less_le_trans)
  show ?case
  proof (cases r)
    case (Some s')
    then have "inv s'" using ensuresD [OF put [OF Cons.prems(1)] r(1)] by simp
    then show ?thesis using Cons.IH [of s'] Cons.prems(2) r Some by auto
  qed (simp add: r)
qed simp

end

section \<open>The ring buffer is such a buffer\<close>

definition pipe_contents :: "pipe_state \<Rightarrow> u8 list" where
  "pipe_contents state =
     map (\<lambda>i. pipe_buf state ! (i mod PIPE_BUFSIZE)) [nat (p_rpos state)..<nat (p_wpos state)]"

definition pipe_ok :: "pipe_state \<Rightarrow> bool" where
  "pipe_ok state \<longleftrightarrow> length (pipe_buf state) = PIPE_BUFSIZE \<and> 0 \<le> p_rpos state \<and>
     p_rpos state \<le> p_wpos state \<and> p_wpos state < 2 ^ 31 \<and>
     p_wpos state - p_rpos state \<le> int PIPE_BUFSIZE"

lemma PIPE_BUFSIZE_bounds: "0 < PIPE_BUFSIZE" "PIPE_BUFSIZE < 2 ^ 31"
  by (simp_all add: PIPE_BUFSIZE_def)

lemma unat_of_int_u32: "0 \<le> x \<Longrightarrow> x < 2 ^ 32 \<Longrightarrow> unat (of_int x :: u32) = nat x"
  by (simp add: unat_eq_nat_uint uint_word_of_int_eq take_bit_int_eq_self)

lemma pipe_index_nat: "0 \<le> pos \<Longrightarrow> pos < 2 ^ 31 \<Longrightarrow> pipe_index pos = nat pos mod PIPE_BUFSIZE"
  by (simp add: pipe_index_def unat_of_int_u32)

lemma is_full_pipe_ok:
  assumes "pipe_ok state"
  shows "is_full state \<longleftrightarrow> p_wpos state - p_rpos state = int PIPE_BUFSIZE"
proof -
  have "0 \<le> p_wpos state - p_rpos state" "p_wpos state - p_rpos state \<le> int PIPE_BUFSIZE"
    using assms by (auto simp: pipe_ok_def)
  moreover from this have "p_wpos state - p_rpos state < 2 ^ 32" by (simp add: PIPE_BUFSIZE_def)
  ultimately show ?thesis
    unfolding is_full_def by (subst unat_of_int_u32) auto
qed

lemma length_pipe_contents: "pipe_ok state \<Longrightarrow>
    int (length (pipe_contents state)) = p_wpos state - p_rpos state"
  by (auto simp: pipe_contents_def pipe_ok_def nat_le_iff of_nat_diff)

lemma mod_distinct:
  assumes "i < w" "w - i < b"
  shows "i mod b \<noteq> w mod (b :: nat)"
proof
  assume "i mod b = w mod b"
  then have "b dvd w - i" using mod_eq_dvd_iff_nat [of i w b] assms(1) by simp
  then show False using assms dvd_imp_le [of b "w - i"] by simp
qed

lemma store8_update: "i < length buf \<Longrightarrow> store8 buf i b = Some (buf[i := b])"
  by (simp add: store8_def store_bytes_def upd_conv_take_nth_drop)

lemma get_byte_ok:
  assumes "pipe_ok state" "\<not> is_empty state"
  obtains b where "get_byte state = Some (Some (b, state\<lparr>p_rpos := p_rpos state + 1\<rparr>))"
    "pipe_ok (state\<lparr>p_rpos := p_rpos state + 1\<rparr>)"
    "pipe_contents state = b # pipe_contents (state\<lparr>p_rpos := p_rpos state + 1\<rparr>)"
proof
  define i where "i = nat (p_rpos state)"
  have ok: "length (pipe_buf state) = PIPE_BUFSIZE" "0 \<le> p_rpos state" "p_rpos state < p_wpos state"
    "p_wpos state < 2 ^ 31" using assms by (auto simp: pipe_ok_def is_empty_def)
  then have "pipe_index (p_rpos state) = i mod PIPE_BUFSIZE" by (simp add: pipe_index_nat i_def)
  then show "get_byte state = Some (Some (pipe_buf state ! (i mod PIPE_BUFSIZE),
      state\<lparr>p_rpos := p_rpos state + 1\<rparr>))"
    using ok assms(2) PIPE_BUFSIZE_bounds by (simp add: get_byte_def load8_def off_inc_def)
  show "pipe_ok (state\<lparr>p_rpos := p_rpos state + 1\<rparr>)"
    using assms ok by (simp add: pipe_ok_def)
  have "i < nat (p_wpos state)" "nat (p_rpos state + 1) = Suc i" using ok by (auto simp: i_def)
  then show "pipe_contents state =
      pipe_buf state ! (i mod PIPE_BUFSIZE) # pipe_contents (state\<lparr>p_rpos := p_rpos state + 1\<rparr>)"
    by (simp add: pipe_contents_def i_def [symmetric] upt_conv_Cons)
qed

lemma put_byte_ok:
  assumes "pipe_ok state" "\<not> is_full state" "p_wpos state < 2 ^ 31 - 1"
  obtains state' where "put_byte state b = Some (Some state')" "pipe_ok state'"
    "pipe_contents state' = pipe_contents state @ [b]" "p_wpos state' = p_wpos state + 1"
    "isclosed state' = isclosed state"
proof
  define i where "i = nat (p_wpos state)"
  let ?s = "state\<lparr>pipe_buf := (pipe_buf state)[i mod PIPE_BUFSIZE := b], p_wpos := p_wpos state + 1\<rparr>"
  have ok: "length (pipe_buf state) = PIPE_BUFSIZE" "0 \<le> p_rpos state" "p_rpos state \<le> p_wpos state"
    "p_wpos state < 2 ^ 31" "p_wpos state - p_rpos state < int PIPE_BUFSIZE"
    using assms is_full_pipe_ok [OF assms(1)] by (auto simp: pipe_ok_def)
  then have "pipe_index (p_wpos state) = i mod PIPE_BUFSIZE" by (simp add: pipe_index_nat i_def)
  then show "put_byte state b = Some (Some ?s)"
    using ok assms PIPE_BUFSIZE_bounds by (simp add: put_byte_def store8_update off_inc_def)
  show "pipe_ok ?s" using ok assms(3) by (simp add: pipe_ok_def)
  have "i mod PIPE_BUFSIZE \<noteq> j mod PIPE_BUFSIZE" if "nat (p_rpos state) \<le> j" "j < i" for j
    using that ok by (intro mod_distinct [symmetric]) (auto simp: i_def)
  moreover have "nat (p_wpos state + 1) = Suc i" "nat (p_rpos state) \<le> i" using ok by (auto simp: i_def)
  ultimately show "pipe_contents ?s = pipe_contents state @ [b]"
    using ok(1) PIPE_BUFSIZE_bounds by (auto simp: pipe_contents_def i_def [symmetric])
qed simp_all

lemma put_byte_overflow:
  "pipe_ok state \<Longrightarrow> \<not> is_full state \<Longrightarrow> \<not> p_wpos state < 2 ^ 31 - 1 \<Longrightarrow> put_byte state b = None"
  by (simp add: put_byte_def off_inc_def Option.bind_eq_None_conv)

interpretation pipe_fifo: budgeted_fifo pipe_ok pipe_contents PIPE_BUFSIZE get_byte put_byte
  "\<lambda>state. nat (2 ^ 31 - 1 - p_wpos state)"
proof
  fix s :: pipe_state and b
  assume ok: "pipe_ok s"
  have empty: "pipe_contents s = []" if "is_empty s"
    using that by (simp add: pipe_contents_def is_empty_def)
  show "ensures (get_byte s) (\<lambda>r. case r of None \<Rightarrow> pipe_contents s = []
      | Some (b, s') \<Rightarrow> pipe_ok s' \<and> pipe_contents s = b # pipe_contents s')"
    by (cases "is_empty s", simp add: get_byte_def empty, erule get_byte_ok [OF ok]) simp
  show "length (pipe_contents s) \<le> PIPE_BUFSIZE"
    using length_pipe_contents [OF ok] ok by (simp add: pipe_ok_def)
  show "ensures (put_byte s b) (\<lambda>r. case r of None \<Rightarrow> PIPE_BUFSIZE \<le> length (pipe_contents s)
      | Some s' \<Rightarrow> pipe_ok s' \<and> pipe_contents s' = pipe_contents s @ [b])"
  proof (cases "is_full s \<or> \<not> p_wpos s < 2 ^ 31 - 1")
    case True
    then show ?thesis
      using length_pipe_contents [OF ok] is_full_pipe_ok [OF ok] put_byte_overflow [OF ok]
      by (cases "is_full s") (auto simp: put_byte_def)
  next
    case False
    then show ?thesis by (auto elim: put_byte_ok [OF ok, of b])
  qed
  show "\<exists>r. get_byte s = Some r \<and> (\<forall>b s'. r = Some (b, s') \<longrightarrow>
      nat (2 ^ 31 - 1 - p_wpos s') = nat (2 ^ 31 - 1 - p_wpos s))"
    by (cases "is_empty s", simp add: get_byte_def, erule get_byte_ok [OF ok]) simp
  show "\<exists>r. put_byte s b = Some r \<and> (\<forall>s'. r = Some s' \<longrightarrow>
      nat (2 ^ 31 - 1 - p_wpos s') = nat (2 ^ 31 - 1 - p_wpos s) - 1)"
    if "0 < nat (2 ^ 31 - 1 - p_wpos s)"
  proof (cases "is_full s")
    case False
    moreover have "p_wpos s < 2 ^ 31 - 1" using that by simp
    ultimately show ?thesis by (elim put_byte_ok [OF ok, of b]) simp_all
  qed (simp add: put_byte_def)
qed

section \<open>Every interleaving is first-in-first-out\<close>

lemma pipe_queue_irrelevant [simp]:
  "pipe_ok (state\<lparr>reader_queue := q\<rparr>) = pipe_ok state"
  "pipe_ok (state\<lparr>writer_queue := q\<rparr>) = pipe_ok state"
  "pipe_ok (state\<lparr>isclosed := c\<rparr>) = pipe_ok state"
  "pipe_contents (state\<lparr>reader_queue := q\<rparr>) = pipe_contents state"
  "pipe_contents (state\<lparr>writer_queue := q\<rparr>) = pipe_contents state"
  "pipe_contents (state\<lparr>isclosed := c\<rparr>) = pipe_contents state"
  by (simp_all add: pipe_ok_def pipe_contents_def)

lemma pipe_read_section_fifo:
  assumes "pipe_ok state"
  shows "ensures (pipe_read_section state n) (\<lambda>(out, state'). pipe_ok state' \<and>
    (case out of ReadDone bs \<Rightarrow> pipe_contents state = bs @ pipe_contents state'
     | ReadWait \<Rightarrow> state' = state \<and> pipe_contents state = []))"
  unfolding pipe_read_section_def wakeup_writer_def
  using assms
  by (auto intro!: ensures_mono [OF pipe_fifo.drain_fifo [OF assms]]
      simp: is_empty_def pipe_contents_def [of state])

lemma pipe_write_section_fifo:
  assumes "pipe_ok state"
  shows "ensures (pipe_write_section state bs) (\<lambda>(out, state'). pipe_ok state' \<and>
    (case out of WriteDone left \<Rightarrow> \<exists>ws. bs = ws @ left \<and> pipe_contents state' = pipe_contents state @ ws
     | WriteWait left \<Rightarrow> \<exists>ws. bs = ws @ left \<and> pipe_contents state' = pipe_contents state @ ws))"
  unfolding pipe_write_section_def wakeup_reader_def
  using assms
  by (auto intro!: ensures_mono [OF pipe_fifo.fill_fifo [OF assms]] split: if_split_asm)

definition fifo_inv :: "pipe_system \<Rightarrow> bool" where
  "fifo_inv s \<longleftrightarrow> pipe_ok (sys_pipe s) \<and> sys_in s = sys_out s @ pipe_contents (sys_pipe s)"

lemma pipe_step_fifo_inv: "pipe_step s s' \<Longrightarrow> fifo_inv s \<Longrightarrow> fifo_inv s'"
proof (induction rule: pipe_step.induct)
  case (read_done s p n bs state)
  then show ?case
    using ensuresD [OF pipe_read_section_fifo read_done(2)] by (simp add: fifo_inv_def)
next
  case (read_wait s p n state)
  then show ?case
    using ensuresD [OF pipe_read_section_fifo read_wait(2)] by (simp add: fifo_inv_def)
next
  case (write_done s p bs left state)
  then show ?case
    using ensuresD [OF pipe_write_section_fifo write_done(2)] by (auto simp: fifo_inv_def)
next
  case (write_wait s p bs left state)
  then show ?case
    using ensuresD [OF pipe_write_section_fifo write_wait(2)] by (auto simp: fifo_inv_def)
next
  case (close s state)
  then show ?case
    by (auto simp: fifo_inv_def pipe_state_close_def wakeup_reader_def wakeup_writer_def
        Option.bind_eq_Some_conv)
qed (simp_all add: fifo_inv_def)

lemma pipe_state_create_ok:
  "pipe_state_create avail fresh = Some (Some state) \<Longrightarrow> pipe_ok state \<and> pipe_contents state = []"
  by (auto simp: pipe_state_create_def pipe_ok_def pipe_contents_def Option.bind_eq_Some_conv)

lemma pipe_state_create_avail:
  "pipe_state_create True fresh = Some (Some \<lparr>p_rpos = 0, p_wpos = 0,
     pipe_buf = map fresh [0..<PIPE_BUFSIZE], isclosed = False, ref_count = 1,
     reader_queue = [], writer_queue = []\<rparr>)"
proof -
  have "kmalloc True 4096 = Some (Some 4096)" by code_simp
  then show ?thesis by (simp add: pipe_state_create_def)
qed

text \<open>C8. Whatever readers and writers do with a freshly created pipe, and however their calls,
  waits, wake-ups, interruptions and the closing of the pipe interleave, the bytes written so far
  are the bytes read so far followed by the contents of the ring buffer, which never exceed its
  size: no byte is lost, duplicated or reordered.\<close>

theorem pipe_interleaving_fifo:
  assumes "pipe_state_create avail fresh = Some (Some state)"
    and "pipe_step\<^sup>*\<^sup>* (pipe_start state) s"
  shows "sys_in s = sys_out s @ pipe_contents (sys_pipe s) \<and>
    length (pipe_contents (sys_pipe s)) \<le> PIPE_BUFSIZE"
proof -
  have "fifo_inv s"
    using assms(2)
  proof induction
    case base
    show ?case
      using pipe_state_create_ok [OF assms(1)] by (simp add: fifo_inv_def pipe_start_def)
  qed (rule pipe_step_fifo_inv)
  then show ?thesis by (simp add: fifo_inv_def pipe_fifo.cap)
qed

text \<open>A pipe over zeroed memory, and a run in which process 2 writes one byte while process 1 is
  about to wait for it.\<close>

definition pipe0 :: pipe_state where
  "pipe0 = \<lparr>p_rpos = 0, p_wpos = 0, pipe_buf = map (\<lambda>_. 0) [0..<PIPE_BUFSIZE], isclosed = False,
     ref_count = 1, reader_queue = [], writer_queue = []\<rparr>"

definition pipe1 :: "u8 \<Rightarrow> pipe_state" where
  "pipe1 b = pipe0\<lparr>p_wpos := 1, pipe_buf := (map (\<lambda>_. 0) [0..<PIPE_BUFSIZE])[0 := b]\<rparr>"

lemma pipe0_create: "pipe_state_create True (\<lambda>_. 0) = Some (Some pipe0)"
  by (simp add: pipe_state_create_avail pipe0_def)

lemma pipe0_ok: "pipe_ok pipe0" "pipe_contents pipe0 = []"
  using pipe_state_create_ok [OF pipe0_create] by simp_all

lemma pipe1_contents: "pipe_contents (pipe1 b) = [b]"
  by (simp add: pipe_contents_def pipe1_def pipe0_def PIPE_BUFSIZE_bounds)

lemma pipe0_read: "pipe_read_section pipe0 n = Some (ReadWait, pipe0)"
  by (simp add: pipe_read_section_def is_empty_def pipe0_def)

lemma pipe0_write: "pipe_write_section pipe0 [b] = Some (WriteDone [], pipe1 b)"
proof -
  have "put_byte pipe0 b = Some (Some (pipe1 b))"
    using PIPE_BUFSIZE_bounds
    by (simp add: put_byte_def is_full_pipe_ok [OF pipe0_ok(1)] store8_update off_inc_def pipe1_def)
      (simp add: pipe0_def pipe_index_def store8_update)
  then show ?thesis
    by (simp add: pipe_write_section_def wakeup_reader_def) (simp add: pipe1_def pipe0_def)
qed

lemma pipe0_run:
  "pipe_step\<^sup>*\<^sup>* (pipe_start pipe0)
     \<lparr>sys_pipe = (pipe1 b)\<lparr>reader_queue := [1]\<rparr>, sys_procs = (\<lambda>_. Idle)(1 := ReadSleep n),
      sys_in = [b], sys_out = []\<rparr>"
proof -
  let ?S = "\<lambda>st procs i. \<lparr>sys_pipe = st, sys_procs = procs, sys_in = i, sys_out = []\<rparr>"
  let ?I = "\<lambda>_::nat. Idle"
  have "pipe_step\<^sup>*\<^sup>* (pipe_start pipe0) (?S pipe0 (?I(1 := Reading n)) [])"
    by (rule r_into_rtranclp) (use call_read [of "pipe_start pipe0" 1 n] in \<open>(simp add: pipe_start_def)\<close>)
  also have "pipe_step\<^sup>*\<^sup>* \<dots> (?S pipe0 (?I(1 := ReadGap n)) [])"
    by (rule r_into_rtranclp) (use read_wait [of "?S pipe0 (?I(1 := Reading n)) []" 1 n pipe0] in \<open>(simp add: pipe0_read)\<close>)
  also have "pipe_step\<^sup>*\<^sup>* \<dots> (?S pipe0 (?I(1 := ReadGap n, 2 := Writing [b])) [])"
    by (rule r_into_rtranclp) (use call_write [of "?S pipe0 (?I(1 := ReadGap n)) []" 2 "[b]"] in \<open>simp\<close>)
  also have "pipe_step\<^sup>*\<^sup>* \<dots> (?S (pipe1 b) (?I(1 := ReadGap n)) [b])"
    by (rule r_into_rtranclp) (use write_done [of "?S pipe0 (?I(1 := ReadGap n, 2 := Writing [b])) []" 2 "[b]" "[]" "pipe1 b"] in \<open>(simp add: pipe0_write fun_upd_twist fun_upd_idem)\<close>)
  also have "pipe_step\<^sup>*\<^sup>* \<dots> (?S ((pipe1 b)\<lparr>reader_queue := [1]\<rparr>) (?I(1 := ReadSleep n)) [b])"
    by (rule r_into_rtranclp) (use read_sleep [of "?S (pipe1 b) (?I(1 := ReadGap n)) [b]" 1 n] in \<open>(simp add: pipe1_def pipe0_def)\<close>)
  finally show ?thesis .
qed

theorem pipe_interleaving_fifo_witness:
  "let s = \<lparr>sys_pipe = (pipe1 7)\<lparr>reader_queue := [1]\<rparr>, sys_procs = (\<lambda>_. Idle)(1 := ReadSleep 4),
      sys_in = [7], sys_out = []\<rparr>
   in pipe_step\<^sup>*\<^sup>* (pipe_start pipe0) s \<and>
     sys_in s = sys_out s @ pipe_contents (sys_pipe s) \<and>
     length (pipe_contents (sys_pipe s)) \<le> PIPE_BUFSIZE"
  unfolding Let_def
  using pipe_interleaving_fifo [OF pipe0_create pipe0_run [of 7 4]] pipe0_run [of 7 4] by blast


text \<open>What is written into an open, empty pipe in one go is read back in one go.\<close>

lemma pipe_section_roundtrip:
  assumes ok: "pipe_ok state" "pipe_contents state = []" "\<not> isclosed state"
    and len: "bs \<noteq> []" "length bs \<le> PIPE_BUFSIZE" "p_wpos state + int (length bs) < 2 ^ 31"
  shows "\<exists>state1 state2.
    pipe_write_section state bs = Some (WriteDone [], state1) \<and>
    pipe_read_section state1 (of_nat (length bs)) = Some (ReadDone bs, state2) \<and>
    pipe_ok state2 \<and> pipe_contents state2 = [] \<and> pipe_state_size state2 False = 0"
proof -
  have "fill put_byte bs state \<noteq> None"
    using len(3) by (intro pipe_fifo.fill_defined [OF ok(1)]) simp
  then obtain left state1 where f: "fill put_byte bs state = Some (left, state1)" by auto
  have f': "pipe_ok state1" "bs = pipe_contents state1 @ left"
    "left \<noteq> [] \<longrightarrow> length (pipe_contents state1) = PIPE_BUFSIZE"
    using ensuresD [OF pipe_fifo.fill_fifo [OF ok(1)] f] ok(2) by auto
  then have full: "left = []" "pipe_contents state1 = bs" using len(2) by auto
  let ?s1 = "wakeup_reader state1"
  have w: "pipe_write_section state bs = Some (WriteDone [], ?s1)"
    using f full ok(3) len(1) by (simp add: pipe_write_section_def)
  have s1: "pipe_ok ?s1" "pipe_contents ?s1 = bs" using f'(1) full by (simp_all add: wakeup_reader_def)
  then have ne: "\<not> is_empty ?s1" using len(1) by (auto simp: is_empty_def pipe_contents_def)
  have n: "unat (of_nat (length bs) :: u32) = length bs"
    using len(2) by (simp add: unat_of_nat PIPE_BUFSIZE_def take_bit_nat_eq_self)
  obtain os state2 where d: "drain get_byte (length bs) ?s1 = Some (os, state2)"
    using pipe_fifo.drain_defined [OF s1(1)] by (metis not_None_eq old.prod.exhaust)
  have "pipe_ok state2" "os = bs" "pipe_contents state2 = []"
    using ensuresD [OF pipe_fifo.drain_fifo [OF s1(1)] d] s1(2) by auto
  moreover from this have "p_wpos state2 - p_rpos state2 = 0"
    using length_pipe_contents [of state2] by simp
  ultimately show ?thesis
    using w d ne n len(1)
    by (intro exI [of _ ?s1] exI [of _ "wakeup_writer state2"])
      (simp add: pipe_read_section_def wakeup_writer_def pipe_state_size_def)
qed

end
