(* ===== verification/Iobuf.thy ===== *)
theory Iobuf
  imports Prelude
begin

text \<open>
  I/O buffers (\<^verbatim>\<open>fs/iobuf.c\<close>): a region of memory together with how much of it is still to be
  transferred. Memory is a list of bytes and a pointer a position in it. Adding a \<^verbatim>\<open>size_t\<close> to the
  32-bit offset wraps.
\<close>

record iobuf =
  io_base :: nat
  io_offset :: u32
  io_len :: u32
  io_resid :: u32

definition iobuf_init :: "nat \<Rightarrow> u32 \<Rightarrow> u32 \<Rightarrow> iobuf" where
  "iobuf_init base len offset = \<lparr>io_base = base, io_offset = offset, io_len = len, io_resid = len\<rparr>"

definition iobuf_used :: "iobuf \<Rightarrow> u32" where
  "iobuf_used iob = io_len iob - io_resid iob"

definition iobuf_skip :: "iobuf \<Rightarrow> u32 \<Rightarrow> iobuf option" where
  "iobuf_skip iob n = do {
     cassert (n \<le> io_resid iob);
     Some (iob\<lparr>io_base := io_base iob + unat n, io_offset := io_offset iob + n,
       io_resid := io_resid iob - n\<rparr>) }"

definition memmove :: "u8 list \<Rightarrow> nat \<Rightarrow> nat \<Rightarrow> nat \<Rightarrow> u8 list option" where
  "memmove mem dst src n = do { bs \<leftarrow> load_bytes mem src n; store_bytes mem dst bs }"

text \<open>The result is the return code, the amount copied, the buffer and the memory.\<close>

definition iobuf_move ::
    "u8 list \<Rightarrow> iobuf \<Rightarrow> nat \<Rightarrow> u32 \<Rightarrow> bool \<Rightarrow> (rc \<times> u32 \<times> iobuf \<times> u8 list) option" where
  "iobuf_move mem iob data len m2b =
     (let alen = (if len < io_resid iob then len else io_resid iob) in
      if 0 < alen then do {
        let (src, dst) = (if m2b then (data, io_base iob) else (io_base iob, data));
        mem \<leftarrow> memmove mem dst src (unat alen);
        iob \<leftarrow> iobuf_skip iob alen;
        Some (if len - alen = 0 then Ok else Err E_NO_MEM, alen, iob, mem) }
      else Some (if len = 0 then Ok else Err E_NO_MEM, alen, iob, mem))"

definition iobuf_move_zeros :: "u8 list \<Rightarrow> iobuf \<Rightarrow> u32 \<Rightarrow> (rc \<times> u32 \<times> iobuf \<times> u8 list) option" where
  "iobuf_move_zeros mem iob len =
     (let alen = (if len < io_resid iob then len else io_resid iob) in
      if 0 < alen then do {
        mem \<leftarrow> store_bytes mem (io_base iob) (replicate (unat alen) 0);
        iob \<leftarrow> iobuf_skip iob alen;
        Some (if len - alen = 0 then Ok else Err E_NO_MEM, alen, iob, mem) }
      else Some (if len = 0 then Ok else Err E_NO_MEM, alen, iob, mem))"

section \<open>What is left of a buffer\<close>

text \<open>The memory a buffer may still touch ends where it ended at the beginning: what is skipped at
  the front is taken off the rest.\<close>

definition io_end :: "iobuf \<Rightarrow> nat" where
  "io_end iob = io_base iob + unat (io_resid iob)"

definition iobuf_ok :: "u8 list \<Rightarrow> iobuf \<Rightarrow> bool" where
  "iobuf_ok mem iob \<longleftrightarrow> io_resid iob \<le> io_len iob \<and> io_end iob \<le> length mem"

lemma iobuf_skip_ok:
  assumes "n \<le> io_resid iob"
  obtains iob' where "iobuf_skip iob n = Some iob'" "io_end iob' = io_end iob"
    "io_base iob' = io_base iob + unat n" "io_len iob' = io_len iob"
    "io_resid iob' = io_resid iob - n" "io_offset iob' = io_offset iob + n"
    "unat (io_resid iob') = unat (io_resid iob) - unat n"
    "iobuf_used iob' = iobuf_used iob + n"
proof
  show "iobuf_skip iob n = Some (iob\<lparr>io_base := io_base iob + unat n,
      io_offset := io_offset iob + n, io_resid := io_resid iob - n\<rparr>)" (is "_ = Some ?i")
    using assms by (simp add: iobuf_skip_def)
  show "unat (io_resid ?i) = unat (io_resid iob) - unat n"
    using assms by (simp add: unat_sub)
  show "io_end ?i = io_end iob"
    using assms by (simp add: io_end_def unat_sub word_le_nat_alt)
qed (simp_all add: iobuf_used_def)

lemma memmove_defined:
  "src + n \<le> length mem \<Longrightarrow> dst + n \<le> length mem \<Longrightarrow>
     \<exists>mem'. memmove mem dst src n = Some mem' \<and> length mem' = length mem \<and>
       take n (drop dst mem') = take n (drop src mem) \<and> only_changes dst (dst + n) mem mem'"
  by (simp add: memmove_def load_bytes_def store_bytes_def only_changes_def)


text \<open>C25. \<^verbatim>\<open>iobuf_move\<close> on a buffer and a kernel region inside memory returns, and is exact: it copies
  the smaller of what is asked for and what is left, in the direction asked for, changes no byte
  outside the destination, advances the buffer by that amount without moving its end, and reports
  success exactly when everything asked for was copied.\<close>

theorem iobuf_move_exact:
  fixes iob len
  defines "n \<equiv> min (unat len) (unat (io_resid iob))"
  assumes ok: "iobuf_ok mem iob" and data: "data + n \<le> length mem"
    and dirs: "(src, dst) = (if m2b then (data, io_base iob) else (io_base iob, data))"
  shows "\<exists>iob' mem'. iobuf_move mem iob data len m2b =
      Some (if len \<le> io_resid iob then Ok else Err E_NO_MEM, of_nat n, iob', mem') \<and>
    take n (drop dst mem') = take n (drop src mem) \<and> only_changes dst (dst + n) mem mem' \<and>
    iobuf_ok mem' iob' \<and> io_base iob' = io_base iob + n \<and> io_end iob' = io_end iob \<and>
    iobuf_used iob' = iobuf_used iob + of_nat n"
proof -
  let ?alen = "if len < io_resid iob then len else io_resid iob"
  have alen: "unat ?alen = n" "?alen \<le> io_resid iob" "?alen = of_nat n"
    by (auto simp: n_def word_less_nat_alt word_le_nat_alt min_def)
  have "n \<le> unat (io_resid iob)" by (simp add: n_def)
  then have bounds: "src + n \<le> length mem" "dst + n \<le> length mem"
    using ok data dirs by (auto simp: iobuf_ok_def io_end_def split: if_splits)
  have code: "len - ?alen = 0 \<longleftrightarrow> len \<le> io_resid iob" by auto
  obtain mem' where m: "memmove mem dst src n = Some mem'" "length mem' = length mem"
      "take n (drop dst mem') = take n (drop src mem)" "only_changes dst (dst + n) mem mem'"
    using memmove_defined [OF bounds] by blast
  obtain iob' where i: "iobuf_skip iob ?alen = Some iob'" "io_end iob' = io_end iob"
      "io_base iob' = io_base iob + unat ?alen" "io_len iob' = io_len iob"
      "io_resid iob' = io_resid iob - ?alen" "iobuf_used iob' = iobuf_used iob + ?alen"
    by (rule iobuf_skip_ok [OF alen(2)])
  have ok': "iobuf_ok mem' iob'"
    using ok i m(2) word_sub_le [OF alen(2)] by (auto simp: iobuf_ok_def)
  show ?thesis
  proof (cases "?alen = 0")
    case True
    then have "n = 0" using alen(1) by simp
    moreover have "len = 0 \<longleftrightarrow> len \<le> io_resid iob" using True code by simp
    ultimately show ?thesis using True ok by (simp add: iobuf_move_def)
  next
    case False
    then have "0 < ?alen" by (simp add: word_gt_0)
    then have "iobuf_move mem iob data len m2b =
        Some (if len \<le> io_resid iob then Ok else Err E_NO_MEM, of_nat n, iob', mem')"
      unfolding iobuf_move_def Let_def code [symmetric] dirs [symmetric] alen(1) prod.case
      using m(1) i(1) alen(3) by simp
    then show ?thesis using m i ok' alen by simp
  qed
qed

theorem iobuf_move_exact_witness:
  "\<exists>iob' mem'. iobuf_move [1, 2, 3, 4, 0, 0, 0, 0] (iobuf_init 0 4 100) 5 3 False =
      Some (Ok, 3, iob', mem') \<and> take 3 (drop 5 mem') = [1, 2, 3] \<and>
      only_changes 5 8 [1, 2, 3, 4, 0, 0, 0, 0] mem' \<and> io_base iob' = 3 \<and> iobuf_used iob' = 3"
  using iobuf_move_exact [of "[1, 2, 3, 4, 0, 0, 0, 0]" "iobuf_init 0 4 100" 5 3 0 5 False]
  by (fastforce simp: iobuf_ok_def io_end_def iobuf_init_def iobuf_used_def)

end
