(* ===== verification/Pipe_Inode.thy ===== *)
theory Pipe_Inode
  imports Pipe Iobuf
begin

text \<open>
  The two ends of a pipe as files (\<^verbatim>\<open>fs/pipe/pipe_inode.c\<close>). The state of the pipe is shared by
  both ends and is passed along; the inode holds the rest. A read or write that has to wait is a
  \<open>Blocks\<close> outcome, which carries the state it leaves behind.
\<close>

unbundle bit_operations_syntax

datatype pin_type = PIN_RDONLY | PIN_WRONLY

record pipe_inode =
  pin_type :: pin_type
  pin_name :: "u8 list option"
  reclaim_count :: int

datatype 'a pipe_call = Returns 'a | Blocks 'a

abbreviation (input) O_ACCMODE :: u32 where "O_ACCMODE \<equiv> 3"
abbreviation (input) O_RDONLY :: u32 where "O_RDONLY \<equiv> 0"
abbreviation (input) O_WRONLY :: u32 where "O_WRONLY \<equiv> 1"
abbreviation (input) O_TRUNC :: u32 where "O_TRUNC \<equiv> 0x200"
abbreviation (input) O_APPEND :: u32 where "O_APPEND \<equiv> 0x400"
abbreviation (input) S_IFCHR :: u32 where "S_IFCHR \<equiv> 0x2000"

definition pipe_inode_open :: "pipe_inode \<Rightarrow> u32 \<Rightarrow> rc" where
  "pipe_inode_open pin open_flags =
     (if open_flags AND (O_TRUNC OR O_APPEND) \<noteq> 0 then Err E_INVAL
      else if open_flags AND O_ACCMODE = O_RDONLY then
        if pin_type pin = PIN_RDONLY then Ok else Err E_INVAL
      else if open_flags AND O_ACCMODE = O_WRONLY then
        if pin_type pin = PIN_WRONLY then Ok else Err E_INVAL
      else Err E_INVAL)"

definition pipe_inode_close :: "pipe_state \<Rightarrow> (rc \<times> pipe_state) option" where
  "pipe_inode_close state = do { state \<leftarrow> pipe_state_close state; Some (Ok, state) }"

definition pipe_inode_read ::
    "pipe_inode \<Rightarrow> pipe_state \<Rightarrow> iobuf \<Rightarrow> u8 list \<Rightarrow> (rc \<times> pipe_state \<times> iobuf \<times> u8 list) pipe_call option" where
  "pipe_inode_read pin state iob mem =
     (if pin_type pin \<noteq> PIN_RDONLY then Some (Returns (Err E_INVAL, state, iob, mem))
      else do {
        (out, state) \<leftarrow> pipe_read_section state (io_resid iob);
        (case out of
           ReadWait \<Rightarrow> Some (Blocks (Ok, state, iob, mem))
         | ReadDone bs \<Rightarrow> do {
             mem \<leftarrow> store_bytes mem (io_base iob) bs;
             iob \<leftarrow> (if bs \<noteq> [] then iobuf_skip iob (of_nat (length bs)) else Some iob);
             Some (Returns (Ok, state, iob, mem)) }) })"

definition pipe_inode_write ::
    "pipe_inode \<Rightarrow> pipe_state \<Rightarrow> iobuf \<Rightarrow> u8 list \<Rightarrow> (rc \<times> pipe_state \<times> iobuf \<times> u8 list) pipe_call option" where
  "pipe_inode_write pin state iob mem =
     (if pin_type pin \<noteq> PIN_WRONLY then Some (Returns (Err E_INVAL, state, iob, mem))
      else do {
        bs \<leftarrow> load_bytes mem (io_base iob) (unat (io_resid iob));
        (out, state) \<leftarrow> pipe_write_section state bs;
        (case out of
           WriteWait left \<Rightarrow> Some (Blocks (Ok, state, iob, mem))
         | WriteDone left \<Rightarrow> do {
             let ret = length bs - length left;
             iob \<leftarrow> (if ret \<noteq> 0 then iobuf_skip iob (of_nat ret) else Some iob);
             Some (Returns (Ok, state, iob, mem)) }) })"

record pipe_stat =
  st_mode :: u32
  st_nlinks :: u32
  st_blocks :: u32
  st_size :: u32

definition pipe_inode_gettype :: u32 where
  "pipe_inode_gettype = S_IFCHR"

definition pipe_inode_fstat :: "pipe_inode \<Rightarrow> pipe_state \<Rightarrow> pipe_stat" where
  "pipe_inode_fstat pin state =
     \<lparr>st_mode = pipe_inode_gettype, st_nlinks = 1, st_blocks = 0,
      st_size = pipe_state_size state (pin_type pin = PIN_WRONLY)\<rparr>"

definition pipe_inode_namefile ::
    "pipe_inode \<Rightarrow> iobuf \<Rightarrow> u8 list \<Rightarrow> (rc \<times> iobuf \<times> u8 list) option" where
  "pipe_inode_namefile pin iob mem =
     (let name = (case pin_name pin of None \<Rightarrow> [] | Some name \<Rightarrow> name);
          len = of_nat (length name) :: u32 in
      if io_resid iob < len + 1 then Some (Err E_NO_MEM, iob, mem)
      else do {
        mem \<leftarrow> store_bytes mem (io_base iob) name;
        mem \<leftarrow> store8 mem (io_base iob + length name) 0;
        iob \<leftarrow> iobuf_skip iob (len + 1);
        Some (Ok, iob, mem) })"

text \<open>Reclaiming an inode. \<open>refs\<close> is the reference count of the inode; the result is the inode
  (\<open>None\<close> when it is gone) and the state of the pipe (\<open>None\<close> when it is released).\<close>

definition pipe_inode_reclaim ::
    "pipe_inode \<Rightarrow> int \<Rightarrow> pipe_state \<Rightarrow> (rc \<times> pipe_inode option \<times> pipe_state option) option" where
  "pipe_inode_reclaim pin refs state =
     (if pin_name pin \<noteq> None then do {
        cassert (0 < reclaim_count pin);
        let pin = pin\<lparr>reclaim_count := reclaim_count pin - 1\<rparr>;
        if reclaim_count pin \<noteq> 0 \<or> refs \<noteq> 0 then Some (Err E_BUSY, Some pin, Some state)
        else do { state \<leftarrow> pipe_state_release state; Some (Ok, None, state) } }
      else do { state \<leftarrow> pipe_state_release state; Some (Ok, None, state) })"

definition pipe_inode_init :: "u8 list option \<Rightarrow> bool \<Rightarrow> pipe_inode" where
  "pipe_inode_init name readonly =
     \<lparr>pin_type = (if readonly then PIN_RDONLY else PIN_WRONLY), pin_name = name, reclaim_count = 1\<rparr>"

text \<open>\<open>avail\<close> tells whether the copy of the name and the inode can be allocated.\<close>

definition pipe_create_inode :: "bool \<times> bool \<Rightarrow> u8 list option \<Rightarrow> bool \<Rightarrow> pipe_inode option" where
  "pipe_create_inode avail name readonly =
     (if (name = None \<or> fst avail) \<and> snd avail then Some (pipe_inode_init name readonly) else None)"

text \<open>The result is the return code, the two ends if there are any, and the state of the pipe that
  is left. \<open>root\<close> is the outcome of finding the root of the pipe file system; \<open>avail\<close> tells
  whether the state and the two inodes can be allocated. Dropping the only reference of an
  unnamed end reclaims it.\<close>

definition pipe_open :: "rc \<Rightarrow> bool \<times> bool \<times> bool \<Rightarrow> (nat \<Rightarrow> u8) \<Rightarrow>
    (rc \<times> (pipe_inode \<times> pipe_inode) option \<times> pipe_state option) option" where
  "pipe_open root avail fresh =
     (case root of Err e \<Rightarrow> Some (Err e, None, None)
      | Ok \<Rightarrow> do {
          state \<leftarrow> pipe_state_create (fst avail) fresh;
          (case state of
             None \<Rightarrow> Some (Err E_NO_MEM, None, None)
           | Some state \<Rightarrow>
               (case pipe_create_inode (True, fst (snd avail)) None True of
                  None \<Rightarrow> do {
                    state \<leftarrow> pipe_state_release state;
                    Some (Err E_NO_MEM, None, state) }
                | Some node0 \<Rightarrow> do {
                    state \<leftarrow> pipe_state_acquire state;
                    (case pipe_create_inode (True, snd (snd avail)) None False of
                       None \<Rightarrow> do {
                         (ret, node, state) \<leftarrow> pipe_inode_reclaim node0 0 state;
                         (case state of
                            None \<Rightarrow> None
                          | Some state \<Rightarrow> do {
                              state \<leftarrow> pipe_state_release state;
                              Some (Err E_NO_MEM, None, state) }) }
                     | Some node1 \<Rightarrow> Some (Ok, Some (node0, node1), Some state)) })) })"

text \<open>C24. Opening a pipe always returns, and either hands out a reading and a writing end that share
  an open, empty state with two references, or fails and leaves nothing behind, whichever of the
  three allocations fails.\<close>

theorem pipe_open_all_or_nothing:
  "returns (pipe_open root avail fresh) (\<lambda>(ret, ends, state).
     (ret \<noteq> Ok \<and> ends = None \<and> state = None) \<or>
     (\<exists>r w st. ret = Ok \<and> ends = Some (r, w) \<and> state = Some st \<and>
       pin_type r = PIN_RDONLY \<and> pin_type w = PIN_WRONLY \<and>
       ref_count st = 2 \<and> pipe_ok st \<and> pipe_contents st = [] \<and> \<not> isclosed st))"
proof -
  obtain a a0 a1 where av: "avail = (a, a0, a1)" by (cases avail)
  have "kmalloc False 4096 = Some None" by code_simp
  then have no: "pipe_state_create False fresh = Some None" by (simp add: pipe_state_create_def)
  have yes: "pipe_state_create True fresh = Some (Some st) \<Longrightarrow> pipe_ok (st\<lparr>ref_count := 2\<rparr>) \<and>
      pipe_contents (st\<lparr>ref_count := 2\<rparr>) = []" for st
    using pipe_state_create_ok [of True fresh st] by (simp add: pipe_ok_def pipe_contents_def)
  show ?thesis
  proof (cases "root = Ok \<and> a")
    case True
    then show ?thesis
      using yes [OF pipe_state_create_avail]
      by (cases a0; cases a1)
        (simp_all add: pipe_open_def av pipe_state_create_avail pipe_create_inode_def
          pipe_inode_init_def pipe_state_release_def pipe_state_acquire_def pipe_inode_reclaim_def Let_def)
  next
    case False
    then show ?thesis by (cases root; cases a) (simp_all add: pipe_open_def av no)
  qed
qed

text \<open>C21. A write to one end of an open, empty pipe followed by a read from the other end copies
  memory: both calls return, the bytes of the writer's buffer arrive in the reader's buffer, no
  other memory changes, and both buffers are advanced by what was transferred.\<close>

theorem pipe_copies_memory:
  fixes wiob riob
  defines "n \<equiv> unat (io_resid wiob)"
  assumes ends: "pin_type w = PIN_WRONLY" "pin_type r = PIN_RDONLY"
    and state: "pipe_ok state" "pipe_contents state = []" "\<not> isclosed state"
    and len: "0 < n" "n \<le> PIPE_BUFSIZE" "p_wpos state + int n < 2 ^ 31"
    and bufs: "iobuf_ok mem wiob" "iobuf_ok mem riob" "io_resid riob = io_resid wiob"
  shows "\<exists>state1 state2 wiob' riob' mem'.
    pipe_inode_write w state wiob mem = Some (Returns (Ok, state1, wiob', mem)) \<and>
    pipe_inode_read r state1 riob mem = Some (Returns (Ok, state2, riob', mem')) \<and>
    take n (drop (io_base riob) mem') = take n (drop (io_base wiob) mem) \<and>
    only_changes (io_base riob) (io_base riob + n) mem mem' \<and>
    io_resid wiob' = 0 \<and> io_resid riob' = 0 \<and> pipe_contents state2 = []"
proof -
  let ?bs = "take n (drop (io_base wiob) mem)"
  have fits: "io_base wiob + n \<le> length mem" "io_base riob + n \<le> length mem"
    using bufs by (simp_all add: iobuf_ok_def io_end_def n_def)
  have load: "load_bytes mem (io_base wiob) n = Some ?bs" using fits by (simp add: load_bytes_def)
  have bs: "length ?bs = n" "?bs \<noteq> []" "of_nat (length ?bs) = io_resid wiob"
    using fits len(1) by (auto simp: n_def)
  obtain state1 state2 where st: "pipe_write_section state ?bs = Some (WriteDone [], state1)"
      "pipe_read_section state1 (of_nat (length ?bs)) = Some (ReadDone ?bs, state2)"
      "pipe_contents state2 = []"
    using pipe_section_roundtrip [OF state bs(2)] len(2,3) bs(1) by auto
  obtain mem' where mem': "store_bytes mem (io_base riob) ?bs = Some mem'"
    using store_bytes_defined [of mem "io_base riob" ?bs] fits(2) bs(1) by auto
  obtain wiob' where wi: "iobuf_skip wiob (io_resid wiob) = Some wiob'" "io_resid wiob' = 0"
    by (rule iobuf_skip_ok [of "io_resid wiob" wiob]) simp_all
  obtain riob' where ri: "iobuf_skip riob (io_resid wiob) = Some riob'" "io_resid riob' = 0"
    by (rule iobuf_skip_ok [of "io_resid wiob" riob]) (simp_all add: bufs(3))
  have "pipe_inode_write w state wiob mem = Some (Returns (Ok, state1, wiob', mem))"
    using ends(1) load st(1) wi(1) bs len(1) by (simp add: pipe_inode_write_def n_def [symmetric])
  moreover have "pipe_inode_read r state1 riob mem = Some (Returns (Ok, state2, riob', mem'))"
    using ends(2) st(2) mem' ri(1) bs by (simp add: pipe_inode_read_def bufs(3))
  ultimately show ?thesis
    using load_store_same [OF mem'] store_bytes_only_changes [OF mem' order_refl, of "io_base riob + n"]
      bs(1) wi(2) ri(2) st(3) by (simp add: load_bytes_eq_Some)
qed

theorem pipe_copies_memory_witness:
  "\<exists>state1 state2 wiob' riob' mem'.
    pipe_inode_write (pipe_inode_init None False) pipe0 (iobuf_init 0 2 0) [8, 9, 0, 0, 7] =
      Some (Returns (Ok, state1, wiob', [8, 9, 0, 0, 7])) \<and>
    pipe_inode_read (pipe_inode_init None True) state1 (iobuf_init 2 2 0) [8, 9, 0, 0, 7] =
      Some (Returns (Ok, state2, riob', mem')) \<and>
    take 2 (drop 2 mem') = [8, 9] \<and> only_changes 2 4 [8, 9, 0, 0, 7] mem' \<and>
    pipe_contents state2 = []"
proof -
  let ?w = "pipe_inode_init None False" and ?r = "pipe_inode_init None True"
  have "pin_type ?w = PIN_WRONLY" "pin_type ?r = PIN_RDONLY" "\<not> isclosed pipe0" "p_wpos pipe0 = 0"
    by (simp_all add: pipe_inode_init_def pipe0_def)
  then show ?thesis
    using pipe_copies_memory [of ?w ?r pipe0 "iobuf_init 0 2 0" "[8, 9, 0, 0, 7]" "iobuf_init 2 2 0"]
      pipe0_ok by (fastforce simp: iobuf_init_def iobuf_ok_def io_end_def PIPE_BUFSIZE_def)
qed

end
