(* ===== verification/Bitmap.thy ===== *)
theory Bitmap
  imports Slab
begin

text \<open>
  The free-block bitmap of the simple file system (\<^verbatim>\<open>fs/sfs/bitmap.c\<close>): a set bit is a free block.
  The components of \<^verbatim>\<open>struct bitmap\<close> are kept at 32 bits; the array is a list of words, and an
  access past its end has no outcome. Shifting 1 by 31 places is taken as the top bit, as the
  compiler does.
\<close>

unbundle bit_operations_syntax

abbreviation (input) WORD_BITS :: u32 where "WORD_BITS \<equiv> 32"

record bitmap =
  bm_nbits :: u32
  bm_nwords :: u32
  bm_map :: "u32 list"

definition word_at :: "u32 list \<Rightarrow> nat \<Rightarrow> u32 option" where
  "word_at m ix = (if ix < length m then Some (m ! ix) else None)"

text \<open>The loop that marks the leftover bits of the last word.\<close>

function mark_overbits :: "u32 \<Rightarrow> u32 \<Rightarrow> u32" where
  "mark_overbits overbits w =
     (if overbits < WORD_BITS then mark_overbits (overbits + 1) (w XOR push_bit (unat overbits) 1) else w)"
  by pat_completeness auto
termination
  by (relation "measure (\<lambda>(k, w). 32 - unat k)") (auto simp: word_less_nat_alt unat_word_ariths)

text \<open>\<open>avail\<close> tells whether the structure and the array can be allocated.\<close>

definition bitmap_create :: "bool \<times> bool \<Rightarrow> u32 \<Rightarrow> bitmap option option" where
  "bitmap_create avail nbits = do {
     cassert (nbits \<noteq> 0 \<and> nbits < nbits + WORD_BITS);
     bitmap \<leftarrow> kmalloc (fst avail) 12;
     (case bitmap of None \<Rightarrow> Some None | Some _ \<Rightarrow> do {
        let nwords = ROUNDUP_DIV nbits WORD_BITS;
        map \<leftarrow> kmalloc (snd avail) (4 * nwords);
        (case map of None \<Rightarrow> Some None | Some _ \<Rightarrow> do {
           let map = replicate (unat nwords) (- 1);
           map \<leftarrow>
             (if nbits \<noteq> nwords * WORD_BITS then do {
                let ix = nwords - 1;
                let overbits = nbits - ix * WORD_BITS;
                cassert (nbits div WORD_BITS = ix);
                cassert (0 < overbits \<and> overbits < WORD_BITS);
                w \<leftarrow> word_at map (unat ix);
                Some (map[unat ix := mark_overbits overbits w]) }
              else Some map);
           Some (Some \<lparr>bm_nbits = nbits, bm_nwords = nwords, bm_map = map\<rparr>) }) }) }"

text \<open>The first word from \<open>ix\<close> on that is not zero, and the first bit of a word from \<open>offset\<close> on.\<close>

function alloc_word :: "u32 list \<Rightarrow> nat \<Rightarrow> nat \<Rightarrow> (nat \<times> u32) option option" where
  "alloc_word m nw ix =
     (if ix < nw then do {
        w \<leftarrow> word_at m ix;
        if w \<noteq> 0 then Some (Some (ix, w)) else alloc_word m nw (Suc ix) }
      else Some None)"
  by pat_completeness auto
termination
  by (relation "measure (\<lambda>(m, nw, ix). nw - ix)") auto

function alloc_bit :: "u32 \<Rightarrow> nat \<Rightarrow> nat option" where
  "alloc_bit w offset =
     (if offset < 32 then
        if w AND push_bit offset 1 \<noteq> 0 then Some offset else alloc_bit w (Suc offset)
      else None)"
  by pat_completeness auto
termination
  by (relation "measure (\<lambda>(w, offset). 32 - offset)") auto

declare mark_overbits.simps [simp del] alloc_word.simps [simp del] alloc_bit.simps [simp del]

text \<open>A word that is not zero and has no bit set would be the failed assertion.\<close>

definition bitmap_alloc :: "bitmap \<Rightarrow> (rc \<times> u32 \<times> bitmap) option" where
  "bitmap_alloc b = do {
     x \<leftarrow> alloc_word (bm_map b) (unat (bm_nwords b)) 0;
     (case x of
        None \<Rightarrow> Some (Err E_NO_MEM, 0, b)
      | Some (ix, w) \<Rightarrow> do {
          offset \<leftarrow> alloc_bit w 0;
          Some (Ok, of_nat ix * WORD_BITS + of_nat offset,
            b\<lparr>bm_map := (bm_map b)[ix := w XOR push_bit offset 1]\<rparr>) }) }"

text \<open>The word's position and the mask.\<close>

definition bitmap_translate :: "bitmap \<Rightarrow> u32 \<Rightarrow> (nat \<times> u32) option" where
  "bitmap_translate b index = do {
     cassert (index < bm_nbits b);
     Some (unat (index div WORD_BITS), push_bit (unat (index mod WORD_BITS)) 1) }"

definition bitmap_test :: "bitmap \<Rightarrow> u32 \<Rightarrow> bool option" where
  "bitmap_test b index = do {
     (ix, mask) \<leftarrow> bitmap_translate b index;
     w \<leftarrow> word_at (bm_map b) ix;
     Some (w AND mask \<noteq> 0) }"

definition bitmap_free :: "bitmap \<Rightarrow> u32 \<Rightarrow> bitmap option" where
  "bitmap_free b index = do {
     (ix, mask) \<leftarrow> bitmap_translate b index;
     w \<leftarrow> word_at (bm_map b) ix;
     cassert (w AND mask = 0);
     Some (b\<lparr>bm_map := (bm_map b)[ix := w OR mask]\<rparr>) }"

definition bitmap_getdata :: "bitmap \<Rightarrow> u32 list \<times> u32" where
  "bitmap_getdata b = (bm_map b, 4 * bm_nwords b)"

section \<open>The set of free blocks\<close>

definition bm_bit :: "u32 list \<Rightarrow> nat \<Rightarrow> bool" where
  "bm_bit m i \<longleftrightarrow> i div 32 < length m \<and> bit (m ! (i div 32)) (i mod 32)"

definition free_blocks :: "bitmap \<Rightarrow> nat set" where
  "free_blocks b = {i. bm_bit (bm_map b) i}"

text \<open>No bit past the end is free, which is what keeps \<^verbatim>\<open>bitmap_alloc\<close> in range.\<close>

definition bitmap_ok :: "bitmap \<Rightarrow> bool" where
  "bitmap_ok b \<longleftrightarrow> length (bm_map b) = unat (bm_nwords b) \<and>
     unat (bm_nbits b) \<le> 32 * unat (bm_nwords b) \<and> 32 * unat (bm_nwords b) < 2 ^ 32 + 32 \<and>
     free_blocks b \<subseteq> {..<unat (bm_nbits b)}"

lemma bit_push_bit_one: "bit (push_bit n 1 :: u32) k \<longleftrightarrow> k = n \<and> n < 32"
  by (auto simp: bit_exp_iff)

lemma and_push_bit_1: "w AND push_bit n 1 \<noteq> 0 \<longleftrightarrow> bit (w :: u32) n"
proof -
  have "bit (w AND push_bit n 1) k \<longleftrightarrow> k = n \<and> bit w n" for k
    using bit_imp_le_length [of w n] unfolding bit_and_iff bit_push_bit_one by auto
  then show ?thesis by (metis bit_0_eq bit_eq_iff bot_apply bot_bool_def)
qed

lemma bit_xor_push_bit_1: "bit (w XOR push_bit n 1 :: u32) k \<longleftrightarrow> bit w k \<noteq> (k = n \<and> n < 32)"
  unfolding bit_xor_iff bit_push_bit_one by auto

lemma bit_or_push_bit_1: "bit (w OR push_bit n 1 :: u32) k \<longleftrightarrow> bit w k \<or> (k = n \<and> n < 32)"
  unfolding bit_or_iff bit_push_bit_one by auto

lemma bm_bit_update:
  "ix < length m \<Longrightarrow> bm_bit (m[ix := w]) i \<longleftrightarrow>
     (if i div 32 = ix then bit w (i mod 32) else bm_bit m i)"
  by (auto simp: bm_bit_def)

lemma alloc_bit_Some:
  "alloc_bit w n = Some k \<Longrightarrow> n \<le> k \<and> k < 32 \<and> bit w k \<and> (\<forall>j. n \<le> j \<longrightarrow> j < k \<longrightarrow> \<not> bit w j)"
proof (induction w n rule: alloc_bit.induct)
  case (1 w n)
  show ?case
  proof (cases "n < 32 \<and> \<not> bit w n")
    case True
    then have "alloc_bit w (Suc n) = Some k"
      using 1(2) and_push_bit_1 [of w n] by (simp add: alloc_bit.simps [of w n])
    then show ?thesis using 1(1) True and_push_bit_1 [of w n] by (metis Suc_leD le_antisym not_less_eq_eq)
  next
    case False
    then show ?thesis
      using 1(2) and_push_bit_1 [of w n] by (auto simp: alloc_bit.simps [of w n] split: if_splits)
  qed
qed

lemma alloc_bit_None: "alloc_bit w n = None \<Longrightarrow> n \<le> j \<Longrightarrow> \<not> bit w j"
proof (induction w n rule: alloc_bit.induct)
  case (1 w n)
  show ?case
  proof (cases "n < 32")
    case True
    then have "\<not> bit w n" "alloc_bit w (Suc n) = None"
      using 1(2) and_push_bit_1 [of w n] by (auto simp: alloc_bit.simps [of w n] split: if_splits)
    then show ?thesis using 1(1,3) True and_push_bit_1 [of w n] by (metis Suc_leI le_neq_implies_less)
  next
    case False
    then show ?thesis using 1(3) bit_imp_le_length [of w j] by auto
  qed
qed

lemma alloc_word_spec:
  "nw = length m \<Longrightarrow> returns (alloc_word m nw ix) (\<lambda>r. case r of
     None \<Rightarrow> \<forall>j. ix \<le> j \<longrightarrow> j < nw \<longrightarrow> m ! j = 0
   | Some (k, w) \<Rightarrow> k < nw \<and> w = m ! k \<and> w \<noteq> 0 \<and> (\<forall>j. ix \<le> j \<longrightarrow> j < k \<longrightarrow> m ! j = 0))"
proof (induction m nw ix rule: alloc_word.induct)
  case (1 m nw ix)
  show ?case
  proof (cases "ix < nw \<and> m ! ix = 0")
    case True
    have step: "alloc_word m nw ix = alloc_word m nw (Suc ix)"
      using 1(2) True by (subst alloc_word.simps) (simp add: word_at_def)
    have IH: "returns (alloc_word m nw (Suc ix)) (\<lambda>r. case r of
        None \<Rightarrow> \<forall>j. Suc ix \<le> j \<longrightarrow> j < nw \<longrightarrow> m ! j = 0
      | Some (k, w) \<Rightarrow> k < nw \<and> w = m ! k \<and> w \<noteq> 0 \<and> (\<forall>j. Suc ix \<le> j \<longrightarrow> j < k \<longrightarrow> m ! j = 0))"
      by (rule 1(1)) (use 1(2) True in \<open>simp_all add: word_at_def\<close>)
    have more: "\<forall>j. ix \<le> j \<longrightarrow> j < k \<longrightarrow> m ! j = 0"
      if "\<forall>j. Suc ix \<le> j \<longrightarrow> j < k \<longrightarrow> m ! j = 0" for k
    proof (intro allI impI)
      fix j
      assume "ix \<le> j" "j < k"
      then show "m ! j = 0" using that True by (cases "j = ix") auto
    qed
    show ?thesis
      unfolding step
    proof (rule returns_mono [OF IH], goal_cases)
      case (1 r)
      then show ?case by (cases r) (auto intro: more [rule_format])
    qed
  next
    case False
    then show ?thesis using 1(2) by (subst alloc_word.simps) (auto simp: word_at_def)
  qed
qed


lemma word_nonzero_bit: "w \<noteq> 0 \<Longrightarrow> \<exists>k. bit (w :: u32) k"
  using bit_word_eqI [of w 0] by auto

lemma free_blocks_flip:
  assumes "ix < length (bm_map b)" "off < 32"
  shows "free_blocks (b\<lparr>bm_map := (bm_map b)[ix := bm_map b ! ix XOR push_bit off 1]\<rparr>) =
    (if ix * 32 + off \<in> free_blocks b then free_blocks b - {ix * 32 + off}
     else insert (ix * 32 + off) (free_blocks b))"
proof -
  have eq: "i = ix * 32 + off \<longleftrightarrow> i div 32 = ix \<and> i mod 32 = off" for i
    using assms(2) div_mult_mod_eq [of i 32] by auto
  have "bm_bit ((bm_map b)[ix := bm_map b ! ix XOR push_bit off 1]) i \<longleftrightarrow>
      bm_bit (bm_map b) i \<noteq> (i = ix * 32 + off)" for i
    using assms unfolding bm_bit_update [OF assms(1)] bit_xor_push_bit_1 eq by (auto simp: bm_bit_def)
  then show ?thesis by (auto simp: free_blocks_def)
qed

lemma bitmap_ok_map:
  "bitmap_ok b \<Longrightarrow> length m = length (bm_map b) \<Longrightarrow>
     free_blocks (b\<lparr>bm_map := m\<rparr>) \<subseteq> {..<unat (bm_nbits b)} \<Longrightarrow> bitmap_ok (b\<lparr>bm_map := m\<rparr>)"
  by (simp add: bitmap_ok_def)

lemma bitmap_ok_index:
  assumes "bitmap_ok b" "index < bm_nbits b"
  shows "unat (index div 32) < length (bm_map b)"
    "unat (index div 32) * 32 + unat (index mod 32) = unat index"
  using assms by (auto simp: bitmap_ok_def word_less_nat_alt unat_div unat_mod)

lemma free_blocks_iff:
  "i \<in> free_blocks b \<longleftrightarrow> i div 32 < length (bm_map b) \<and> bit (bm_map b ! (i div 32)) (i mod 32)"
  by (simp add: free_blocks_def bm_bit_def)

lemma bitmap_alloc_full:
  assumes "bitmap_ok b" "free_blocks b = {}"
  shows "bitmap_alloc b = Some (Err E_NO_MEM, 0, b)"
proof -
  have "bm_map b ! k = 0" if "k < length (bm_map b)" for k
  proof (rule ccontr)
    assume "bm_map b ! k \<noteq> 0"
    then obtain j where "bit (bm_map b ! k) j" "j < 32"
      using word_nonzero_bit bit_imp_le_length by fastforce
    then have "k * 32 + j \<in> free_blocks b" using that by (simp add: free_blocks_iff)
    then show False using assms(2) by simp
  qed
  moreover have "unat (bm_nwords b) = length (bm_map b)" using assms(1) by (simp add: bitmap_ok_def)
  ultimately show ?thesis
    using alloc_word_spec [of "unat (bm_nwords b)" "bm_map b" 0]
    by (auto simp: bitmap_alloc_def returns_def split: option.splits)
qed

lemma bitmap_alloc_some:
  assumes ok: "bitmap_ok b" and ne: "free_blocks b \<noteq> {}"
  obtains k off where "k < length (bm_map b)" "off < 32" "bit (bm_map b ! k) off"
    "Min (free_blocks b) = k * 32 + off" "k * 32 + off \<in> free_blocks b"
    "bitmap_alloc b = Some (Ok, of_nat (k * 32 + off),
       b\<lparr>bm_map := (bm_map b)[k := bm_map b ! k XOR push_bit off 1]\<rparr>)"
proof -
  have len: "unat (bm_nwords b) = length (bm_map b)" and sub: "free_blocks b \<subseteq> {..<unat (bm_nbits b)}"
    using ok by (simp_all add: bitmap_ok_def)
  obtain i where i: "i \<in> free_blocks b" using ne by blast
  then have "bm_map b ! (i div 32) \<noteq> 0" by (auto simp: free_blocks_iff)
  then obtain k where k: "alloc_word (bm_map b) (unat (bm_nwords b)) 0 = Some (Some (k, bm_map b ! k))"
      "k < length (bm_map b)" "bm_map b ! k \<noteq> 0" "\<And>j. j < k \<Longrightarrow> bm_map b ! j = 0"
    using alloc_word_spec [OF len, of 0] i len
    by (auto simp: returns_def free_blocks_iff split: option.splits)
  obtain off where off: "alloc_bit (bm_map b ! k) 0 = Some off"
    using word_nonzero_bit [OF k(3)] alloc_bit_None [of "bm_map b ! k" 0]
    by (cases "alloc_bit (bm_map b ! k) 0") auto
  note off' = alloc_bit_Some [OF off]
  have free: "k * 32 + off \<in> free_blocks b" using k(2) off' by (simp add: free_blocks_iff)
  have "k * 32 + off \<le> j" if j: "j \<in> free_blocks b" for j
  proof -
    have "k \<le> j div 32" "j div 32 = k \<Longrightarrow> off \<le> j mod 32"
      using j k(4) [of "j div 32"] off' by (auto simp: free_blocks_iff not_less [symmetric])
    then show ?thesis using div_mult_mod_eq [of j 32] off' by (cases "j div 32 = k") auto
  qed
  moreover have "finite (free_blocks b)" using sub finite_subset by blast
  ultimately have "Min (free_blocks b) = k * 32 + off" using free by (intro Min_eqI)
  then show thesis
    using that [of k off] k off off' free by (simp add: bitmap_alloc_def)
qed

text \<open>C18. \<^verbatim>\<open>bitmap_alloc\<close> refines taking the least element of a set: on a well-formed bitmap it
  returns, fails with \<^verbatim>\<open>E_NO_MEM\<close> and changes nothing exactly when no block is free, and otherwise
  hands out the lowest free block, which lies inside the device, and marks exactly that one as
  used. The bitmap stays well-formed.\<close>

theorem bitmap_alloc_refines:
  assumes ok: "bitmap_ok b"
  shows "returns (bitmap_alloc b) (\<lambda>(ret, index, b').
    bitmap_ok b' \<and>
    (if free_blocks b = {} then ret = Err E_NO_MEM \<and> b' = b
     else ret = Ok \<and> unat index = Min (free_blocks b) \<and> unat index < unat (bm_nbits b) \<and>
       free_blocks b' = free_blocks b - {unat index}))"
proof (cases "free_blocks b = {}")
  case True
  then show ?thesis using bitmap_alloc_full [OF ok] ok by simp
next
  case False
  obtain k off where k: "k < length (bm_map b)" "off < 32" "bit (bm_map b ! k) off"
      "Min (free_blocks b) = k * 32 + off" "k * 32 + off \<in> free_blocks b"
      "bitmap_alloc b = Some (Ok, of_nat (k * 32 + off),
         b\<lparr>bm_map := (bm_map b)[k := bm_map b ! k XOR push_bit off 1]\<rparr>)"
    by (rule bitmap_alloc_some [OF ok False])
  let ?b = "b\<lparr>bm_map := (bm_map b)[k := bm_map b ! k XOR push_bit off 1]\<rparr>"
  have sub: "free_blocks b \<subseteq> {..<unat (bm_nbits b)}" using ok by (simp add: bitmap_ok_def)
  then have lt: "k * 32 + off < unat (bm_nbits b)" using k(5) by auto
  then have idx: "unat (of_nat (k * 32 + off) :: u32) = k * 32 + off"
    using unsigned_less [of "bm_nbits b", where ?'a = nat] by (intro unat_of_nat_u32) simp
  have fb: "free_blocks ?b = free_blocks b - {k * 32 + off}"
    using free_blocks_flip [OF k(1,2)] k(5) by simp
  have "bitmap_ok ?b" by (rule bitmap_ok_map [OF ok]) (use fb sub in auto)
  then show ?thesis unfolding k(6) returns_simps prod.case idx using False k(4) lt fb by simp
qed

lemma bm_bit_ones: "bm_bit (replicate n (- 1)) i \<longleftrightarrow> i < n * 32"
  by (auto simp: bm_bit_def div_less_iff_less_mult bit_minus_1_iff)

lemma bitmap_example:
  "bitmap_ok \<lparr>bm_nbits = 64, bm_nwords = 2, bm_map = [- 1, - 1]\<rparr>"
  "free_blocks \<lparr>bm_nbits = 64, bm_nwords = 2, bm_map = [- 1, - 1]\<rparr> = {..<64}"
  "free_blocks \<lparr>bm_nbits = 64, bm_nwords = 2, bm_map = [- 1, - 1]\<rparr> \<noteq> {}"
proof -
  have "[- 1, - 1 :: u32] = replicate 2 (- 1)" by (simp add: numeral_2_eq_2)
  then have "bm_bit [- 1, - 1] i \<longleftrightarrow> i < 64" for i using bm_bit_ones [of 2 i] by simp
  then show "bitmap_ok \<lparr>bm_nbits = 64, bm_nwords = 2, bm_map = [- 1, - 1]\<rparr>"
    "free_blocks \<lparr>bm_nbits = 64, bm_nwords = 2, bm_map = [- 1, - 1]\<rparr> = {..<64}"
    by (simp_all add: bitmap_ok_def free_blocks_def lessThan_def)
  then have "0 \<in> free_blocks \<lparr>bm_nbits = 64, bm_nwords = 2, bm_map = [- 1, - 1]\<rparr>" by simp
  then show "free_blocks \<lparr>bm_nbits = 64, bm_nwords = 2, bm_map = [- 1, - 1]\<rparr> \<noteq> {}" by blast
qed

theorem bitmap_alloc_refines_witness:
  "returns (bitmap_alloc \<lparr>bm_nbits = 64, bm_nwords = 2, bm_map = [- 1, - 1]\<rparr>) (\<lambda>(ret, index, b').
    bitmap_ok b' \<and> ret = Ok \<and> unat index = 0 \<and> free_blocks b' = {1..<64})"
proof (rule returns_mono [OF bitmap_alloc_refines [OF bitmap_example(1)]], goal_cases)
  case (1 x)
  have "Min {..<64 :: nat} = 0" by (rule Min_eqI) auto
  moreover have "{..<64 :: nat} - {0} = {1..<64}" by auto
  ultimately show ?case using 1(2) bitmap_example(3) unfolding bitmap_example(2) by (cases x) (simp del: One_nat_def)
qed

text \<open>C22. Freeing undoes allocating: the block just handed out tests as used, can be freed, and then
  the bitmap is the one before.\<close>

theorem bitmap_alloc_free_roundtrip:
  assumes ok: "bitmap_ok b" and free: "free_blocks b \<noteq> {}"
  shows "\<exists>index b'. bitmap_alloc b = Some (Ok, index, b') \<and> bitmap_test b' index = Some False \<and>
    bitmap_free b' index = Some b"
proof -
  obtain k off where k: "k < length (bm_map b)" "off < 32" "bit (bm_map b ! k) off"
      "k * 32 + off \<in> free_blocks b"
      "bitmap_alloc b = Some (Ok, of_nat (k * 32 + off),
         b\<lparr>bm_map := (bm_map b)[k := bm_map b ! k XOR push_bit off 1]\<rparr>)"
    by (rule bitmap_alloc_some [OF ok free])
  let ?w = "bm_map b ! k" and ?i = "of_nat (k * 32 + off) :: u32"
  let ?b = "b\<lparr>bm_map := (bm_map b)[k := ?w XOR push_bit off 1]\<rparr>"
  have lt: "k * 32 + off < unat (bm_nbits b)" using k(4) ok by (auto simp: bitmap_ok_def)
  then have idx: "unat ?i = k * 32 + off"
    using unsigned_less [of "bm_nbits b", where ?'a = nat] by (intro unat_of_nat_u32) simp
  have "unat (?i div 32) = k" "unat (?i mod 32) = off"
    unfolding unat_div unat_mod idx using k(2) by simp_all
  moreover have "?i < bm_nbits b" using lt idx by (simp only: word_less_nat_alt)
  ultimately have tr: "bitmap_translate ?b ?i = Some (k, push_bit off 1)"
    by (simp only: bitmap_translate_def) simp
  have used: "(?w XOR push_bit off 1) AND push_bit off 1 = 0"
    using and_push_bit_1 [of "?w XOR push_bit off 1" off] bit_xor_push_bit_1 [of ?w off off] k(2,3) by simp
  have "(?w XOR push_bit off 1) OR push_bit off 1 = ?w"
    by (rule bit_word_eqI) (use k(2,3) in \<open>auto simp only: bit_or_push_bit_1 bit_xor_push_bit_1\<close>)
  then have "bitmap_free ?b ?i = Some b" "bitmap_test ?b ?i = Some False"
    using used k(1) by (simp_all only: bitmap_free_def bitmap_test_def tr) (simp_all add: word_at_def)
  then show ?thesis using k(5) by blast
qed

theorem bitmap_alloc_free_roundtrip_witness:
  "\<exists>index b'. bitmap_alloc \<lparr>bm_nbits = 64, bm_nwords = 2, bm_map = [- 1, - 1]\<rparr> = Some (Ok, index, b') \<and>
    bitmap_test b' index = Some False \<and>
    bitmap_free b' index = Some \<lparr>bm_nbits = 64, bm_nwords = 2, bm_map = [- 1, - 1]\<rparr>"
  by (rule bitmap_alloc_free_roundtrip [OF bitmap_example(1,3)])

section \<open>Creating a bitmap\<close>

lemma bit_mark_overbits:
  "bit (mark_overbits k w) i \<longleftrightarrow> bit w i \<noteq> (unat k \<le> i \<and> i < 32)"
proof (induction k w rule: mark_overbits.induct)
  case (1 k w)
  show ?case
  proof (cases "k < 32")
    case True
    then have k: "unat k < 32" "unat (k + 1) = Suc (unat k)"
      by (auto simp: word_less_nat_alt unat_word_ariths)
    show ?thesis
      unfolding mark_overbits.simps [of k w] if_P [OF True] 1 [OF True] bit_xor_push_bit_1 k(2)
      using k(1) by auto
  next
    case False
    then show ?thesis by (simp add: mark_overbits.simps [of k w] word_less_nat_alt)
  qed
qed

lemma kmalloc_avail:
  "sz \<noteq> 0 \<Longrightarrow> unat sz \<le> 2 ^ 17 \<Longrightarrow> \<exists>n. kmalloc avail sz = Some (if avail then Some n else None)"
  using getorder_None [of sz] getorder_Some(2) [of sz]
  by (cases "getorder sz") (auto simp: kmalloc_def cassert_def word_neq_0_conv)

lemma in_block: "i div 32 = k \<Longrightarrow> n - 32 * k \<le> i mod 32 \<longleftrightarrow> n \<le> (i :: nat)"
  using mult_div_mod_eq [of 32 i] by linarith

text \<open>C23. A bitmap for up to a million blocks (a larger one would exceed what the allocator serves)
  is created whenever both allocations succeed, is well-formed, and has exactly the blocks of the
  device free: the bits past the end are marked as used.\<close>

theorem bitmap_create_all_free:
  assumes "nbits \<noteq> 0" "unat nbits \<le> 2 ^ 20"
  shows "returns (bitmap_create avail nbits) (\<lambda>b. case b of
     None \<Rightarrow> avail \<noteq> (True, True)
   | Some bm \<Rightarrow> bitmap_ok bm \<and> bm_nbits bm = nbits \<and> free_blocks bm = {..<unat nbits})"
proof -
  define nw where "nw = ROUNDUP_DIV nbits 32"
  have up: "unat (nbits + 32) = unat nbits + 32" "unat (31 + nbits) = unat nbits + 31"
    using assms(2) by (simp_all add: unat_add_small)
  have nw: "unat nw = (unat nbits + 31) div 32"
    by (simp add: nw_def ROUNDUP_DIV_def unat_div up)
  have pos: "0 < unat nbits" using assms(1) by (simp add: unat_gt_0)
  have bnd: "0 < unat nw" "unat nw \<le> 2 ^ 15" "unat nbits \<le> 32 * unat nw" "32 * unat nw < unat nbits + 32"
    using assms(2) pos nw by auto
  have mult: "unat (nw * 32) = 32 * unat nw" "unat (4 * nw) = 4 * unat nw"
    using bnd(2) by (simp_all add: unat_mult_lem [THEN iffD1])
  obtain n1 where k1: "kmalloc (fst avail) 12 = Some (if fst avail then Some n1 else None)"
    using kmalloc_avail [of 12] by auto
  obtain n2 where k2: "kmalloc (snd avail) (4 * nw) = Some (if snd avail then Some n2 else None)"
    using kmalloc_avail [of "4 * nw" "snd avail"] bnd(1,2) unfolding word_unat_eq_iff mult(2) by auto
  have guard: "nbits < nbits + 32" by (simp add: word_less_nat_alt up)
  have final: "bitmap_ok \<lparr>bm_nbits = nbits, bm_nwords = nw, bm_map = m\<rparr> \<and>
      free_blocks \<lparr>bm_nbits = nbits, bm_nwords = nw, bm_map = m\<rparr> = {..<unat nbits}"
    if "length m = unat nw" "\<And>i. bm_bit m i \<longleftrightarrow> i < unat nbits" for m
    using that bnd by (auto simp: bitmap_ok_def free_blocks_def)
  show ?thesis
  proof (cases "nbits = nw * 32")
    case True
    then have "unat nbits = unat nw * 32" using mult by simp
    then show ?thesis
      using assms(1) guard k1 k2 final [of "replicate (unat nw) (- 1)"] True [symmetric]
      by (cases avail) (simp add: bitmap_create_def Let_def nw_def [symmetric] bm_bit_ones)
  next
    case False
    then have ne: "unat nbits \<noteq> 32 * unat nw" using mult by (metis word_unat_eq_iff)
    define ix where "ix = nw - 1"
    let ?ov = "nbits - ix * 32"
    have ix: "unat ix = unat nw - 1" using bnd(1) unat_sub [of 1 nw] by (simp add: ix_def word_le_nat_alt)
    have "unat (ix * 32) = 32 * unat ix" using bnd(2) ix by (simp add: unat_mult_lem [THEN iffD1])
    moreover from this have "ix * 32 \<le> nbits" using ix bnd by (simp add: word_le_nat_alt)
    ultimately have ov: "unat ?ov = unat nbits - 32 * (unat nw - 1)" using ix by (simp add: unat_sub)
    have as: "nbits div 32 = ix" "0 < ?ov" "?ov < 32"
      using ix ov ne bnd by (auto simp: word_unat_eq_iff unat_div word_less_nat_alt)
    let ?m = "(replicate (unat nw) (- 1))[unat ix := mark_overbits ?ov (- 1)]"
    have "bm_bit ?m i \<longleftrightarrow> i < unat nbits" for i
      using bnd ne ov ix
      by (subst bm_bit_update) (auto simp: in_block bm_bit_ones bit_mark_overbits bit_minus_1_iff)
    then show ?thesis
      using assms(1) guard k1 k2 final [of ?m] False as ix bnd(1)
      by (cases avail) (simp add: bitmap_create_def Let_def nw_def [symmetric] ix_def [symmetric] word_at_def)
  qed
qed

theorem bitmap_create_all_free_witness:
  "returns (bitmap_create (True, True) 40) (\<lambda>b. \<exists>bm. b = Some bm \<and> free_blocks bm = {..<40})"
proof (rule returns_mono [OF bitmap_create_all_free], goal_cases)
  case (3 b)
  then show ?case by (cases b) simp_all
qed simp_all

end
