(* ===== verification/Sched.thy ===== *)
theory Sched
  imports Prelude
begin

text \<open>
  The process scheduler (\<^verbatim>\<open>schedule/sched.c\<close>) with its two scheduling classes, round robin
  (\<^verbatim>\<open>sched_RR.c\<close>) and the multi-level feedback queue (\<^verbatim>\<open>sched_MLFQ.c\<close>).

  A process is named by its process number. The run list of a queue is the sequence of processes
  its ring of links represents, and \<open>run_linked\<close> tells whether the link of a process is in a ring.
  Run queues are linked in a ring in the order of their processors and named by their position.
  Operations of a class are functions on the whole state; \<^verbatim>\<open>proc_run\<close> (page tables, stacks and
  the context switch) is reduced to the change of \<^verbatim>\<open>current\<close>.
\<close>

section \<open>State\<close>

datatype proc_state = PROC_UNINIT | PROC_SLEEPING | PROC_RUNNABLE | PROC_ZOMBIE

record proc_struct =
  pstate :: proc_state
  wait_state :: u32
  time_slice :: int
  need_resched :: bool
  proc_rq :: "nat option"
  run_linked :: bool
  pincpu :: bool
  cpu_affinity :: int
  runs :: int

record run_queue =
  run_list :: "nat list"
  proc_num :: u32
  max_time_slice :: int

record sched_state =
  procs :: "nat \<Rightarrow> proc_struct"
  rqs :: "run_queue list"
  this_cpu :: nat
  current :: nat
  idleproc :: nat

abbreviation lcpu_count :: "sched_state \<Rightarrow> nat" where
  "lcpu_count s \<equiv> length (rqs s)"

definition upd_proc :: "nat \<Rightarrow> (proc_struct \<Rightarrow> proc_struct) \<Rightarrow> sched_state \<Rightarrow> sched_state" where
  "upd_proc p f s = s\<lparr>procs := (procs s)(p := f (procs s p))\<rparr>"

definition rq_at :: "sched_state \<Rightarrow> nat \<Rightarrow> run_queue option" where
  "rq_at s rq = (if rq < length (rqs s) then Some (rqs s ! rq) else None)"

record sched_class =
  sc_enqueue :: "nat \<Rightarrow> nat \<Rightarrow> sched_state \<Rightarrow> sched_state option"
  sc_dequeue :: "nat \<Rightarrow> nat \<Rightarrow> sched_state \<Rightarrow> sched_state option"
  sc_pick_next :: "nat \<Rightarrow> sched_state \<Rightarrow> nat option option"
  sc_proc_tick :: "nat \<Rightarrow> sched_state \<Rightarrow> sched_state"

section \<open>Round robin\<close>

definition RR_init :: "run_queue \<Rightarrow> run_queue" where
  "RR_init rq = rq\<lparr>run_list := [], proc_num := 0\<rparr>"

definition RR_enqueue :: "nat \<Rightarrow> nat \<Rightarrow> sched_state \<Rightarrow> sched_state option" where
  "RR_enqueue rq p s = do {
     cassert (\<not> run_linked (procs s p));
     q \<leftarrow> rq_at s rq;
     let slice = time_slice (procs s p);
     let slice = (if slice = 0 \<or> max_time_slice q < slice then max_time_slice q else slice);
     Some (upd_proc p (\<lambda>pr. pr\<lparr>run_linked := True, time_slice := slice, proc_rq := Some rq\<rparr>)
       (s\<lparr>rqs := (rqs s)[rq := q\<lparr>run_list := run_list q @ [p], proc_num := proc_num q + 1\<rparr>]\<rparr>)) }"

definition RR_dequeue :: "nat \<Rightarrow> nat \<Rightarrow> sched_state \<Rightarrow> sched_state option" where
  "RR_dequeue rq p s = do {
     cassert (run_linked (procs s p) \<and> proc_rq (procs s p) = Some rq);
     q \<leftarrow> rq_at s rq;
     Some (upd_proc p (\<lambda>pr. pr\<lparr>run_linked := False\<rparr>)
       (s\<lparr>rqs := (rqs s)[rq := q\<lparr>run_list := remove1 p (run_list q), proc_num := proc_num q - 1\<rparr>]\<rparr>)) }"

definition RR_pick_next :: "nat \<Rightarrow> sched_state \<Rightarrow> nat option option" where
  "RR_pick_next rq s = do {
     q \<leftarrow> rq_at s rq;
     Some (case run_list q of [] \<Rightarrow> None | p # _ \<Rightarrow> Some p) }"

definition RR_proc_tick :: "nat \<Rightarrow> sched_state \<Rightarrow> sched_state" where
  "RR_proc_tick p s = upd_proc p (\<lambda>pr.
     let slice = (if 0 < time_slice pr then time_slice pr - 1 else time_slice pr) in
     pr\<lparr>time_slice := slice, need_resched := (slice = 0 \<or> need_resched pr)\<rparr>) s"

definition RR_sched_class :: sched_class where
  "RR_sched_class = \<lparr>sc_enqueue = RR_enqueue, sc_dequeue = RR_dequeue,
     sc_pick_next = RR_pick_next, sc_proc_tick = RR_proc_tick\<rparr>"

section \<open>Multi-level feedback queue\<close>

definition next_rq :: "sched_state \<Rightarrow> nat \<Rightarrow> nat" where
  "next_rq s rq = Suc rq mod length (rqs s)"

definition MLFQ_init :: "run_queue list \<Rightarrow> run_queue list" where
  "MLFQ_init qs = map RR_init qs"

definition MLFQ_enqueue :: "nat \<Rightarrow> nat \<Rightarrow> sched_state \<Rightarrow> sched_state option" where
  "MLFQ_enqueue rq p s = do {
     cassert (\<not> run_linked (procs s p));
     let nrq = (case proc_rq (procs s p) of
         None \<Rightarrow> rq
       | Some prq \<Rightarrow>
           if time_slice (procs s p) = 0 then if next_rq s prq = rq then prq else next_rq s prq
           else rq);
     RR_enqueue nrq p s }"

definition MLFQ_dequeue :: "nat \<Rightarrow> nat \<Rightarrow> sched_state \<Rightarrow> sched_state option" where
  "MLFQ_dequeue rq p s = do {
     cassert (run_linked (procs s p));
     prq \<leftarrow> proc_rq (procs s p);
     RR_dequeue prq p s }"

primrec first_ready :: "nat list \<Rightarrow> sched_state \<Rightarrow> nat option option" where
  "first_ready [] s = Some None"
| "first_ready (rq # rest) s = do {
     p \<leftarrow> RR_pick_next rq s;
     if p \<noteq> None then Some p else first_ready rest s }"

text \<open>The ring of queues, from \<open>rq\<close> once around.\<close>

definition MLFQ_pick_next :: "nat \<Rightarrow> sched_state \<Rightarrow> nat option option" where
  "MLFQ_pick_next rq s = first_ready ([rq..<length (rqs s)] @ [0..<rq]) s"

text \<open>The round robin tick does not look at the queue it is given.\<close>

definition MLFQ_proc_tick :: "nat \<Rightarrow> sched_state \<Rightarrow> sched_state" where
  "MLFQ_proc_tick p s = RR_proc_tick p s"

definition MLFQ_sched_class :: sched_class where
  "MLFQ_sched_class = \<lparr>sc_enqueue = MLFQ_enqueue, sc_dequeue = MLFQ_dequeue,
     sc_pick_next = MLFQ_pick_next, sc_proc_tick = MLFQ_proc_tick\<rparr>"

section \<open>The core\<close>

definition sched_class_enqueue :: "sched_class \<Rightarrow> nat \<Rightarrow> sched_state \<Rightarrow> sched_state option" where
  "sched_class_enqueue sc p s =
     (if p \<noteq> idleproc s then
        if pincpu (procs s p) then do {
          cassert (0 \<le> cpu_affinity (procs s p) \<and> cpu_affinity (procs s p) < int (lcpu_count s));
          sc_enqueue sc (nat (cpu_affinity (procs s p))) p s }
        else sc_enqueue sc (this_cpu s) p s
      else Some s)"

definition sched_class_dequeue :: "sched_class \<Rightarrow> nat \<Rightarrow> sched_state \<Rightarrow> sched_state option" where
  "sched_class_dequeue sc p s = sc_dequeue sc (this_cpu s) p s"

definition sched_class_pick_next :: "sched_class \<Rightarrow> sched_state \<Rightarrow> nat option option" where
  "sched_class_pick_next sc s = sc_pick_next sc (this_cpu s) s"

definition sched_class_proc_tick :: "sched_class \<Rightarrow> nat \<Rightarrow> sched_state \<Rightarrow> sched_state" where
  "sched_class_proc_tick sc p s =
     (if p \<noteq> idleproc s then sc_proc_tick sc p s else upd_proc p (\<lambda>pr. pr\<lparr>need_resched := True\<rparr>) s)"

text \<open>Every queue gets the time slice of the first one.\<close>

definition sched_init :: "nat \<Rightarrow> run_queue list" where
  "sched_init lcpus = MLFQ_init (replicate lcpus \<lparr>run_list = [], proc_num = 0, max_time_slice = 8\<rparr>)"

definition stop_proc :: "sched_class \<Rightarrow> nat \<Rightarrow> u32 \<Rightarrow> sched_state \<Rightarrow> sched_state option" where
  "stop_proc sc p wt s =
     (let s = upd_proc p (\<lambda>pr. pr\<lparr>pstate := PROC_SLEEPING, wait_state := wt\<rparr>) s in
      if run_linked (procs s p) then sched_class_dequeue sc p s else Some s)"

definition wakeup_proc :: "sched_class \<Rightarrow> nat \<Rightarrow> sched_state \<Rightarrow> sched_state option" where
  "wakeup_proc sc p s = do {
     cassert (pstate (procs s p) \<noteq> PROC_ZOMBIE);
     if pstate (procs s p) \<noteq> PROC_RUNNABLE then do {
       let s = upd_proc p (\<lambda>pr. pr\<lparr>pstate := PROC_RUNNABLE, wait_state := 0\<rparr>) s;
       if p \<noteq> current s then do {
         cassert (lcpu_count s \<le> p);
         sched_class_enqueue sc p s }
       else Some s }
     else Some s }"

abbreviation (input) WT_SIGNAL :: u32 where "WT_SIGNAL \<equiv> 0x80000400"

text \<open>The other threads of a process, \<open>threads\<close>, are woken when they wait for a signal.\<close>

primrec wake_threads :: "sched_class \<Rightarrow> nat list \<Rightarrow> sched_state \<Rightarrow> sched_state option" where
  "wake_threads sc [] s = Some s"
| "wake_threads sc (p # ps) s =
     (if pstate (procs s p) = PROC_SLEEPING \<and> wait_state (procs s p) = WT_SIGNAL then do {
        let s = upd_proc p (\<lambda>pr. pr\<lparr>pstate := PROC_RUNNABLE, wait_state := 0\<rparr>) s;
        s \<leftarrow> (if p \<noteq> current s then sched_class_enqueue sc p s else Some s);
        wake_threads sc ps s }
      else wake_threads sc ps s)"

definition try_to_wakeup :: "sched_class \<Rightarrow> nat \<Rightarrow> nat list \<Rightarrow> sched_state \<Rightarrow> (bool \<times> sched_state) option" where
  "try_to_wakeup sc p threads s = do {
     cassert (pstate (procs s p) \<noteq> PROC_ZOMBIE);
     (ret, s) \<leftarrow>
       (if pstate (procs s p) \<noteq> PROC_RUNNABLE then do {
          let s = upd_proc p (\<lambda>pr. pr\<lparr>pstate := PROC_RUNNABLE, wait_state := 0\<rparr>) s;
          s \<leftarrow> (if p \<noteq> current s then sched_class_enqueue sc p s else Some s);
          Some (True, s) }
        else Some (False, s));
     s \<leftarrow> wake_threads sc threads s;
     Some (ret, s) }"

definition schedule :: "sched_class \<Rightarrow> sched_state \<Rightarrow> sched_state option" where
  "schedule sc s = do {
     let s = upd_proc (current s) (\<lambda>pr. pr\<lparr>need_resched := False\<rparr>) s;
     s \<leftarrow> (if pstate (procs s (current s)) = PROC_RUNNABLE \<and> lcpu_count s \<le> current s
           then sched_class_enqueue sc (current s) s else Some s);
     next' \<leftarrow> sched_class_pick_next sc s;
     (p, s) \<leftarrow> (case next' of
         Some p \<Rightarrow> do { s \<leftarrow> sched_class_dequeue sc p s; Some (p, s) }
       | None \<Rightarrow> Some (idleproc s, s));
     let s = upd_proc p (\<lambda>pr. pr\<lparr>runs := runs pr + 1\<rparr>) s;
     Some (s\<lparr>current := p\<rparr>) }"

section \<open>Run queues\<close>

definition ready :: "sched_state \<Rightarrow> nat set" where
  "ready s = {p. run_linked (procs s p)}"

definition on_rq :: "nat \<Rightarrow> sched_state \<Rightarrow> nat set" where
  "on_rq rq s = set (run_list (rqs s ! rq))"

text \<open>The links of the processes and the lists of the queues agree.\<close>

definition rq_ok :: "sched_state \<Rightarrow> bool" where
  "rq_ok s \<longleftrightarrow>
     (\<forall>i < length (rqs s). distinct (run_list (rqs s ! i)) \<and>
        proc_num (rqs s ! i) = of_nat (length (run_list (rqs s ! i)))) \<and>
     (\<forall>i < length (rqs s). \<forall>p \<in> on_rq i s. run_linked (procs s p) \<and> proc_rq (procs s p) = Some i) \<and>
     (\<forall>p i. proc_rq (procs s p) = Some i \<longrightarrow> i < length (rqs s)) \<and>
     (\<forall>p. run_linked (procs s p) \<longrightarrow> (\<exists>i. proc_rq (procs s p) = Some i \<and> p \<in> on_rq i s))"

lemma rq_okD:
  assumes "rq_ok s"
  shows "i < length (rqs s) \<Longrightarrow> distinct (run_list (rqs s ! i))"
    "i < length (rqs s) \<Longrightarrow> proc_num (rqs s ! i) = of_nat (length (run_list (rqs s ! i)))"
    "i < length (rqs s) \<Longrightarrow> p \<in> on_rq i s \<Longrightarrow> run_linked (procs s p)"
    "i < length (rqs s) \<Longrightarrow> p \<in> on_rq i s \<Longrightarrow> proc_rq (procs s p) = Some i"
    "proc_rq (procs s p) = Some i \<Longrightarrow> i < length (rqs s)"
  using assms unfolding rq_ok_def by blast+

lemma rq_ok_linked:
  assumes "rq_ok s" "run_linked (procs s p)"
  obtains i where "proc_rq (procs s p) = Some i" "p \<in> on_rq i s" "i < length (rqs s)"
  using assms unfolding rq_ok_def by blast

text \<open>What the operations of a class leave alone.\<close>

definition sched_frame :: "sched_state \<Rightarrow> sched_state \<Rightarrow> bool" where
  "sched_frame s s' \<longleftrightarrow> current s' = current s \<and> idleproc s' = idleproc s \<and> this_cpu s' = this_cpu s \<and>
     length (rqs s') = length (rqs s) \<and>
     (\<forall>p. pstate (procs s' p) = pstate (procs s p) \<and> wait_state (procs s' p) = wait_state (procs s p) \<and>
        pincpu (procs s' p) = pincpu (procs s p) \<and> cpu_affinity (procs s' p) = cpu_affinity (procs s p))"

lemma upd_proc_simps [simp]:
  "procs (upd_proc p f s) = (procs s)(p := f (procs s p))"
  "rqs (upd_proc p f s) = rqs s" "current (upd_proc p f s) = current s"
  "idleproc (upd_proc p f s) = idleproc s" "this_cpu (upd_proc p f s) = this_cpu s"
  by (simp_all add: upd_proc_def)

definition keeps_links :: "(proc_struct \<Rightarrow> proc_struct) \<Rightarrow> bool" where
  "keeps_links f \<longleftrightarrow> (\<forall>pr. run_linked (f pr) = run_linked pr \<and> proc_rq (f pr) = proc_rq pr)"

lemma keeps_links_intros [simp]:
  "keeps_links (\<lambda>pr. pr\<lparr>need_resched := b\<rparr>)"
  "keeps_links (\<lambda>pr. pr\<lparr>runs := runs pr + 1\<rparr>)"
  "keeps_links (\<lambda>pr. pr\<lparr>pstate := st\<rparr>)"
  "keeps_links (\<lambda>pr. pr\<lparr>pstate := st, wait_state := w\<rparr>)"
  by (simp_all add: keeps_links_def)

lemma on_rq_upd_proc [simp]: "on_rq i (upd_proc p f s) = on_rq i s"
  by (simp add: on_rq_def)

lemma links_upd_proc:
  "keeps_links f \<Longrightarrow> run_linked (procs (upd_proc p f s) q) = run_linked (procs s q)"
  "keeps_links f \<Longrightarrow> proc_rq (procs (upd_proc p f s) q) = proc_rq (procs s q)"
  by (auto simp: keeps_links_def)

lemma ready_upd_proc: "keeps_links f \<Longrightarrow> ready (upd_proc p f s) = ready s"
  unfolding ready_def by (simp only: links_upd_proc)

lemma rq_ok_upd_proc: "keeps_links f \<Longrightarrow> rq_ok (upd_proc p f s) = rq_ok s"
  unfolding rq_ok_def by (simp only: links_upd_proc on_rq_upd_proc upd_proc_simps(2))

lemma rq_ok_current [simp]: "rq_ok (s\<lparr>current := p\<rparr>) = rq_ok s" "ready (s\<lparr>current := p\<rparr>) = ready s"
  by (simp_all add: rq_ok_def ready_def on_rq_def)

lemma RR_enqueue_ok:
  assumes ok: "rq_ok s" and rq: "rq < length (rqs s)" and p: "p \<notin> ready s"
  obtains s' where "RR_enqueue rq p s = Some s'" "rq_ok s'" "ready s' = insert p (ready s)"
    "sched_frame s s'" "run_list (rqs s' ! rq) = run_list (rqs s ! rq) @ [p]"
    "\<And>i. i \<noteq> rq \<Longrightarrow> rqs s' ! i = rqs s ! i"
    "\<And>q. q \<noteq> p \<Longrightarrow> procs s' q = procs s q"
proof
  let ?q = "rqs s ! rq"
  let ?sl = "if time_slice (procs s p) = 0 \<or> max_time_slice ?q < time_slice (procs s p)
    then max_time_slice ?q else time_slice (procs s p)"
  let ?s = "upd_proc p (\<lambda>pr. pr\<lparr>run_linked := True, time_slice := ?sl, proc_rq := Some rq\<rparr>)
    (s\<lparr>rqs := (rqs s)[rq := ?q\<lparr>run_list := run_list ?q @ [p], proc_num := proc_num ?q + 1\<rparr>]\<rparr>)"
  show "RR_enqueue rq p s = Some ?s"
    using rq p by (simp add: RR_enqueue_def rq_at_def ready_def Let_def)
  have on: "on_rq i ?s = (if i = rq then insert p (on_rq rq s) else on_rq i s)" if "i < length (rqs s)" for i
    using that rq by (auto simp: on_rq_def nth_list_update)
  have notin: "p \<notin> on_rq i s" if "i < length (rqs s)" for i
    using that p rq_okD(3) [OF ok] by (auto simp: ready_def)
  show "rq_ok ?s"
    unfolding rq_ok_def
  proof (intro conjI allI impI ballI)
    fix i assume i: "i < length (rqs ?s)"
    show "distinct (run_list (rqs ?s ! i))" "proc_num (rqs ?s ! i) = of_nat (length (run_list (rqs ?s ! i)))"
      using i rq notin [of rq] rq_okD(1,2) [OF ok, of i]
      by (auto simp: nth_list_update on_rq_def)
    fix x assume x: "x \<in> on_rq i ?s"
    then have "x = p \<and> i = rq \<or> x \<noteq> p \<and> x \<in> on_rq i s"
      using on [of i] notin [of i] i by (auto split: if_splits)
    then show "run_linked (procs ?s x)" "proc_rq (procs ?s x) = Some i"
      using rq_okD(3,4) [OF ok, of i x] i by auto
  next
    fix x i assume "proc_rq (procs ?s x) = Some i"
    then show "i < length (rqs ?s)" using rq_okD(5) [OF ok, of x i] rq by (auto split: if_splits)
  next
    fix x assume x: "run_linked (procs ?s x)"
    show "\<exists>i. proc_rq (procs ?s x) = Some i \<and> x \<in> on_rq i ?s"
    proof (cases "x = p")
      case False
      then obtain i where "proc_rq (procs s x) = Some i" "x \<in> on_rq i s" "i < length (rqs s)"
        using rq_ok_linked [OF ok, of x] x by auto
      then show ?thesis using False on [of i] by auto
    qed (use on [OF rq] in auto)
  qed
  show "ready ?s = insert p (ready s)" by (auto simp: ready_def)
qed (use rq in \<open>auto simp: sched_frame_def nth_list_update\<close>)

lemma RR_dequeue_ok:
  assumes ok: "rq_ok s" and rq: "rq < length (rqs s)" and p: "p \<in> on_rq rq s"
  obtains s' where "RR_dequeue rq p s = Some s'" "rq_ok s'" "ready s' = ready s - {p}"
    "sched_frame s s'" "run_list (rqs s' ! rq) = remove1 p (run_list (rqs s ! rq))"
    "\<And>i. i \<noteq> rq \<Longrightarrow> rqs s' ! i = rqs s ! i"
    "\<And>q. q \<noteq> p \<Longrightarrow> procs s' q = procs s q"
proof
  let ?q = "rqs s ! rq"
  let ?s = "upd_proc p (\<lambda>pr. pr\<lparr>run_linked := False\<rparr>)
    (s\<lparr>rqs := (rqs s)[rq := ?q\<lparr>run_list := remove1 p (run_list ?q), proc_num := proc_num ?q - 1\<rparr>]\<rparr>)"
  have pr: "run_linked (procs s p)" "proc_rq (procs s p) = Some rq"
    using rq_okD(3,4) [OF ok rq p] by auto
  then show "RR_dequeue rq p s = Some ?s"
    using rq by (simp add: RR_dequeue_def rq_at_def)
  have d: "distinct (run_list ?q)" "proc_num ?q = of_nat (length (run_list ?q))"
    using rq_okD(1,2) [OF ok rq] by auto
  have on: "on_rq i ?s = (if i = rq then on_rq rq s - {p} else on_rq i s)" if "i < length (rqs s)" for i
    using that rq d by (auto simp: on_rq_def nth_list_update)
  have other: "p \<notin> on_rq i s" if "i < length (rqs s)" "i \<noteq> rq" for i
    using that rq_okD(4) [OF ok, of i p] pr by auto
  obtain k where "length (run_list ?q) = Suc k"
    using p by (cases "run_list ?q") (auto simp: on_rq_def)
  then have num: "proc_num ?q - 1 = of_nat (length (remove1 p (run_list ?q)))"
    using d p by (simp add: length_remove1 on_rq_def)
  show "rq_ok ?s"
    unfolding rq_ok_def
  proof (intro conjI allI impI ballI)
    fix i assume i: "i < length (rqs ?s)"
    show "distinct (run_list (rqs ?s ! i))" "proc_num (rqs ?s ! i) = of_nat (length (run_list (rqs ?s ! i)))"
      using i rq num rq_okD(1,2) [OF ok, of i] by (auto simp: nth_list_update)
    fix x assume x: "x \<in> on_rq i ?s"
    then have "x \<noteq> p" "x \<in> on_rq i s" using on [of i] other [of i] i by (auto split: if_splits)
    then show "run_linked (procs ?s x)" "proc_rq (procs ?s x) = Some i"
      using rq_okD(3,4) [OF ok, of i x] i by auto
  next
    fix x i assume "proc_rq (procs ?s x) = Some i"
    then show "i < length (rqs ?s)" using rq_okD(5) [OF ok, of x i] by (auto split: if_splits)
  next
    fix x assume x: "run_linked (procs ?s x)"
    then have "x \<noteq> p" "run_linked (procs s x)" by (auto split: if_splits)
    moreover from this obtain i where "proc_rq (procs s x) = Some i" "x \<in> on_rq i s" "i < length (rqs s)"
      using rq_ok_linked [OF ok] by blast
    ultimately show "\<exists>i. proc_rq (procs ?s x) = Some i \<and> x \<in> on_rq i ?s"
      using on [of i] by (intro exI [of _ i]) auto
  qed
  show "ready ?s = ready s - {p}" by (auto simp: ready_def)
qed (use rq in \<open>auto simp: sched_frame_def nth_list_update\<close>)

section \<open>What the core relies on\<close>

definition sched_inv :: "sched_state \<Rightarrow> bool" where
  "sched_inv s \<longleftrightarrow> rq_ok s \<and> this_cpu s < lcpu_count s \<and> idleproc s < lcpu_count s \<and>
     (\<forall>p. pincpu (procs s p) \<longrightarrow> 0 \<le> cpu_affinity (procs s p) \<and> cpu_affinity (procs s p) < int (lcpu_count s)) \<and>
     current s \<notin> ready s \<and>
     (\<forall>p \<in> ready s. pstate (procs s p) = PROC_RUNNABLE \<and> lcpu_count s \<le> p) \<and>
     (\<forall>p. pstate (procs s p) = PROC_RUNNABLE \<longrightarrow> lcpu_count s \<le> p \<longrightarrow> p = current s \<or> p \<in> ready s)"

text \<open>The processes that compete for the processor when \<^verbatim>\<open>schedule\<close> is called.\<close>

definition runnable :: "sched_state \<Rightarrow> nat set" where
  "runnable s = ready s \<union>
     (if pstate (procs s (current s)) = PROC_RUNNABLE \<and> lcpu_count s \<le> current s then {current s} else {})"

text \<open>What happens to the scheduler: the core's operations, a process that puts itself to sleep
  (\<^verbatim>\<open>wait_current_set\<close>) or exits, and the clock.\<close>

inductive sched_step :: "sched_class \<Rightarrow> sched_state \<Rightarrow> sched_state \<Rightarrow> bool" for sc where
  schedule: "schedule sc s = Some s' \<Longrightarrow> sched_step sc s s'"
| wakeup: "wakeup_proc sc p s = Some s' \<Longrightarrow> sched_step sc s s'"
| stop: "stop_proc sc p wt s = Some s' \<Longrightarrow> sched_step sc s s'"
| sleep: "sched_step sc s (upd_proc (current s) (\<lambda>pr. pr\<lparr>pstate := PROC_SLEEPING, wait_state := wt\<rparr>) s)"
| exit: "sched_step sc s (upd_proc (current s) (\<lambda>pr. pr\<lparr>pstate := PROC_ZOMBIE\<rparr>) s)"
| tick: "sched_step sc s (sched_class_proc_tick sc (current s) s)"

lemma sched_frame_refl [simp]: "sched_frame s s"
  by (simp add: sched_frame_def)

lemma sched_frameD:
  assumes "sched_frame s s'"
  shows "current s' = current s" "idleproc s' = idleproc s" "this_cpu s' = this_cpu s"
    "length (rqs s') = length (rqs s)" "pstate (procs s' p) = pstate (procs s p)"
    "pincpu (procs s' p) = pincpu (procs s p)" "cpu_affinity (procs s' p) = cpu_affinity (procs s p)"
    "wait_state (procs s' p) = wait_state (procs s p)"
  using assms by (simp_all add: sched_frame_def)

text \<open>The contract of a scheduling class: \<open>scope rq s\<close> are the processes it can pick for the
  processor of the queue \<open>rq\<close>.\<close>

locale scheduling_class =
  fixes sc :: sched_class and scope :: "nat \<Rightarrow> sched_state \<Rightarrow> nat set"
  assumes enqueue: "rq_ok s \<Longrightarrow> rq < lcpu_count s \<Longrightarrow> p \<notin> ready s \<Longrightarrow>
      returns (sc_enqueue sc rq p s)
        (\<lambda>s'. rq_ok s' \<and> ready s' = insert p (ready s) \<and> sched_frame s s')"
    and dequeue: "rq_ok s \<Longrightarrow> rq < lcpu_count s \<Longrightarrow> p \<in> ready s \<Longrightarrow>
      ensures (sc_dequeue sc rq p s) (\<lambda>s'. rq_ok s' \<and> ready s' = ready s - {p} \<and> sched_frame s s')"
    and dequeue_defined: "rq_ok s \<Longrightarrow> rq < lcpu_count s \<Longrightarrow> p \<in> scope rq s \<Longrightarrow>
      \<exists>s'. sc_dequeue sc rq p s = Some s'"
    and pick: "rq_ok s \<Longrightarrow> rq < lcpu_count s \<Longrightarrow> returns (sc_pick_next sc rq s)
        (\<lambda>r. case r of None \<Rightarrow> scope rq s = {} | Some p \<Rightarrow> p \<in> scope rq s)"
    and scope: "rq_ok s \<Longrightarrow> rq < lcpu_count s \<Longrightarrow> scope rq s \<subseteq> ready s"
    and proc_tick: "rq_ok (sc_proc_tick sc p s) = rq_ok s" "ready (sc_proc_tick sc p s) = ready s"
      "sched_frame s (sc_proc_tick sc p s)"
begin

lemma class_enqueue:
  assumes "rq_ok s" "this_cpu s < lcpu_count s" "p \<notin> ready s" "p \<noteq> idleproc s"
    "pincpu (procs s p) \<longrightarrow> 0 \<le> cpu_affinity (procs s p) \<and> cpu_affinity (procs s p) < int (lcpu_count s)"
  shows "returns (sched_class_enqueue sc p s)
    (\<lambda>s'. rq_ok s' \<and> ready s' = insert p (ready s) \<and> sched_frame s s')"
  using assms enqueue [of s _ p]
  by (cases "pincpu (procs s p)") (simp_all add: sched_class_enqueue_def nat_less_iff)

lemma requeue:
  assumes inv: "sched_inv s"
  shows "returns (if pstate (procs s (current s)) = PROC_RUNNABLE \<and> lcpu_count s \<le> current s
      then sched_class_enqueue sc (current s) s else Some s)
    (\<lambda>s'. rq_ok s' \<and> ready s' = runnable s \<and> sched_frame s s')"
proof (cases "pstate (procs s (current s)) = PROC_RUNNABLE \<and> lcpu_count s \<le> current s")
  case True
  have "returns (sched_class_enqueue sc (current s) s)
      (\<lambda>s'. rq_ok s' \<and> ready s' = insert (current s) (ready s) \<and> sched_frame s s')"
    using inv True by (intro class_enqueue) (auto simp: sched_inv_def)
  then show ?thesis using True by (auto elim!: returns_mono simp: runnable_def)
qed (use inv in \<open>auto simp: sched_inv_def runnable_def\<close>)

lemma switch_to:
  assumes "sched_inv s" "rq_ok s'" "ready s' = runnable s - {p}" "sched_frame s s'"
  shows "sched_inv ((upd_proc p (\<lambda>pr. pr\<lparr>runs := runs pr + 1\<rparr>) s')\<lparr>current := p\<rparr>)"
  using assms sched_frameD [OF assms(4)]
  by (auto simp: sched_inv_def runnable_def rq_ok_upd_proc ready_upd_proc split: if_splits)

lemma schedule_ok:
  assumes inv: "sched_inv s"
  shows "returns (schedule sc s) (\<lambda>s'. sched_inv s' \<and> ready s' = runnable s - {current s'} \<and>
    (current s' \<in> runnable s \<or> current s' = idleproc s \<and>
      (\<exists>s2. rq_ok s2 \<and> ready s2 = runnable s \<and> this_cpu s2 < lcpu_count s2 \<and> scope (this_cpu s2) s2 = {})) \<and>
    (\<forall>p. pstate (procs s' p) = pstate (procs s p) \<and> wait_state (procs s' p) = wait_state (procs s p)) \<and>
    lcpu_count s' = lcpu_count s)"
proof -
  define s1 where "s1 = upd_proc (current s) (\<lambda>pr. pr\<lparr>need_resched := False\<rparr>) s"
  have s1: "sched_inv s1" "runnable s1 = runnable s" "sched_frame s s1"
    using inv by (auto simp: s1_def sched_inv_def rq_ok_upd_proc ready_upd_proc sched_frame_def runnable_def)
  obtain s2 where s2: "rq_ok s2" "ready s2 = runnable s1" "sched_frame s1 s2"
      "(if pstate (procs s1 (current s1)) = PROC_RUNNABLE \<and> lcpu_count s1 \<le> current s1
        then sched_class_enqueue sc (current s1) s1 else Some s1) = Some s2"
    by (rule returnsE [OF requeue [OF s1(1)]]) blast
  note f2 = sched_frameD [OF s2(3)]
  have cpu: "this_cpu s2 < lcpu_count s2" using s1(1) f2 by (simp add: sched_inv_def)
  obtain r where r: "sc_pick_next sc (this_cpu s2) s2 = Some r"
      "case r of None \<Rightarrow> scope (this_cpu s2) s2 = {} | Some p \<Rightarrow> p \<in> scope (this_cpu s2) s2"
    by (rule returnsE [OF pick [OF s2(1) cpu]]) blast
  have code: "schedule sc s = (case r of
         Some p \<Rightarrow> do { s \<leftarrow> sc_dequeue sc (this_cpu s2) p s2;
           Some ((upd_proc p (\<lambda>pr. pr\<lparr>runs := runs pr + 1\<rparr>) s)\<lparr>current := p\<rparr>) }
       | None \<Rightarrow> Some ((upd_proc (idleproc s2) (\<lambda>pr. pr\<lparr>runs := runs pr + 1\<rparr>) s2)\<lparr>current := idleproc s2\<rparr>))"
    unfolding schedule_def Let_def s1_def [symmetric] s2(4) sched_class_pick_next_def sched_class_dequeue_def
    by (cases r) (simp_all add: r(1))
  show ?thesis
  proof (cases r)
    case None
    have "idleproc s \<notin> runnable s" using inv by (auto simp: sched_inv_def runnable_def split: if_splits)
    then have "ready s2 = runnable s1 - {idleproc s}" using s1 s2 by auto
    moreover have "\<exists>s2. rq_ok s2 \<and> ready s2 = runnable s \<and> this_cpu s2 < lcpu_count s2 \<and> scope (this_cpu s2) s2 = {}"
      using s1 s2 cpu r(2) None by auto
    ultimately show ?thesis
      using code None switch_to [OF s1(1) s2(1) _ s2(3), of "idleproc s"] s1 s2 f2 sched_frameD [OF s1(3)]
      by (simp add: ready_upd_proc)
  next
    case (Some p)
    then have p: "p \<in> scope (this_cpu s2) s2" "p \<in> ready s2" using r(2) scope [OF s2(1) cpu] by auto
    obtain s3 where s3: "sc_dequeue sc (this_cpu s2) p s2 = Some s3"
      using dequeue_defined [OF s2(1) cpu p(1)] by blast
    have s3': "rq_ok s3" "ready s3 = runnable s1 - {p}" "sched_frame s2 s3"
      using ensuresD [OF dequeue [OF s2(1) cpu p(2)] s3] s2(2) by auto
    then have "sched_frame s1 s3" using s2(3) by (simp add: sched_frame_def)
    then show ?thesis
      using code Some s3 switch_to [OF s1(1) s3'(1,2)] s3' p(2) s2(2) s1 sched_frameD [of s1 s3]
        sched_frameD [OF s1(3)] by (simp add: ready_upd_proc)
  qed
qed

lemma wakeup_proc_ok:
  assumes inv: "sched_inv s" and p: "pstate (procs s p) \<noteq> PROC_ZOMBIE" "p = current s \<or> lcpu_count s \<le> p"
  shows "returns (wakeup_proc sc p s) (\<lambda>s'. sched_inv s' \<and> current s' = current s \<and>
    lcpu_count s' = lcpu_count s \<and>
    (\<forall>q. pstate (procs s' q) = (if q = p then PROC_RUNNABLE else pstate (procs s q)) \<and>
      wait_state (procs s' q) =
        (if q = p \<and> pstate (procs s p) \<noteq> PROC_RUNNABLE then 0 else wait_state (procs s q))))"
proof (cases "pstate (procs s p) = PROC_RUNNABLE")
  case True
  then show ?thesis using inv by (simp add: wakeup_proc_def)
next
  case False
  define s1 where "s1 = upd_proc p (\<lambda>pr. pr\<lparr>pstate := PROC_RUNNABLE, wait_state := 0\<rparr>) s"
  have s1: "rq_ok s1" "ready s1 = ready s" "current s1 = current s" "idleproc s1 = idleproc s"
      "rqs s1 = rqs s" "this_cpu s1 = this_cpu s" "p \<notin> ready s"
    using inv False by (auto simp: s1_def sched_inv_def rq_ok_upd_proc ready_upd_proc)
  show ?thesis
  proof (cases "p = current s")
    case True
    then show ?thesis
      using False p(1) inv s1 unfolding wakeup_proc_def s1_def [symmetric] Let_def
      by (auto simp: sched_inv_def s1_def)
  next
    case other: False
    have pst: "pstate (procs s1 q) = (if q = p then PROC_RUNNABLE else pstate (procs s q))"
      "pincpu (procs s1 q) = pincpu (procs s q)" "cpu_affinity (procs s1 q) = cpu_affinity (procs s q)"
      "wait_state (procs s1 q) = (if q = p then 0 else wait_state (procs s q))" for q
      by (auto simp: s1_def)
    have "returns (sched_class_enqueue sc p s1)
        (\<lambda>s'. rq_ok s' \<and> ready s' = insert p (ready s1) \<and> sched_frame s1 s')"
      using inv s1 p(2) other pst by (intro class_enqueue) (auto simp: sched_inv_def)
    moreover have "sched_inv s' \<and> current s' = current s \<and> lcpu_count s' = lcpu_count s \<and>
        (\<forall>q. pstate (procs s' q) = (if q = p then PROC_RUNNABLE else pstate (procs s q)) \<and>
          wait_state (procs s' q) =
        (if q = p \<and> pstate (procs s p) \<noteq> PROC_RUNNABLE then 0 else wait_state (procs s q)))"
      if s': "rq_ok s'" "ready s' = insert p (ready s1)" "sched_frame s1 s'" for s'
      using inv s1 pst other p(2) sched_frameD [OF s'(3)] s' by (auto simp: sched_inv_def sched_frame_def)
    ultimately have "returns (sched_class_enqueue sc p s1) (\<lambda>s'. sched_inv s' \<and> current s' = current s \<and>
        lcpu_count s' = lcpu_count s \<and>
        (\<forall>q. pstate (procs s' q) = (if q = p then PROC_RUNNABLE else pstate (procs s q)) \<and>
          wait_state (procs s' q) =
        (if q = p \<and> pstate (procs s p) \<noteq> PROC_RUNNABLE then 0 else wait_state (procs s q))))"
      by (elim returns_mono) blast
    then show ?thesis
      using False p other s1 unfolding wakeup_proc_def s1_def [symmetric] Let_def by simp
  qed
qed

lemma stop_proc_ok:
  assumes inv: "sched_inv s"
  shows "ensures (stop_proc sc p wt s) (\<lambda>s'. sched_inv s' \<and> p \<notin> ready s' \<and> current s' = current s)"
proof -
  define s1 where "s1 = upd_proc p (\<lambda>pr. pr\<lparr>pstate := PROC_SLEEPING, wait_state := wt\<rparr>) s"
  have s1: "rq_ok s1" "ready s1 = ready s" "current s1 = current s" "idleproc s1 = idleproc s"
      "rqs s1 = rqs s" "this_cpu s1 = this_cpu s" "run_linked (procs s1 p) \<longleftrightarrow> p \<in> ready s"
    using inv by (auto simp: s1_def sched_inv_def rq_ok_upd_proc ready_upd_proc ready_def)
  have pst: "pstate (procs s1 q) = (if q = p then PROC_SLEEPING else pstate (procs s q))"
    "pincpu (procs s1 q) = pincpu (procs s q)" "cpu_affinity (procs s1 q) = cpu_affinity (procs s q)" for q
    by (auto simp: s1_def)
  have post: "sched_inv s' \<and> p \<notin> ready s' \<and> current s' = current s"
    if "rq_ok s'" "ready s' = ready s - {p}" "sched_frame s1 s'" for s'
    using that inv s1 pst sched_frameD [OF that(3)] by (auto simp: sched_inv_def)
  show ?thesis
  proof (cases "p \<in> ready s")
    case True
    have "this_cpu s1 < lcpu_count s1" using inv s1 by (simp add: sched_inv_def)
    then have "ensures (sc_dequeue sc (this_cpu s1) p s1)
        (\<lambda>s'. sched_inv s' \<and> p \<notin> ready s' \<and> current s' = current s)"
      using dequeue [OF s1(1), of "this_cpu s1" p] True s1(2) post by (auto elim!: ensures_mono)
    then show ?thesis
      using True s1 unfolding stop_proc_def s1_def [symmetric] Let_def sched_class_dequeue_def by simp
  next
    case False
    then show ?thesis
      using s1 post [of s1] unfolding stop_proc_def s1_def [symmetric] Let_def by auto
  qed
qed

lemma proc_tick_ok: "sched_inv s \<Longrightarrow> sched_inv (sched_class_proc_tick sc p s)"
  using proc_tick(1,2) [where p = p and s = s] sched_frameD [OF proc_tick(3) [where p = p and s = s]]
  by (auto simp: sched_class_proc_tick_def sched_inv_def rq_ok_upd_proc ready_upd_proc)

lemma sched_step_inv: "sched_step sc s s' \<Longrightarrow> sched_inv s \<Longrightarrow> sched_inv s'"
proof (induction rule: sched_step.induct)
  case (schedule s s')
  then show ?case using schedule_ok [of s] by (auto elim: returnsE)
next
  case (wakeup p s s')
  then have "pstate (procs s p) \<noteq> PROC_ZOMBIE" "pstate (procs s p) = PROC_RUNNABLE \<or> p = current s \<or> lcpu_count s \<le> p"
    by (auto simp: wakeup_proc_def Let_def Option.bind_eq_Some_conv split: if_splits)
  then show ?case
    using wakeup wakeup_proc_ok [OF wakeup(2), of p]
    by (cases "pstate (procs s p) = PROC_RUNNABLE") (auto simp: wakeup_proc_def elim: returnsE)
next
  case (stop p wt s s')
  then show ?case using ensuresD [OF stop_proc_ok] by blast
next
  case (tick s)
  then show ?case by (rule proc_tick_ok)
qed (auto simp: sched_inv_def rq_ok_upd_proc ready_upd_proc)

lemma sched_reachable_inv: "(sched_step sc)\<^sup>*\<^sup>* s s' \<Longrightarrow> sched_inv s \<Longrightarrow> sched_inv s'"
  by (induction rule: rtranclp_induct) (auto intro: sched_step_inv)

end

text \<open>A class that never leaves the processor idle while a process is ready.\<close>

locale work_conserving = scheduling_class sc scope
  for sc and scope :: "nat \<Rightarrow> sched_state \<Rightarrow> nat set" +
  assumes scope_all: "rq_ok s \<Longrightarrow> rq < lcpu_count s \<Longrightarrow> ready s \<subseteq> scope rq s"
begin

lemma schedule_busy:
  assumes "sched_inv s"
  shows "returns (schedule sc s) (\<lambda>s'. sched_inv s' \<and> ready s' = runnable s - {current s'} \<and>
    (if runnable s = {} then current s' = idleproc s else current s' \<in> runnable s))"
proof (rule returns_mono [OF schedule_ok [OF assms]], elim conjE)
  fix s'
  assume s': "sched_inv s'" "ready s' = runnable s - {current s'}"
    and cur: "current s' \<in> runnable s \<or> current s' = idleproc s \<and>
      (\<exists>s2. rq_ok s2 \<and> ready s2 = runnable s \<and> this_cpu s2 < lcpu_count s2 \<and> scope (this_cpu s2) s2 = {})"
  have "runnable s = {}" if "current s' \<notin> runnable s" using that cur scope_all by blast
  then show "sched_inv s' \<and> ready s' = runnable s - {current s'} \<and>
      (if runnable s = {} then current s' = idleproc s else current s' \<in> runnable s)"
    using s' cur by auto
qed

end

lemma RR_proc_tick_ok:
  "rq_ok (RR_proc_tick p s) = rq_ok s" "ready (RR_proc_tick p s) = ready s"
  "sched_frame s (RR_proc_tick p s)"
proof -
  have "keeps_links (\<lambda>pr. let slice = (if 0 < time_slice pr then time_slice pr - 1 else time_slice pr) in
     pr\<lparr>time_slice := slice, need_resched := (slice = 0 \<or> need_resched pr)\<rparr>)"
    by (simp add: keeps_links_def Let_def)
  then show "rq_ok (RR_proc_tick p s) = rq_ok s" "ready (RR_proc_tick p s) = ready s"
    by (simp_all add: RR_proc_tick_def rq_ok_upd_proc ready_upd_proc)
  show "sched_frame s (RR_proc_tick p s)"
    by (auto simp: RR_proc_tick_def sched_frame_def Let_def)
qed

lemma RR_pick_next_ok:
  "rq < lcpu_count s \<Longrightarrow> returns (RR_pick_next rq s)
     (\<lambda>r. case r of None \<Rightarrow> on_rq rq s = {} | Some p \<Rightarrow> p \<in> on_rq rq s)"
  by (auto simp: RR_pick_next_def rq_at_def on_rq_def split: list.splits)

lemma on_rq_ready: "rq_ok s \<Longrightarrow> rq < lcpu_count s \<Longrightarrow> on_rq rq s \<subseteq> ready s"
  using rq_okD(3) by (auto simp: ready_def)

interpretation RR: scheduling_class RR_sched_class on_rq
proof
  fix s rq p
  assume ok: "rq_ok s" "rq < lcpu_count s"
  show "returns (sc_enqueue RR_sched_class rq p s)
      (\<lambda>s'. rq_ok s' \<and> ready s' = insert p (ready s) \<and> sched_frame s s')" if "p \<notin> ready s"
    by (rule RR_enqueue_ok [OF ok that]) (simp add: RR_sched_class_def)
  show "\<exists>s'. sc_dequeue RR_sched_class rq p s = Some s'" if "p \<in> on_rq rq s"
    by (rule RR_dequeue_ok [OF ok that]) (simp add: RR_sched_class_def)
  show "ensures (sc_dequeue RR_sched_class rq p s)
      (\<lambda>s'. rq_ok s' \<and> ready s' = ready s - {p} \<and> sched_frame s s')" if "p \<in> ready s"
  proof (cases "p \<in> on_rq rq s")
    case True
    then show ?thesis by (rule RR_dequeue_ok [OF ok]) (simp add: RR_sched_class_def)
  next
    case False
    have "run_linked (procs s p)" using that by (simp add: ready_def)
    then obtain i where "proc_rq (procs s p) = Some i" "p \<in> on_rq i s" by (rule rq_ok_linked [OF ok(1)])
    then have "proc_rq (procs s p) \<noteq> Some rq" using False by auto
    then show ?thesis by (simp add: RR_sched_class_def RR_dequeue_def)
  qed
qed (simp_all add: RR_sched_class_def RR_pick_next_ok on_rq_ready RR_proc_tick_ok)

lemma first_ready_ok:
  "(\<And>rq. rq \<in> set qs \<Longrightarrow> rq < lcpu_count s) \<Longrightarrow> returns (first_ready qs s)
     (\<lambda>r. case r of None \<Rightarrow> \<forall>rq \<in> set qs. on_rq rq s = {} | Some p \<Rightarrow> \<exists>rq \<in> set qs. p \<in> on_rq rq s)"
proof (induction qs)
  case (Cons rq qs)
  show ?case
    unfolding first_ready.simps returns_simps
    by (rule returns_mono [OF RR_pick_next_ok [of rq s]])
      (use Cons in \<open>auto split: option.splits elim!: returns_mono\<close>)
qed simp

interpretation MLFQ: work_conserving MLFQ_sched_class "\<lambda>_. ready"
proof
  fix s rq p
  assume ok: "rq_ok s" "rq < lcpu_count s"
  have set: "set ([rq..<lcpu_count s] @ [0..<rq]) = {..<lcpu_count s}" using ok(2) by auto
  have none: "ready s = {}" if "\<forall>rq \<in> {..<lcpu_count s}. on_rq rq s = {}"
    using that rq_ok_linked [OF ok(1)] unfolding ready_def by blast
  have "returns (MLFQ_pick_next rq s) (\<lambda>r. case r of
      None \<Rightarrow> \<forall>rq \<in> {..<lcpu_count s}. on_rq rq s = {} | Some p \<Rightarrow> \<exists>rq \<in> {..<lcpu_count s}. p \<in> on_rq rq s)"
    using first_ready_ok [of "[rq..<lcpu_count s] @ [0..<rq]" s] unfolding set MLFQ_pick_next_def by simp
  then show "returns (sc_pick_next MLFQ_sched_class rq s)
      (\<lambda>r. case r of None \<Rightarrow> ready s = {} | Some p \<Rightarrow> p \<in> ready s)"
  proof (simp add: MLFQ_sched_class_def, elim returns_mono)
    fix r
    assume "case r of None \<Rightarrow> \<forall>rq \<in> {..<lcpu_count s}. on_rq rq s = {}
      | Some p \<Rightarrow> \<exists>rq \<in> {..<lcpu_count s}. p \<in> on_rq rq s"
    then show "case r of None \<Rightarrow> ready s = {} | Some p \<Rightarrow> p \<in> ready s"
      using none on_rq_ready [OF ok(1)] by (cases r) auto
  qed
  have nxt: "next_rq s i < lcpu_count s" for i
    using ok(2) by (auto simp: next_rq_def intro: mod_less_divisor)
  show "returns (sc_enqueue MLFQ_sched_class rq p s)
      (\<lambda>s'. rq_ok s' \<and> ready s' = insert p (ready s) \<and> sched_frame s s')" if p: "p \<notin> ready s"
  proof -
    have "returns (RR_enqueue nrq p s)
        (\<lambda>s'. rq_ok s' \<and> ready s' = insert p (ready s) \<and> sched_frame s s')" if "nrq < lcpu_count s" for nrq
      by (rule RR_enqueue_ok [OF ok(1) that p]) simp
    then show ?thesis
      using p nxt rq_okD(5) [OF ok(1), of p] ok(2)
      by (auto simp: MLFQ_sched_class_def MLFQ_enqueue_def ready_def Let_def split: option.splits)
  qed
  have deq: "\<exists>s'. MLFQ_dequeue rq p s = Some s' \<and> rq_ok s' \<and> ready s' = ready s - {p} \<and> sched_frame s s'"
    if p: "p \<in> ready s"
  proof -
    obtain i where i: "proc_rq (procs s p) = Some i" "p \<in> on_rq i s" "i < lcpu_count s"
      using rq_ok_linked [OF ok(1), of p] p unfolding ready_def by blast
    show ?thesis
      by (rule RR_dequeue_ok [OF ok(1) i(3,2)]) (use i p in \<open>simp add: MLFQ_dequeue_def ready_def\<close>)
  qed
  show "ensures (sc_dequeue MLFQ_sched_class rq p s)
      (\<lambda>s'. rq_ok s' \<and> ready s' = ready s - {p} \<and> sched_frame s s')" if "p \<in> ready s"
    using deq [OF that] by (elim exE conjE) (simp add: MLFQ_sched_class_def)
  show "\<exists>s'. sc_dequeue MLFQ_sched_class rq p s = Some s'" if "p \<in> ready s"
    using deq [OF that] by (elim exE conjE) (simp add: MLFQ_sched_class_def)
qed (simp_all add: MLFQ_sched_class_def MLFQ_proc_tick_def RR_proc_tick_ok)

section \<open>One processor\<close>

text \<open>The Raspberry Pi has one processor, hence one run queue.\<close>

definition uniprocessor :: "sched_state \<Rightarrow> bool" where
  "uniprocessor s \<longleftrightarrow> lcpu_count s = 1 \<and> this_cpu s = 0"

abbreviation queue :: "sched_state \<Rightarrow> nat list" where
  "queue s \<equiv> run_list (rqs s ! 0)"

lemma uniprocessor_simps [simp]:
  "uniprocessor (upd_proc p f s) = uniprocessor s" "uniprocessor (s\<lparr>current := c\<rparr>) = uniprocessor s"
  by (simp_all add: uniprocessor_def)

lemma uniprocessor_frame: "sched_frame s s' \<Longrightarrow> uniprocessor s' = uniprocessor s"
  by (simp add: uniprocessor_def sched_frame_def)

lemma MLFQ_RR_ops:
  assumes "rq_ok s" "uniprocessor s"
  shows "MLFQ_enqueue 0 p s = RR_enqueue 0 p s" "MLFQ_dequeue 0 p s = RR_dequeue 0 p s"
    "MLFQ_pick_next 0 s = RR_pick_next 0 s"
proof -
  have n: "length (rqs s) = 1" using assms(2) by (simp add: uniprocessor_def)
  have prq: "i = 0" if "proc_rq (procs s p) = Some i" for i using rq_okD(5) [OF assms(1) that] n by simp
  then show "MLFQ_enqueue 0 p s = RR_enqueue 0 p s"
    using n by (auto simp: MLFQ_enqueue_def next_rq_def RR_enqueue_def Let_def cassert_def split: option.splits)
  show "MLFQ_dequeue 0 p s = RR_dequeue 0 p s"
  proof (cases "run_linked (procs s p)")
    case True
    then obtain i where "proc_rq (procs s p) = Some i" by (rule rq_ok_linked [OF assms(1)])
    then show ?thesis using True prq by (simp add: MLFQ_dequeue_def)
  qed (simp add: MLFQ_dequeue_def RR_dequeue_def)
  show "MLFQ_pick_next 0 s = RR_pick_next 0 s"
    using n by (simp add: MLFQ_pick_next_def RR_pick_next_def rq_at_def)
qed

lemma MLFQ_RR_core:
  assumes "rq_ok s" "uniprocessor s"
  shows "sched_class_pick_next MLFQ_sched_class s = sched_class_pick_next RR_sched_class s"
    "sched_class_dequeue MLFQ_sched_class p s = sched_class_dequeue RR_sched_class p s"
    "sched_class_enqueue MLFQ_sched_class p s = sched_class_enqueue RR_sched_class p s"
  using MLFQ_RR_ops [OF assms] assms(2)
  by (auto simp: sched_class_pick_next_def sched_class_dequeue_def sched_class_enqueue_def
      MLFQ_sched_class_def RR_sched_class_def uniprocessor_def cassert_def)

lemma MLFQ_RR_schedule:
  assumes inv: "sched_inv s" and one: "uniprocessor s"
  shows "schedule MLFQ_sched_class s = schedule RR_sched_class s"
proof -
  let ?s1 = "upd_proc (current s) (\<lambda>pr. pr\<lparr>need_resched := False\<rparr>) s"
  let ?enq = "\<lambda>sc. if pstate (procs ?s1 (current ?s1)) = PROC_RUNNABLE \<and> lcpu_count ?s1 \<le> current ?s1
    then sched_class_enqueue sc (current ?s1) ?s1 else Some ?s1"
  have s1: "rq_ok ?s1" "uniprocessor ?s1" "sched_inv ?s1"
    using inv one by (auto simp: sched_inv_def rq_ok_upd_proc ready_upd_proc)
  obtain s2 where s2: "?enq MLFQ_sched_class = Some s2" "rq_ok s2" "sched_frame ?s1 s2"
    by (rule returnsE [OF MLFQ.requeue [OF s1(3)]]) blast
  have enq: "?enq RR_sched_class = Some s2" using s2(1) MLFQ_RR_core(3) [OF s1(1,2)] by (auto split: if_splits)
  have "uniprocessor s2" using uniprocessor_frame [OF s2(3)] s1(2) by simp
  then show ?thesis
    unfolding schedule_def Let_def s2(1) enq using MLFQ_RR_core [OF s2(2)]
    by (simp cong: option.case_cong)
qed

text \<open>C33. On one processor the multi-level feedback queue is round robin: there are as many levels as
  processors, so \<^verbatim>\<open>schedule\<close>, \<^verbatim>\<open>wakeup_proc\<close>, \<^verbatim>\<open>stop_proc\<close> and the clock do the same with either
  class.\<close>

theorem MLFQ_uniprocessor_is_RR:
  assumes inv: "sched_inv s" and one: "uniprocessor s"
  shows "schedule MLFQ_sched_class s = schedule RR_sched_class s \<and>
    wakeup_proc MLFQ_sched_class p s = wakeup_proc RR_sched_class p s \<and>
    stop_proc MLFQ_sched_class p wt s = stop_proc RR_sched_class p wt s \<and>
    sched_class_proc_tick MLFQ_sched_class p s = sched_class_proc_tick RR_sched_class p s"
proof -
  have ok: "rq_ok s" using inv by (simp add: sched_inv_def)
  have "wakeup_proc MLFQ_sched_class p s = wakeup_proc RR_sched_class p s"
    using ok one by (simp add: wakeup_proc_def Let_def rq_ok_upd_proc MLFQ_RR_core)
  moreover have "stop_proc MLFQ_sched_class p wt s = stop_proc RR_sched_class p wt s"
    using ok one by (simp add: stop_proc_def Let_def rq_ok_upd_proc MLFQ_RR_core)
  ultimately show ?thesis
    using MLFQ_RR_schedule [OF inv one]
    by (simp add: sched_class_proc_tick_def MLFQ_sched_class_def RR_sched_class_def MLFQ_proc_tick_def)
qed

lemma RR_schedule_rotates:
  assumes inv: "sched_inv s" and one: "uniprocessor s" and q: "queue s = p # ps"
  shows "\<exists>s'. schedule RR_sched_class s = Some s' \<and> sched_inv s' \<and> uniprocessor s' \<and> current s' = p \<and>
    queue s' = ps @ (if current s \<in> runnable s then [current s] else [])"
proof -
  let ?c = "current s" and ?s1 = "upd_proc (current s) (\<lambda>pr. pr\<lparr>need_resched := False\<rparr>) s"
  let ?enq = "if pstate (procs ?s1 (current ?s1)) = PROC_RUNNABLE \<and> lcpu_count ?s1 \<le> current ?s1
    then sched_class_enqueue RR_sched_class (current ?s1) ?s1 else Some ?s1"
  have i: "rq_ok s" "idleproc s < lcpu_count s" "?c \<notin> ready s" "lcpu_count s = 1" "this_cpu s = 0"
    "\<And>p. pincpu (procs s p) \<Longrightarrow> 0 \<le> cpu_affinity (procs s p) \<and> cpu_affinity (procs s p) < 1"
    using inv one by (auto simp: sched_inv_def uniprocessor_def)
  have run: "?c \<in> runnable s \<longleftrightarrow> pstate (procs s ?c) = PROC_RUNNABLE \<and> 1 \<le> ?c"
    using i(3,4) by (auto simp: runnable_def)
  have s1: "rq_ok ?s1" "0 < length (rqs ?s1)" "?c \<notin> ready ?s1"
    using i by (auto simp: rq_ok_upd_proc ready_upd_proc)
  obtain s2 where s2: "?enq = Some s2" "rq_ok s2" "sched_frame ?s1 s2"
      "queue s2 = p # ps @ (if ?c \<in> runnable s then [?c] else [])"
  proof (cases "?c \<in> runnable s")
    case True
    have aff: "nat (cpu_affinity (procs s ?c)) = 0" if "pincpu (procs s ?c)" using i(6) [OF that] by auto
    show thesis
      by (rule RR_enqueue_ok [OF s1], rule that)
        (use True run i aff q in \<open>auto simp: sched_class_enqueue_def RR_sched_class_def\<close>)
  next
    case False
    then show thesis by (intro that [of ?s1]) (use run q s1 i in \<open>auto simp: False\<close>)
  qed
  have two: "length (rqs s2) = 1" "this_cpu s2 = 0" using sched_frameD [OF s2(3)] i by auto
  have on: "p \<in> on_rq 0 s2" using s2(4) by (simp add: on_rq_def)
  obtain s3 where s3: "RR_dequeue 0 p s2 = Some s3" "sched_frame s2 s3" "queue s3 = remove1 p (queue s2)"
    by (rule RR_dequeue_ok [OF s2(2) _ on]) (use two in auto)
  let ?s4 = "(upd_proc p (\<lambda>pr. pr\<lparr>runs := runs pr + 1\<rparr>) s3)\<lparr>current := p\<rparr>"
  have code: "schedule RR_sched_class s = Some ?s4"
    unfolding schedule_def Let_def s2(1) using two s2(4) s3(1)
    by (simp add: sched_class_pick_next_def sched_class_dequeue_def RR_sched_class_def RR_pick_next_def rq_at_def)
  have "sched_inv ?s4" using RR.schedule_ok [OF inv] code by simp
  moreover have "uniprocessor ?s4"
    using two sched_frameD [OF s3(2)] by (simp add: uniprocessor_def)
  ultimately show ?thesis using code s3(3) s2(4) by simp
qed

primrec schedules :: "sched_class \<Rightarrow> nat \<Rightarrow> sched_state \<Rightarrow> sched_state option" where
  "schedules sc 0 s = Some s"
| "schedules sc (Suc k) s = do { s \<leftarrow> schedule sc s; schedules sc k s }"

text \<open>C28. Nobody starves: on one processor, with the configured class, the process at position \<open>k\<close> of
  the run queue is running after \<open>k + 1\<close> calls of \<^verbatim>\<open>schedule\<close>, all of which return.\<close>

theorem no_starvation:
  assumes "sched_inv s" "uniprocessor s" "k < length (queue s)"
  shows "\<exists>s'. schedules MLFQ_sched_class (Suc k) s = Some s' \<and> current s' = queue s ! k"
  using assms
proof (induction k arbitrary: s)
  case (0 s)
  then obtain p ps where "queue s = p # ps" by (cases "queue s") auto
  with 0 show ?case
    using RR_schedule_rotates [of s p ps] MLFQ_RR_schedule [of s] by auto
next
  case (Suc k s)
  then obtain p ps where q: "queue s = p # ps" by (cases "queue s") auto
  then obtain s' where s': "schedule MLFQ_sched_class s = Some s'" "sched_inv s'" "uniprocessor s'"
      "queue s' = ps @ (if current s \<in> runnable s then [current s] else [])"
    using RR_schedule_rotates [of s p ps] MLFQ_RR_schedule [of s] Suc.prems by auto
  have "k < length (queue s')" "queue s' ! k = queue s ! Suc k"
    using Suc.prems(3) q s'(4) by (auto simp: nth_append)
  with Suc.IH [OF s'(2,3)] s'(1) show ?case by auto
qed

section \<open>The configured scheduler\<close>


text \<open>C32. \<^verbatim>\<open>schedule\<close> always returns, the process it switches to is one of those that compete for the
  processor, all others stay or become ready, and the idle process runs only when there is
  nobody else.\<close>

theorem schedule_work_conserving:
  assumes "sched_inv s"
  shows "returns (schedule MLFQ_sched_class s) (\<lambda>s'. sched_inv s' \<and>
    ready s' = runnable s - {current s'} \<and>
    (if runnable s = {} then current s' = idleproc s else current s' \<in> runnable s))"
  by (rule MLFQ.schedule_busy [OF assms])

text \<open>Process 1 runs, process 2 is ready, all others sleep.\<close>

definition sched0 :: sched_state where
  "sched0 = \<lparr>procs = (\<lambda>p. \<lparr>pstate = (if p \<le> 2 then PROC_RUNNABLE else PROC_SLEEPING), wait_state = 0,
       time_slice = 0, need_resched = False, proc_rq = (if p = 2 then Some 0 else None),
       run_linked = (p = 2), pincpu = False, cpu_affinity = 0, runs = 0\<rparr>),
     rqs = [\<lparr>run_list = [2], proc_num = 1, max_time_slice = 8\<rparr>],
     this_cpu = 0, current = 1, idleproc = 0\<rparr>"

lemma sched0_inv: "sched_inv sched0" "uniprocessor sched0"
  by (auto simp: sched0_def sched_inv_def uniprocessor_def rq_ok_def on_rq_def ready_def)

lemma sched0_runnable: "runnable sched0 = {1, 2}"
  by (auto simp: runnable_def ready_def sched0_def)

lemma sched0_step: "\<exists>s'. schedule MLFQ_sched_class sched0 = Some s' \<and> current s' = 2"
  using RR_schedule_rotates [OF sched0_inv, of 2 "[]"] MLFQ_RR_schedule [OF sched0_inv]
  by (auto simp: sched0_def)


theorem schedule_work_conserving_witness:
  "\<exists>s'. schedule MLFQ_sched_class sched0 = Some s' \<and> sched_inv s' \<and> current s' \<in> {1, 2} \<and>
     ready s' = {1, 2} - {current s'}"
  using schedule_work_conserving [OF sched0_inv(1)] by (auto simp: sched0_runnable elim!: returnsE)

theorem MLFQ_uniprocessor_is_RR_witness:
  "sched_inv sched0 \<and> uniprocessor sched0 \<and>
   schedule MLFQ_sched_class sched0 = schedule RR_sched_class sched0 \<and>
   wakeup_proc MLFQ_sched_class 5 sched0 = wakeup_proc RR_sched_class 5 sched0"
  using MLFQ_uniprocessor_is_RR [OF sched0_inv, of 5] sched0_inv by blast

theorem no_starvation_witness:
  "\<exists>s'. schedules MLFQ_sched_class 1 sched0 = Some s' \<and> current s' = 2"
  using no_starvation [OF sched0_inv, of 0] by (simp add: sched0_def)

end
