(* ===== verification/Timer.thy ===== *)
theory Timer
  imports Sched "HOL-Library.Multiset"
begin

text \<open>
  Kernel timers (the second half of \<^verbatim>\<open>schedule/sched.c\<close>). The list of pending timers is a delta
  list: a timer's \<^verbatim>\<open>expires\<close> counts from the expiry of the timer in front of it. A timer is named
  by a number that stands for its address; its link is in the list exactly when its number is.
\<close>

unbundle bit_operations_syntax

record timer =
  tm_id :: nat
  expires :: u32
  tm_proc :: "nat option"
  linux_timer :: bool

definition timer_init :: "nat \<Rightarrow> nat option \<Rightarrow> u32 \<Rightarrow> timer" where
  "timer_init i proc ex = \<lparr>tm_id = i, expires = ex, tm_proc = proc, linux_timer = False\<rparr>"

fun timer_insert :: "timer \<Rightarrow> timer list \<Rightarrow> timer list" where
  "timer_insert t [] = [t]"
| "timer_insert t (n # ts) =
     (if expires t < expires n then t # n\<lparr>expires := expires n - expires t\<rparr> # ts
      else n # timer_insert (t\<lparr>expires := expires t - expires n\<rparr>) ts)"

definition add_timer :: "timer \<Rightarrow> timer list \<Rightarrow> timer list option" where
  "add_timer t ts = do {
     cassert (0 < expires t \<and> tm_proc t \<noteq> None);
     cassert (tm_id t \<notin> tm_id ` set ts);
     Some (timer_insert t ts) }"

fun del_timer :: "nat \<Rightarrow> timer list \<Rightarrow> timer list" where
  "del_timer i [] = []"
| "del_timer i (t # ts) =
     (if tm_id t = i then
        if expires t \<noteq> 0 then
          (case ts of [] \<Rightarrow> [] | n # ts \<Rightarrow> n\<lparr>expires := expires n + expires t\<rparr> # ts)
        else ts
      else t # del_timer i ts)"

abbreviation (input) WT_INTERRUPTED :: u32 where "WT_INTERRUPTED \<equiv> 0x80000000"

text \<open>The loop over the timers that have expired. The branch for a timer of a Linux driver frees the
  timer and goes on to read its \<^verbatim>\<open>expires\<close>.\<close>

fun fire_timers :: "sched_class \<Rightarrow> timer list \<Rightarrow> sched_state \<Rightarrow> (timer list \<times> sched_state) option" where
  "fire_timers sc [] s = Some ([], s)"
| "fire_timers sc (t # ts) s =
     (if expires t = 0 then
        if linux_timer t then None
        else do {
          p \<leftarrow> tm_proc t;
          cassert (wait_state (procs s p) \<noteq> 0 \<longrightarrow> wait_state (procs s p) AND WT_INTERRUPTED \<noteq> 0);
          s \<leftarrow> wakeup_proc sc p s;
          fire_timers sc ts s }
      else Some (t # ts, s))"

definition run_timer_list :: "sched_class \<Rightarrow> timer list \<Rightarrow> sched_state \<Rightarrow> (timer list \<times> sched_state) option" where
  "run_timer_list sc ts s = do {
     (ts, s) \<leftarrow> (case ts of
         [] \<Rightarrow> Some ([], s)
       | t # ts \<Rightarrow> do {
           cassert (expires t \<noteq> 0);
           fire_timers sc (t\<lparr>expires := expires t - 1\<rparr> # ts) s });
     Some (ts, sched_class_proc_tick sc (current s) s) }"

section \<open>Deadlines\<close>

text \<open>Number and time of expiry of every timer, counted from \<open>a\<close>.\<close>

fun deadlines :: "nat \<Rightarrow> timer list \<Rightarrow> (nat \<times> nat) list" where
  "deadlines a [] = []"
| "deadlines a (t # ts) = (tm_id t, a + unat (expires t)) # deadlines (a + unat (expires t)) ts"

definition timer_list_ok :: "timer list \<Rightarrow> bool" where
  "timer_list_ok ts \<longleftrightarrow> distinct (map tm_id ts) \<and> (ts \<noteq> [] \<longrightarrow> 0 < expires (hd ts)) \<and>
     (\<forall>d \<in> set (deadlines 0 ts). snd d < 2 ^ 32)"

lemma map_fst_deadlines [simp]: "map fst (deadlines a ts) = map tm_id ts"
  by (induction ts arbitrary: a) simp_all

lemma fst_set_deadlines: "fst ` set (deadlines a ts) = tm_id ` set ts"
  by (metis list.set_map map_fst_deadlines)

lemma deadlines_ge: "d \<in> set (deadlines a ts) \<Longrightarrow> a \<le> snd d"
  by (induction ts arbitrary: a) force+

lemma deadlines_add: "deadlines (a + b) ts = map (\<lambda>(i, d). (i, d + b)) (deadlines a ts)"
proof (induction ts arbitrary: a)
  case (Cons t ts)
  show ?case using Cons [of "a + unat (expires t)"] by (simp add: ac_simps)
qed simp

lemma sorted_deadlines: "sorted (map snd (deadlines a ts))"
  by (induction ts arbitrary: a) (auto dest: deadlines_ge)

lemma unat_sub_if_less: "(x :: u32) < y \<Longrightarrow> unat (y - x) = unat y - unat x"
  by (simp add: unat_sub)

lemma deadlines_insert:
  "mset (deadlines a (timer_insert t ts)) = add_mset (tm_id t, a + unat (expires t)) (mset (deadlines a ts))"
proof (induction t ts arbitrary: a rule: timer_insert.induct)
  case (2 t n ts)
  show ?case
  proof (cases "expires t < expires n")
    case True
    then have "unat (expires t) < unat (expires n)" by (simp add: word_less_nat_alt)
    then show ?thesis using True by (simp add: unat_sub_if_less)
  next
    case False
    then have "unat (expires t - expires n) = unat (expires t) - unat (expires n)"
      "unat (expires n) \<le> unat (expires t)" by (simp_all add: unat_sub not_less word_le_nat_alt)
    then show ?thesis using False 2 by simp
  qed
qed simp

lemma timer_insert_ids: "mset (map tm_id (timer_insert t ts)) = add_mset (tm_id t) (mset (map tm_id ts))"
  by (induction t ts rule: timer_insert.induct) simp_all

lemma timer_insert_head:
  "0 < expires t \<Longrightarrow> ts \<noteq> [] \<longrightarrow> 0 < expires (hd ts) \<Longrightarrow> 0 < expires (hd (timer_insert t ts))"
  by (cases ts) auto

text \<open>C30. \<^verbatim>\<open>add_timer\<close> implements insertion into a set of deadlines: for a new timer that expires in the
  future it returns, adds exactly its deadline and moves no other, although it rewrites the deltas,
  and the list stays sorted by deadline and well-formed.\<close>

theorem add_timer_refines:
  assumes ok: "timer_list_ok ts"
    and t: "0 < expires t" "tm_proc t \<noteq> None" "tm_id t \<notin> tm_id ` set ts"
  shows "\<exists>ts'. add_timer t ts = Some ts' \<and> timer_list_ok ts' \<and>
    mset (deadlines 0 ts') = add_mset (tm_id t, unat (expires t)) (mset (deadlines 0 ts)) \<and>
    sorted (map snd (deadlines 0 ts'))"
proof (intro exI conjI)
  show "add_timer t ts = Some (timer_insert t ts)" using t by (simp add: add_timer_def)
  show m: "mset (deadlines 0 (timer_insert t ts)) =
      add_mset (tm_id t, unat (expires t)) (mset (deadlines 0 ts))"
    using deadlines_insert [of 0 t ts] by simp
  have "distinct (map tm_id (timer_insert t ts))"
    using timer_insert_ids [of t ts] ok t(3)
    by (metis distinct.simps(2) list.set_map mset.simps(2) mset_eq_imp_distinct_iff timer_list_ok_def)
  moreover have "set (deadlines 0 (timer_insert t ts)) =
      insert (tm_id t, unat (expires t)) (set (deadlines 0 ts))"
    using m by (metis set_mset_add_mset_insert set_mset_mset)
  moreover have "unat (expires t) < 2 ^ 32" using unsigned_less [of "expires t", where ?'a = nat] by simp
  ultimately show "timer_list_ok (timer_insert t ts)"
    using ok t timer_insert_head [of t ts] by (auto simp: timer_list_ok_def)
qed (rule sorted_deadlines)

lemma deadlines_del:
  assumes "distinct (map tm_id ts)" "\<forall>d \<in> set (deadlines a ts). snd d < 2 ^ 32"
  shows "deadlines a (del_timer i ts) = filter (\<lambda>d. fst d \<noteq> i) (deadlines a ts)"
  using assms
proof (induction i ts arbitrary: a rule: del_timer.induct)
  case (2 i t ts)
  show ?case
  proof (cases "tm_id t = i")
    case True
    then have "i \<notin> tm_id ` set ts" using 2(2) by auto
    then have keep: "filter (\<lambda>d. fst d \<noteq> i) (deadlines b ts) = deadlines b ts" for b
      using fst_set_deadlines [of b ts] by (force simp: filter_id_conv)
    show ?thesis
    proof (cases ts)
      case (Cons n us)
      then have "unat (expires n + expires t) = unat (expires n) + unat (expires t)"
        using 2(3) by (intro unat_add_small) auto
      then show ?thesis using True keep [of "a + unat (expires t)"] Cons by (simp add: ac_simps)
    qed (use True in simp)
  next
    case False
    then show ?thesis using 2 by simp
  qed
qed simp

lemma del_timer_head:
  "timer_list_ok ts \<Longrightarrow> del_timer i ts \<noteq> [] \<Longrightarrow> 0 < expires (hd (del_timer i ts))"
  by (cases ts)
    (auto simp: timer_list_ok_def word_less_nat_alt unat_add_small split: list.splits if_splits)

text \<open>C31. \<^verbatim>\<open>del_timer\<close> removes exactly the deadline of its timer: every other timer expires when it
  would have, the delta of the removed timer having been added to its successor without overflow,
  and the list stays well-formed.\<close>

theorem del_timer_refines:
  assumes "timer_list_ok ts"
  shows "deadlines 0 (del_timer i ts) = filter (\<lambda>d. fst d \<noteq> i) (deadlines 0 ts) \<and>
    timer_list_ok (del_timer i ts)"
proof -
  have d: "deadlines 0 (del_timer i ts) = filter (\<lambda>d. fst d \<noteq> i) (deadlines 0 ts)"
    using assms by (intro deadlines_del) (auto simp: timer_list_ok_def)
  then have "map tm_id (del_timer i ts) = filter (\<lambda>j. j \<noteq> i) (map tm_id ts)"
    by (metis (no_types, lifting) comp_apply filter_cong filter_map map_fst_deadlines)
  then show ?thesis
    using d del_timer_head [OF assms] assms by (auto simp: timer_list_ok_def)
qed

section \<open>The clock\<close>

definition wakeable :: "sched_state \<Rightarrow> timer \<Rightarrow> bool" where
  "wakeable s t \<longleftrightarrow> \<not> linux_timer t \<and> (\<exists>p. tm_proc t = Some p \<and> pstate (procs s p) \<noteq> PROC_ZOMBIE \<and>
     (p = current s \<or> lcpu_count s \<le> p) \<and>
     (wait_state (procs s p) = 0 \<or> wait_state (procs s p) AND WT_INTERRUPTED \<noteq> 0))"

lemma fire_timers_ok:
  assumes "sched_inv s" "\<forall>t \<in> set ts. wakeable s t"
  shows "returns (fire_timers MLFQ_sched_class ts s) (\<lambda>(ts', s'). ts' = dropWhile (\<lambda>t. expires t = 0) ts \<and>
    sched_inv s' \<and> (\<forall>p. pstate (procs s p) = PROC_RUNNABLE \<longrightarrow> pstate (procs s' p) = PROC_RUNNABLE) \<and>
    (\<forall>p. wait_state (procs s p) = 0 \<longrightarrow> wait_state (procs s' p) = 0) \<and>
    (\<forall>t \<in> set (takeWhile (\<lambda>t. expires t = 0) ts). pstate (procs s' (the (tm_proc t))) = PROC_RUNNABLE \<and>
       (pstate (procs s (the (tm_proc t))) \<noteq> PROC_RUNNABLE \<longrightarrow> wait_state (procs s' (the (tm_proc t))) = 0)))"
  using assms
proof (induction ts arbitrary: s)
  case (Cons t ts)
  show ?case
  proof (cases "expires t = 0")
    case True
    obtain p where p: "tm_proc t = Some p" "\<not> linux_timer t" "pstate (procs s p) \<noteq> PROC_ZOMBIE"
        "p = current s \<or> lcpu_count s \<le> p"
        "wait_state (procs s p) = 0 \<or> wait_state (procs s p) AND WT_INTERRUPTED \<noteq> 0"
      using Cons.prems(2) by (auto simp: wakeable_def)
    obtain s1 where s1: "wakeup_proc MLFQ_sched_class p s = Some s1" "sched_inv s1"
        "current s1 = current s" "lcpu_count s1 = lcpu_count s"
        "\<And>q. pstate (procs s1 q) = (if q = p then PROC_RUNNABLE else pstate (procs s q))"
        "\<And>q. wait_state (procs s1 q) =
          (if q = p \<and> pstate (procs s p) \<noteq> PROC_RUNNABLE then 0 else wait_state (procs s q))"
      by (rule returnsE [OF MLFQ.wakeup_proc_ok [OF Cons.prems(1) p(3,4)]]) blast
    have ws: "wait_state (procs s1 q) = 0 \<or> wait_state (procs s1 q) = wait_state (procs s q)" for q
      by (simp add: s1(6))
    have "wakeable s1 u" if "wakeable s u" for u
      using that s1(3-5) ws by (fastforce simp: wakeable_def)
    then have IH: "returns (fire_timers MLFQ_sched_class ts s1) (\<lambda>(ts', s').
        ts' = dropWhile (\<lambda>t. expires t = 0) ts \<and> sched_inv s' \<and>
        (\<forall>p. pstate (procs s1 p) = PROC_RUNNABLE \<longrightarrow> pstate (procs s' p) = PROC_RUNNABLE) \<and>
        (\<forall>p. wait_state (procs s1 p) = 0 \<longrightarrow> wait_state (procs s' p) = 0) \<and>
        (\<forall>t \<in> set (takeWhile (\<lambda>t. expires t = 0) ts). pstate (procs s' (the (tm_proc t))) = PROC_RUNNABLE \<and>
          (pstate (procs s1 (the (tm_proc t))) \<noteq> PROC_RUNNABLE \<longrightarrow> wait_state (procs s' (the (tm_proc t))) = 0)))"
      using Cons.prems(2) by (intro Cons.IH [OF s1(2)]) simp
    have code: "fire_timers MLFQ_sched_class (t # ts) s = fire_timers MLFQ_sched_class ts s1"
      using True p s1(1) by (auto simp: cassert_def)
    have "pstate (procs s q) = PROC_RUNNABLE \<Longrightarrow> pstate (procs s1 q) = PROC_RUNNABLE"
      "wait_state (procs s q) = 0 \<Longrightarrow> wait_state (procs s1 q) = 0" "pstate (procs s1 p) = PROC_RUNNABLE"
      "pstate (procs s q) \<noteq> PROC_RUNNABLE \<Longrightarrow> pstate (procs s1 q) \<noteq> PROC_RUNNABLE \<or> wait_state (procs s1 q) = 0"
      "pstate (procs s p) \<noteq> PROC_RUNNABLE \<Longrightarrow> wait_state (procs s1 p) = 0" for q
      by (auto simp: s1(5,6))
    then show ?thesis
      unfolding code by (intro returns_mono [OF IH]) (use True p(1) in auto)
  qed (use Cons.prems in auto)
qed simp

lemma deadlines_dropWhile:
  "deadlines a (dropWhile (\<lambda>t. expires t = 0) ts) = filter (\<lambda>d. a < snd d) (deadlines a ts)"
proof (induction ts)
  case (Cons t ts)
  show ?case
  proof (cases "expires t = 0")
    case False
    then have "0 < unat (expires t)" by (simp add: unat_gt_0)
    then have "filter (\<lambda>d. a < snd d) (deadlines (a + unat (expires t)) ts) = deadlines (a + unat (expires t)) ts"
      using deadlines_ge [of _ "a + unat (expires t)" ts] by (fastforce simp: filter_id_conv)
    then show ?thesis using False \<open>0 < unat (expires t)\<close> by simp
  qed (use Cons in simp)
qed simp

lemma deadlines_takeWhile:
  "t \<in> set ts \<Longrightarrow> (tm_id t, a) \<in> set (deadlines a ts) \<Longrightarrow> distinct (map tm_id ts) \<Longrightarrow>
     t \<in> set (takeWhile (\<lambda>t. expires t = 0) ts)"
proof (induction ts)
  case (Cons u ts)
  have "expires u = 0"
  proof (rule ccontr)
    assume "expires u \<noteq> 0"
    then have "0 < unat (expires u)" by (simp add: unat_gt_0)
    then show False
      using Cons.prems(2) deadlines_ge [of "(tm_id t, a)" "a + unat (expires u)" ts] by auto
  qed
  moreover have "tm_id t \<noteq> tm_id u" if "t \<noteq> u"
    using Cons.prems(1,3) that by (auto simp: image_iff)
  ultimately show ?case using Cons by auto
qed simp

lemma deadlines_tick:
  "0 < expires t \<Longrightarrow> deadlines 0 (t\<lparr>expires := expires t - 1\<rparr> # ts) =
     map (\<lambda>(i, d). (i, d - 1)) (deadlines 0 (t # ts))"
proof -
  assume "0 < expires t"
  then have pos: "0 < unat (expires t)" by (simp add: word_less_nat_alt)
  then have dec: "unat (expires t - 1) = unat (expires t) - 1"
    using unat_sub [of 1 "expires t"] by (simp add: word_le_nat_alt)
  have "map (\<lambda>(i, d). (i, d - 1)) (deadlines (unat (expires t)) ts) = deadlines (unat (expires t) - 1) ts"
    using deadlines_add [of "unat (expires t) - 1" 1 ts] pos by (simp add: case_prod_beta comp_def)
  then show ?thesis using dec by simp
qed

lemma filter_tick:
  "filter (\<lambda>d. 0 < snd d) (map (\<lambda>(i, d). (i, d - 1)) ds) = [(i, d - 1). (i, d) \<leftarrow> ds, 1 < (d :: nat)]"
  by (induction ds) auto

lemma run_timer_list_due:
  assumes ok: "timer_list_ok ts" and inv: "sched_inv s" and wake: "\<forall>t \<in> set ts. wakeable s t"
  shows "\<exists>ts' s'. run_timer_list MLFQ_sched_class ts s = Some (ts', s') \<and>
    deadlines 0 ts' = [(i, d - 1). (i, d) \<leftarrow> deadlines 0 ts, 1 < d] \<and> timer_list_ok ts' \<and> sched_inv s' \<and>
    (\<forall>t \<in> set ts. (tm_id t, 1) \<in> set (deadlines 0 ts) \<longrightarrow>
       pstate (procs s' (the (tm_proc t))) = PROC_RUNNABLE \<and>
       (pstate (procs s (the (tm_proc t))) \<noteq> PROC_RUNNABLE \<longrightarrow> wait_state (procs s' (the (tm_proc t))) = 0))"
proof (cases ts)
  case Nil
  then show ?thesis using inv MLFQ.proc_tick_ok [OF inv] by (simp add: run_timer_list_def timer_list_ok_def)
next
  case (Cons t us)
  let ?ts = "t\<lparr>expires := expires t - 1\<rparr> # us" and ?zero = "\<lambda>t. expires t = 0"
  have pos: "0 < expires t" using ok Cons by (simp add: timer_list_ok_def)
  have dl: "deadlines 0 ?ts = map (\<lambda>(i, d). (i, d - 1)) (deadlines 0 ts)"
    unfolding Cons by (rule deadlines_tick [OF pos])
  have w: "\<forall>u \<in> set ?ts. wakeable s u" using wake Cons by (simp add: wakeable_def)
  obtain ts' s1 where f: "fire_timers MLFQ_sched_class ?ts s = Some (ts', s1)"
      "ts' = dropWhile ?zero ?ts" "sched_inv s1"
      "\<forall>t \<in> set (takeWhile ?zero ?ts). pstate (procs s1 (the (tm_proc t))) = PROC_RUNNABLE \<and>
         (pstate (procs s (the (tm_proc t))) \<noteq> PROC_RUNNABLE \<longrightarrow> wait_state (procs s1 (the (tm_proc t))) = 0)"
    by (rule returnsE [OF fire_timers_ok [OF inv w]]) blast
  let ?s' = "sched_class_proc_tick MLFQ_sched_class (current s1) s1"
  have code: "run_timer_list MLFQ_sched_class ts s = Some (ts', ?s')"
    using Cons pos f(1) by (simp add: run_timer_list_def word_neq_0_conv)
  have d': "deadlines 0 ts' = [(i, d - 1). (i, d) \<leftarrow> deadlines 0 ts, 1 < d]"
    unfolding f(2) deadlines_dropWhile dl by (rule filter_tick)
  have ids: "distinct (map tm_id ?ts)" using ok Cons by (simp add: timer_list_ok_def)
  then have "distinct (map tm_id ts')"
    unfolding f(2) dropWhile_eq_drop drop_map [symmetric] by (rule distinct_drop)
  moreover have "ts' \<noteq> [] \<longrightarrow> 0 < expires (hd ts')"
    using hd_dropWhile [of ?zero ?ts] f(2) by (auto simp: word_neq_0_conv)
  moreover have "\<forall>d \<in> set (deadlines 0 ts'). snd d < 2 ^ 32"
    using ok unfolding d' by (force simp: timer_list_ok_def)
  ultimately have ok': "timer_list_ok ts'" by (simp add: timer_list_ok_def)
  have due: "pstate (procs s1 (the (tm_proc u))) = PROC_RUNNABLE \<and>
      (pstate (procs s (the (tm_proc u))) \<noteq> PROC_RUNNABLE \<longrightarrow> wait_state (procs s1 (the (tm_proc u))) = 0)"
    if u: "u \<in> set ts" "(tm_id u, 1) \<in> set (deadlines 0 ts)" for u
  proof -
    define v where "v = (if u = t then t\<lparr>expires := expires t - 1\<rparr> else u)"
    have v: "v \<in> set ?ts" "tm_id v = tm_id u" "tm_proc v = tm_proc u" using u(1) Cons by (auto simp: v_def)
    have "(tm_id v, 0) \<in> set (deadlines 0 ?ts)" unfolding dl v(2) using u(2) by force
    then have "v \<in> set (takeWhile ?zero ?ts)" by (rule deadlines_takeWhile [OF v(1) _ ids])
    from bspec [OF f(4) this] show ?thesis unfolding v(3) .
  qed
  have "pstate (procs ?s' q) = pstate (procs s1 q) \<and> wait_state (procs ?s' q) = wait_state (procs s1 q)" for q
    using MLFQ.proc_tick(3) [of s1 "current s1"] by (auto simp: sched_class_proc_tick_def sched_frame_def)
  then show ?thesis
    using code d' ok' due MLFQ.proc_tick_ok [OF f(3)] by simp
qed

text \<open>C29. The clock interrupt takes one tick off every deadline, removes exactly the timers that are
  due, wakes the process of each of them, and keeps the invariants of the timer list and of the
  scheduler, provided that no pending timer belongs to a Linux driver and that every timer's process
  is alive and in a state that may be interrupted.\<close>

theorem run_timer_list_exact:
  assumes ok: "timer_list_ok ts" and inv: "sched_inv s" and wake: "\<forall>t \<in> set ts. wakeable s t"
  shows "\<exists>ts' s'. run_timer_list MLFQ_sched_class ts s = Some (ts', s') \<and>
    deadlines 0 ts' = [(i, d - 1). (i, d) \<leftarrow> deadlines 0 ts, 1 < d] \<and> timer_list_ok ts' \<and> sched_inv s' \<and>
    (\<forall>t \<in> set ts. (tm_id t, 1) \<in> set (deadlines 0 ts) \<longrightarrow>
       pstate (procs s' (the (tm_proc t))) = PROC_RUNNABLE)"
  using run_timer_list_due [OF assms] by blast

lemma fire_timers_linux:
  "t \<in> set (takeWhile (\<lambda>t. expires t = 0) ts) \<Longrightarrow> linux_timer t \<Longrightarrow> fire_timers sc ts s = None"
  by (induction ts arbitrary: s) (auto simp: Option.bind_eq_None_conv split: if_splits)


definition timers0 :: "timer list" where
  "timers0 = [timer_init 1 (Some 5) 1, timer_init 2 (Some 6) 0, timer_init 3 (Some 7) 9]"

lemma timers0_ok: "timer_list_ok timers0" "\<forall>t \<in> set timers0. wakeable sched0 t"
  "deadlines 0 timers0 = [(1, 1), (2, 1), (3, 10)]"
  by (simp_all add: timers0_def timer_init_def timer_list_ok_def wakeable_def sched0_def)

theorem run_timer_list_exact_witness:
  "\<exists>ts' s'. run_timer_list MLFQ_sched_class timers0 sched0 = Some (ts', s') \<and>
     deadlines 0 ts' = [(3, 9)] \<and> sched_inv s' \<and> pstate (procs s' 5) = PROC_RUNNABLE \<and>
     pstate (procs s' 6) = PROC_RUNNABLE"
proof -
  obtain ts' s' where r: "run_timer_list MLFQ_sched_class timers0 sched0 = Some (ts', s')"
      "deadlines 0 ts' = [(i, d - 1). (i, d) \<leftarrow> deadlines 0 timers0, 1 < d]" "sched_inv s'"
      "\<forall>t \<in> set timers0. (tm_id t, 1) \<in> set (deadlines 0 timers0) \<longrightarrow>
         pstate (procs s' (the (tm_proc t))) = PROC_RUNNABLE"
    using run_timer_list_exact [OF timers0_ok(1) sched0_inv(1) timers0_ok(2)] by blast
  then show ?thesis by (simp add: timers0_ok(3)) (simp add: timers0_def timer_init_def)
qed


theorem add_timer_refines_witness:
  "\<exists>ts'. add_timer (timer_init 4 (Some 8) 5) timers0 = Some ts' \<and> timer_list_ok ts' \<and>
    mset (deadlines 0 ts') = {#(4, 5), (1, 1), (2, 1), (3, 10)#} \<and> sorted (map snd (deadlines 0 ts'))"
proof -
  have t: "0 < expires (timer_init 4 (Some 8) 5)" "tm_proc (timer_init 4 (Some 8) 5) \<noteq> None"
      "tm_id (timer_init 4 (Some 8) 5) \<notin> tm_id ` set timers0"
    by (simp_all add: timers0_def timer_init_def)
  show ?thesis
    using add_timer_refines [OF timers0_ok(1) t] by (simp add: timers0_ok(3) timer_init_def)
qed

theorem del_timer_refines_witness:
  "deadlines 0 (del_timer 1 timers0) = [(2, 1), (3, 10)] \<and> timer_list_ok (del_timer 1 timers0)"
  using del_timer_refines [OF timers0_ok(1), of 1] by (simp add: timers0_ok(3))

end
