(* ===== verification/Sem.thy ===== *)
theory Sem
  imports Timer
begin

text \<open>
  Wait queues (\<^verbatim>\<open>sync/wait.c\<close>) and semaphores (\<^verbatim>\<open>sync/sem.c\<close>) on top of the scheduler and the
  timers. A wait queue is the sequence of processes its ring of links represents; the
  \<^verbatim>\<open>wakeup_flags\<close> of a process's \<^verbatim>\<open>wait_t\<close>, which lives on its stack while it waits, are a
  component of the state. A call of \<^verbatim>\<open>__down\<close> that has to wait is cut in two where it calls
  \<^verbatim>\<open>schedule\<close>.
\<close>

record ipc_state =
  ip_sched :: sched_state
  ip_timers :: "timer list"
  ip_flags :: "nat \<Rightarrow> u32"

abbreviation (input) WT_KSEM :: u32 where "WT_KSEM \<equiv> 0x100"
abbreviation (input) WT_USEM :: u32 where "WT_USEM \<equiv> 0x80000101"

section \<open>Wait queues\<close>

definition wait_init :: "nat \<Rightarrow> ipc_state \<Rightarrow> ipc_state" where
  "wait_init p st = st\<lparr>ip_flags := (ip_flags st)(p := WT_INTERRUPTED)\<rparr>"

definition wait_queue_add :: "nat list \<Rightarrow> nat \<Rightarrow> nat list option" where
  "wait_queue_add q p = do { cassert (p \<notin> set q); Some (q @ [p]) }"

definition wait_queue_del :: "nat list \<Rightarrow> nat \<Rightarrow> nat list option" where
  "wait_queue_del q p = do { cassert (p \<in> set q); Some (remove1 p q) }"

fun wait_queue_next :: "nat list \<Rightarrow> nat \<Rightarrow> nat option option" where
  "wait_queue_next [] p = None"
| "wait_queue_next (x # q) p =
     (if x = p then Some (case q of [] \<Rightarrow> None | y # _ \<Rightarrow> Some y) else wait_queue_next q p)"

definition wait_queue_prev :: "nat list \<Rightarrow> nat \<Rightarrow> nat option option" where
  "wait_queue_prev q p = wait_queue_next (rev q) p"

definition wait_queue_first :: "nat list \<Rightarrow> nat option" where
  "wait_queue_first q = (case q of [] \<Rightarrow> None | p # _ \<Rightarrow> Some p)"

definition wait_queue_last :: "nat list \<Rightarrow> nat option" where
  "wait_queue_last q = (if q = [] then None else Some (last q))"

definition wait_queue_empty :: "nat list \<Rightarrow> bool" where
  "wait_queue_empty q \<longleftrightarrow> q = []"

definition wait_in_queue :: "nat list \<Rightarrow> nat \<Rightarrow> bool" where
  "wait_in_queue q p \<longleftrightarrow> p \<in> set q"

definition wakeup_wait :: "nat list \<Rightarrow> nat \<Rightarrow> u32 \<Rightarrow> bool \<Rightarrow> ipc_state \<Rightarrow> (nat list \<times> ipc_state) option" where
  "wakeup_wait q p flags del st = do {
     q \<leftarrow> (if del then wait_queue_del q p else Some q);
     let st = st\<lparr>ip_flags := (ip_flags st)(p := flags)\<rparr>;
     s \<leftarrow> wakeup_proc MLFQ_sched_class p (ip_sched st);
     Some (q, st\<lparr>ip_sched := s\<rparr>) }"

definition wakeup_first :: "nat list \<Rightarrow> u32 \<Rightarrow> bool \<Rightarrow> ipc_state \<Rightarrow> (nat list \<times> ipc_state) option" where
  "wakeup_first q flags del st =
     (case wait_queue_first q of None \<Rightarrow> Some (q, st) | Some p \<Rightarrow> wakeup_wait q p flags del st)"

text \<open>With \<^verbatim>\<open>del\<close>, the first waiter is woken and removed until the queue is empty; without, every
  waiter is woken in turn.\<close>

fun wakeup_queue :: "nat list \<Rightarrow> u32 \<Rightarrow> bool \<Rightarrow> ipc_state \<Rightarrow> (nat list \<times> ipc_state) option" where
  "wakeup_queue [] flags del st = Some ([], st)"
| "wakeup_queue (p # q) flags del st = do {
     (_, st) \<leftarrow> wakeup_wait (p # q) p flags del st;
     (q', st) \<leftarrow> wakeup_queue q flags del st;
     Some (if del then q' else p # q', st) }"

definition wait_current_set :: "nat list \<Rightarrow> u32 \<Rightarrow> ipc_state \<Rightarrow> (nat list \<times> ipc_state) option" where
  "wait_current_set q ws st = do {
     let p = current (ip_sched st);
     let st = wait_init p st;
     let st = st\<lparr>ip_sched := upd_proc p (\<lambda>pr. pr\<lparr>pstate := PROC_SLEEPING, wait_state := ws\<rparr>) (ip_sched st)\<rparr>;
     q \<leftarrow> wait_queue_add q p;
     Some (q, st) }"

definition wait_current_del :: "nat list \<Rightarrow> nat \<Rightarrow> nat list option" where
  "wait_current_del q p = (if wait_in_queue q p then wait_queue_del q p else Some q)"

section \<open>Timeouts\<close>

definition ipc_add_timer :: "timer option \<Rightarrow> ipc_state \<Rightarrow> ipc_state option" where
  "ipc_add_timer timer st = (case timer of None \<Rightarrow> Some st
     | Some t \<Rightarrow> do { ts \<leftarrow> add_timer t (ip_timers st); Some (st\<lparr>ip_timers := ts\<rparr>) })"

definition ipc_del_timer :: "timer option \<Rightarrow> ipc_state \<Rightarrow> ipc_state" where
  "ipc_del_timer timer st = (case timer of None \<Rightarrow> st
     | Some t \<Rightarrow> st\<lparr>ip_timers := del_timer (tm_id t) (ip_timers st)\<rparr>)"

definition ipc_timer_init :: "u32 \<Rightarrow> nat \<Rightarrow> ipc_state \<Rightarrow> timer option" where
  "ipc_timer_init timeout i st =
     (if timeout \<noteq> 0 then Some (timer_init i (Some (current (ip_sched st))) timeout) else None)"

section \<open>Semaphores\<close>

record semaphore =
  sem_value :: int
  sem_valid :: bool
  sem_queue :: "nat list"

definition sem_init :: "int \<Rightarrow> semaphore" where
  "sem_init value = \<lparr>sem_value = value, sem_valid = True, sem_queue = []\<rparr>"

text \<open>\<^verbatim>\<open>__up\<close>. Counting beyond the largest \<^verbatim>\<open>int\<close> has no outcome.\<close>

definition up_wait :: "semaphore \<Rightarrow> u32 \<Rightarrow> ipc_state \<Rightarrow> (semaphore \<times> ipc_state) option" where
  "up_wait sem ws st = do {
     cassert (sem_valid sem);
     (case wait_queue_first (sem_queue sem) of
        None \<Rightarrow> do {
          cassert (sem_value sem < 2 ^ 31 - 1);
          Some (sem\<lparr>sem_value := sem_value sem + 1\<rparr>, st) }
      | Some p \<Rightarrow> do {
          cassert (wait_state (procs (ip_sched st) p) = ws);
          (q, st) \<leftarrow> wakeup_wait (sem_queue sem) p ws True st;
          Some (sem\<lparr>sem_queue := q\<rparr>, st) }) }"

text \<open>\<^verbatim>\<open>__down\<close> up to the call of \<^verbatim>\<open>schedule\<close>; \<open>True\<close> if it returns without waiting.\<close>

definition down_enter :: "semaphore \<Rightarrow> u32 \<Rightarrow> timer option \<Rightarrow> ipc_state \<Rightarrow> (bool \<times> semaphore \<times> ipc_state) option" where
  "down_enter sem ws timer st = do {
     cassert (sem_valid sem);
     if 0 < sem_value sem then Some (True, sem\<lparr>sem_value := sem_value sem - 1\<rparr>, st)
     else do {
       (q, st) \<leftarrow> wait_current_set (sem_queue sem) ws st;
       st \<leftarrow> ipc_add_timer timer st;
       Some (False, sem\<lparr>sem_queue := q\<rparr>, st) } }"

text \<open>\<^verbatim>\<open>__down\<close> from there on, run by \<open>p\<close>.\<close>

definition down_leave :: "semaphore \<Rightarrow> u32 \<Rightarrow> timer option \<Rightarrow> nat \<Rightarrow> ipc_state \<Rightarrow> (u32 \<times> semaphore \<times> ipc_state) option" where
  "down_leave sem ws timer p st = do {
     let st = ipc_del_timer timer st;
     q \<leftarrow> wait_current_del (sem_queue sem) p;
     let flags = ip_flags st p;
     Some (if flags \<noteq> ws then flags else 0, sem\<lparr>sem_queue := q\<rparr>, st) }"

definition up :: "semaphore \<Rightarrow> ipc_state \<Rightarrow> (semaphore \<times> ipc_state) option" where
  "up sem st = up_wait sem WT_KSEM st"

definition try_down :: "semaphore \<Rightarrow> bool \<times> semaphore" where
  "try_down sem =
     (if 0 < sem_value sem then (True, sem\<lparr>sem_value := sem_value sem - 1\<rparr>) else (False, sem))"

definition usem_up :: "semaphore \<Rightarrow> ipc_state \<Rightarrow> (semaphore \<times> ipc_state) option" where
  "usem_up sem st = up_wait sem WT_USEM st"

text \<open>Freeing a user semaphore (\<^verbatim>\<open>ipc_sem_free\<close>) invalidates it and interrupts its waiters.\<close>

definition sem_free :: "semaphore \<Rightarrow> ipc_state \<Rightarrow> (semaphore \<times> ipc_state) option" where
  "sem_free sem st = do {
     (q, st) \<leftarrow> wakeup_queue (sem_queue sem) WT_INTERRUPTED True st;
     Some (sem\<lparr>sem_valid := False, sem_queue := q\<rparr>, st) }"

section \<open>A kernel semaphore as a lock\<close>

text \<open>What each process does with the semaphore, and the steps of a system of processes that take
  it with \<^verbatim>\<open>down\<close> and give it back with \<^verbatim>\<open>up\<close>. Only the running process makes a step; the
  assertion of \<^verbatim>\<open>down\<close> on the returned flags is the \<open>0\<close> in \<open>down_resume\<close>.\<close>

datatype sem_ctl = Out | Waits | Holds

record sem_system =
  ss_sem :: semaphore
  ss_st :: ipc_state
  ss_ctl :: "nat \<Rightarrow> sem_ctl"

abbreviation ss_sched :: "sem_system \<Rightarrow> sched_state" where
  "ss_sched S \<equiv> ip_sched (ss_st S)"

definition running :: "sem_system \<Rightarrow> nat \<Rightarrow> bool" where
  "running S p \<longleftrightarrow> p = current (ss_sched S) \<and> pstate (procs (ss_sched S) p) = PROC_RUNNABLE \<and>
     lcpu_count (ss_sched S) \<le> p"

inductive ksem_step :: "sem_system \<Rightarrow> sem_system \<Rightarrow> bool" where
  resched: "schedule MLFQ_sched_class (ss_sched S) = Some s \<Longrightarrow>
    ksem_step S (S\<lparr>ss_st := (ss_st S)\<lparr>ip_sched := s\<rparr>\<rparr>)"
| down_fast: "running S p \<Longrightarrow> ss_ctl S p = Out \<Longrightarrow>
    down_enter (ss_sem S) WT_KSEM None (ss_st S) = Some (True, sem, st) \<Longrightarrow>
    ksem_step S \<lparr>ss_sem = sem, ss_st = st, ss_ctl = (ss_ctl S)(p := Holds)\<rparr>"
| down_wait: "running S p \<Longrightarrow> ss_ctl S p = Out \<Longrightarrow>
    down_enter (ss_sem S) WT_KSEM None (ss_st S) = Some (False, sem, st) \<Longrightarrow>
    ksem_step S \<lparr>ss_sem = sem, ss_st = st, ss_ctl = (ss_ctl S)(p := Waits)\<rparr>"
| down_resume: "running S p \<Longrightarrow> ss_ctl S p = Waits \<Longrightarrow>
    down_leave (ss_sem S) WT_KSEM None p (ss_st S) = Some (0, sem, st) \<Longrightarrow>
    ksem_step S \<lparr>ss_sem = sem, ss_st = st, ss_ctl = (ss_ctl S)(p := Holds)\<rparr>"
| up: "running S p \<Longrightarrow> ss_ctl S p = Holds \<Longrightarrow> up (ss_sem S) (ss_st S) = Some (sem, st) \<Longrightarrow>
    ksem_step S \<lparr>ss_sem = sem, ss_st = st, ss_ctl = (ss_ctl S)(p := Out)\<rparr>"

definition ksem_start :: "int \<Rightarrow> ipc_state \<Rightarrow> sem_system" where
  "ksem_start n st = \<lparr>ss_sem = sem_init n, ss_st = st, ss_ctl = (\<lambda>_. Out)\<rparr>"

text \<open>Who has the semaphore, or has been given it and has yet to run.\<close>

definition owners :: "sem_system \<Rightarrow> nat set" where
  "owners S = {p. ss_ctl S p = Holds \<or> ss_ctl S p = Waits \<and> p \<notin> set (sem_queue (ss_sem S))}"

definition ksem_inv :: "int \<Rightarrow> sem_system \<Rightarrow> bool" where
  "ksem_inv n S \<longleftrightarrow> sched_inv (ss_sched S) \<and> sem_valid (ss_sem S) \<and> 0 \<le> sem_value (ss_sem S) \<and>
     finite (owners S) \<and> sem_value (ss_sem S) + int (card (owners S)) = n \<and>
     (0 < sem_value (ss_sem S) \<longrightarrow> sem_queue (ss_sem S) = []) \<and> distinct (sem_queue (ss_sem S)) \<and>
     (\<forall>p \<in> set (sem_queue (ss_sem S)). ss_ctl S p = Waits \<and> lcpu_count (ss_sched S) \<le> p \<and>
        pstate (procs (ss_sched S) p) = PROC_SLEEPING \<and> wait_state (procs (ss_sched S) p) = WT_KSEM) \<and>
     (\<forall>p. ss_ctl S p = Waits \<longrightarrow> p \<notin> set (sem_queue (ss_sem S)) \<longrightarrow> ip_flags (ss_st S) p = WT_KSEM)"

lemma ksem_invD:
  assumes "ksem_inv n S"
  shows "sched_inv (ss_sched S)" "sem_valid (ss_sem S)" "0 \<le> sem_value (ss_sem S)" "finite (owners S)"
    "sem_value (ss_sem S) + int (card (owners S)) = n"
    "0 < sem_value (ss_sem S) \<Longrightarrow> sem_queue (ss_sem S) = []" "distinct (sem_queue (ss_sem S))"
    "p \<in> set (sem_queue (ss_sem S)) \<Longrightarrow> ss_ctl S p = Waits \<and> lcpu_count (ss_sched S) \<le> p \<and>
        pstate (procs (ss_sched S) p) = PROC_SLEEPING \<and> wait_state (procs (ss_sched S) p) = WT_KSEM"
    "ss_ctl S p = Waits \<Longrightarrow> p \<notin> set (sem_queue (ss_sem S)) \<Longrightarrow> ip_flags (ss_st S) p = WT_KSEM"
  using assms unfolding ksem_inv_def by blast+

lemma down_enter_ok:
  assumes inv: "ksem_inv n S" and run: "running S p" and ctl: "ss_ctl S p = Out"
  shows "returns (down_enter (ss_sem S) WT_KSEM None (ss_st S)) (\<lambda>(now, sem, st).
    ksem_inv n \<lparr>ss_sem = sem, ss_st = st, ss_ctl = (ss_ctl S)(p := if now then Holds else Waits)\<rparr>)"
proof (cases "0 < sem_value (ss_sem S)")
  case True
  let ?S = "\<lparr>ss_sem = (ss_sem S)\<lparr>sem_value := sem_value (ss_sem S) - 1\<rparr>, ss_st = ss_st S,
    ss_ctl = (ss_ctl S)(p := Holds)\<rparr>"
  have "owners ?S = insert p (owners S)" "p \<notin> owners S"
    using ctl by (auto simp: owners_def)
  then have "ksem_inv n ?S"
    using ksem_invD [OF inv] True by (simp add: ksem_inv_def)
  then show ?thesis using True ksem_invD(2) [OF inv] by (simp add: down_enter_def)
next
  case False
  have p: "p = current (ss_sched S)" "lcpu_count (ss_sched S) \<le> p" using run by (auto simp: running_def)
  have notin: "p \<notin> set (sem_queue (ss_sem S))" using ksem_invD(8) [OF inv, of p] ctl by auto
  let ?st = "(wait_init p (ss_st S))\<lparr>ip_sched := upd_proc p (\<lambda>pr. pr\<lparr>pstate := PROC_SLEEPING, wait_state := WT_KSEM\<rparr>) (ss_sched S)\<rparr>"
  let ?S = "\<lparr>ss_sem = (ss_sem S)\<lparr>sem_queue := sem_queue (ss_sem S) @ [p]\<rparr>, ss_st = ?st,
    ss_ctl = (ss_ctl S)(p := Waits)\<rparr>"
  have own: "owners ?S = owners S" using ctl by (auto simp: owners_def)
  have "sched_step MLFQ_sched_class (ss_sched S) (ss_sched ?S)"
    using sched_step.sleep [of MLFQ_sched_class "ss_sched S" WT_KSEM] p by simp
  then have "sched_inv (ss_sched ?S)" by (rule MLFQ.sched_step_inv [OF _ ksem_invD(1) [OF inv]])
  then have "ksem_inv n ?S"
    unfolding ksem_inv_def own using ksem_invD [OF inv] False notin p by (auto simp: wait_init_def)
  then show ?thesis
    using False notin ksem_invD(2) [OF inv] p
    by (simp add: down_enter_def wait_current_set_def wait_queue_add_def ipc_add_timer_def wait_init_def Let_def)
qed

lemma down_leave_ok:
  assumes inv: "ksem_inv n S" and run: "running S p" and ctl: "ss_ctl S p = Waits"
  shows "down_leave (ss_sem S) WT_KSEM None p (ss_st S) = Some (0, ss_sem S, ss_st S)"
    "ksem_inv n (S\<lparr>ss_ctl := (ss_ctl S)(p := Holds)\<rparr>)"
proof -
  have notin: "p \<notin> set (sem_queue (ss_sem S))"
    using ksem_invD(8) [OF inv, of p] run by (auto simp: running_def)
  show "down_leave (ss_sem S) WT_KSEM None p (ss_st S) = Some (0, ss_sem S, ss_st S)"
    using ksem_invD(9) [OF inv ctl notin] notin
    by (simp add: down_leave_def ipc_del_timer_def wait_current_del_def wait_in_queue_def)
  let ?S = "S\<lparr>ss_ctl := (ss_ctl S)(p := Holds)\<rparr>"
  have "owners ?S = owners S" using ctl notin by (auto simp: owners_def)
  then show "ksem_inv n ?S"
    using ksem_invD [OF inv] notin by (auto simp: ksem_inv_def)
qed

lemma up_ok:
  assumes inv: "ksem_inv n S" and run: "running S p" and ctl: "ss_ctl S p = Holds" and n: "n < 2 ^ 31"
  shows "returns (up (ss_sem S) (ss_st S)) (\<lambda>(sem, st).
    ksem_inv n \<lparr>ss_sem = sem, ss_st = st, ss_ctl = (ss_ctl S)(p := Out)\<rparr>)"
proof (cases "sem_queue (ss_sem S)")
  case Nil
  let ?S = "\<lparr>ss_sem = (ss_sem S)\<lparr>sem_value := sem_value (ss_sem S) + 1\<rparr>, ss_st = ss_st S,
    ss_ctl = (ss_ctl S)(p := Out)\<rparr>"
  have own: "owners ?S = owners S - {p}" "p \<in> owners S" using ctl by (auto simp: owners_def)
  then have "0 < card (owners S)" using ksem_invD(4) [OF inv] card_gt_0_iff by blast
  moreover from this have "ksem_inv n ?S"
    using ksem_invD [OF inv] own Nil by (auto simp: ksem_inv_def)
  ultimately show ?thesis
    using ksem_invD(2,5) [OF inv] n Nil by (simp add: up_def up_wait_def wait_queue_first_def)
next
  case (Cons w q)
  have w: "ss_ctl S w = Waits" "lcpu_count (ss_sched S) \<le> w" "pstate (procs (ss_sched S) w) = PROC_SLEEPING"
      "wait_state (procs (ss_sched S) w) = WT_KSEM" "w \<notin> set q" "w \<noteq> p"
    using ksem_invD(7) [OF inv] ksem_invD(8) [OF inv, of w] Cons ctl by auto
  have v: "\<not> 0 < sem_value (ss_sem S)" using ksem_invD(6) [OF inv] Cons by auto
  obtain s where s: "wakeup_proc MLFQ_sched_class w (ss_sched S) = Some s" "sched_inv s"
      "lcpu_count s = lcpu_count (ss_sched S)"
      "\<And>x. pstate (procs s x) = (if x = w then PROC_RUNNABLE else pstate (procs (ss_sched S) x))"
      "\<And>x. x \<noteq> w \<Longrightarrow> wait_state (procs s x) = wait_state (procs (ss_sched S) x)"
    by (rule returnsE [OF MLFQ.wakeup_proc_ok [OF ksem_invD(1) [OF inv], of w]]) (use w in auto)
  let ?st = "(ss_st S)\<lparr>ip_flags := (ip_flags (ss_st S))(w := WT_KSEM), ip_sched := s\<rparr>"
  let ?S = "\<lparr>ss_sem = (ss_sem S)\<lparr>sem_queue := q\<rparr>, ss_st = ?st, ss_ctl = (ss_ctl S)(p := Out)\<rparr>"
  have own: "owners ?S = insert w (owners S - {p})" "p \<in> owners S" "w \<notin> owners S - {p}"
    using ctl w Cons by (auto simp: owners_def)
  have "card (owners ?S) = Suc (card (owners S - {p}))"
    using own ksem_invD(4) [OF inv] by (simp only: own(1) card_insert_disjoint finite_Diff simp_thms)
  also have "\<dots> = card (owners S)" by (rule card_Suc_Diff1 [OF ksem_invD(4) [OF inv] own(2)])
  finally have "card (owners ?S) = card (owners S)" .
  then have "ksem_inv n ?S"
    unfolding ksem_inv_def using ksem_invD [OF inv] own(1) s w v ctl Cons by (auto split: if_splits)
  then show ?thesis
    using ksem_invD(2) [OF inv] Cons w s(1)
    by (simp add: up_def up_wait_def wait_queue_first_def wakeup_wait_def wait_queue_del_def)
qed

lemma ksem_step_inv: "ksem_step S S' \<Longrightarrow> ksem_inv n S \<Longrightarrow> n < 2 ^ 31 \<Longrightarrow> ksem_inv n S'"
proof (induction rule: ksem_step.induct)
  case (resched S s)
  have s: "sched_inv s" "lcpu_count s = lcpu_count (ss_sched S)"
      "\<And>p. pstate (procs s p) = pstate (procs (ss_sched S) p)"
      "\<And>p. wait_state (procs s p) = wait_state (procs (ss_sched S) p)"
    using MLFQ.schedule_ok [OF ksem_invD(1) [OF resched(2)]] resched(1) by auto
  have "owners (S\<lparr>ss_st := (ss_st S)\<lparr>ip_sched := s\<rparr>\<rparr>) = owners S" by (simp add: owners_def)
  then show ?case using ksem_invD [OF resched(2)] s by (simp add: ksem_inv_def)
next
  case (down_fast S p sem st)
  then show ?case using down_enter_ok [OF down_fast(4,1,2)] by simp
next
  case (down_wait S p sem st)
  then show ?case using down_enter_ok [OF down_wait(4,1,2)] by simp
next
  case (down_resume S p sem st)
  then show ?case using down_leave_ok [OF down_resume(4,1,2)] by (simp add: ksem_inv_def owners_def)
next
  case (up S p sem st)
  then show ?case using up_ok [OF up(4,1,2)] by simp
qed

lemma ksem_start_inv: "sched_inv (ip_sched st) \<Longrightarrow> 0 \<le> n \<Longrightarrow> ksem_inv n (ksem_start n st)"
  by (simp add: ksem_start_def ksem_inv_def sem_init_def owners_def)

text \<open>C7. A kernel semaphore that starts at \<open>n\<close> lets at most \<open>n\<close> processes in, in every interleaving of
  any number of processes that take and release it under the scheduler; nobody waits while it is
  free. Nothing goes wrong on the way: the process that runs can always take its next step,
  \<^verbatim>\<open>down\<close> never finds unexpected flags when it wakes up, and \<^verbatim>\<open>up\<close> never meets a waiter in another
  state than its own.\<close>

theorem ksem_mutual_exclusion:
  assumes "sched_inv (ip_sched st)" "0 \<le> n" "n < 2 ^ 31" "ksem_step\<^sup>*\<^sup>* (ksem_start n st) S"
  shows "int (card {p. ss_ctl S p = Holds}) \<le> n \<and>
    (0 < sem_value (ss_sem S) \<longrightarrow> sem_queue (ss_sem S) = []) \<and>
    (\<forall>p. running S p \<longrightarrow> (case ss_ctl S p of
       Out \<Rightarrow> down_enter (ss_sem S) WT_KSEM None (ss_st S) \<noteq> None
     | Waits \<Rightarrow> down_leave (ss_sem S) WT_KSEM None p (ss_st S) = Some (0, ss_sem S, ss_st S)
     | Holds \<Rightarrow> up (ss_sem S) (ss_st S) \<noteq> None))"
proof -
  have inv: "ksem_inv n S"
    using assms(4) by induction (auto intro: ksem_start_inv ksem_step_inv assms)
  have "{p. ss_ctl S p = Holds} \<subseteq> owners S" by (auto simp: owners_def)
  then have "card {p. ss_ctl S p = Holds} \<le> card (owners S)" by (rule card_mono [OF ksem_invD(4) [OF inv]])
  moreover have "down_enter (ss_sem S) WT_KSEM None (ss_st S) \<noteq> None" if "running S p" "ss_ctl S p = Out" for p
    using down_enter_ok [OF inv that] by (auto simp: returns_def)
  moreover have "up (ss_sem S) (ss_st S) \<noteq> None" if "running S p" "ss_ctl S p = Holds" for p
    using up_ok [OF inv that assms(3)] by (auto simp: returns_def)
  ultimately show ?thesis
    using ksem_invD(3,5,6) [OF inv] down_leave_ok(1) [OF inv] by (auto split: sem_ctl.splits)
qed

theorem ksem_mutual_exclusion_witness:
  "\<exists>S. ksem_step\<^sup>*\<^sup>* (ksem_start 1 \<lparr>ip_sched = sched0, ip_timers = [], ip_flags = (\<lambda>_. 0)\<rparr>) S \<and>
     ss_ctl S 1 = Holds \<and> int (card {p. ss_ctl S p = Holds}) \<le> 1"
proof -
  let ?st = "\<lparr>ip_sched = sched0, ip_timers = [], ip_flags = (\<lambda>_. 0)\<rparr>"
  let ?S = "\<lparr>ss_sem = (sem_init 1)\<lparr>sem_value := 0\<rparr>, ss_st = ?st, ss_ctl = (\<lambda>_. Out)(1 := Holds)\<rparr>"
  have "ksem_step (ksem_start 1 ?st) ?S"
    using ksem_step.down_fast [of "ksem_start 1 ?st" 1 "(sem_init 1)\<lparr>sem_value := 0\<rparr>" ?st]
    by (simp add: ksem_start_def running_def sched0_def down_enter_def sem_init_def)
  then have r: "ksem_step\<^sup>*\<^sup>* (ksem_start 1 ?st) ?S" by blast
  have "int (card {p. ss_ctl ?S p = Holds}) \<le> 1"
    using ksem_mutual_exclusion [OF _ _ _ r] sched0_inv by simp
  with r show ?thesis by (intro exI [of _ ?S]) simp
qed

section \<open>A user semaphore with a timeout\<close>

text \<open>C34. The timeout of a user semaphore can panic the kernel. When the timer of the first waiter
  expires, the clock interrupt makes the waiter runnable and clears its wait state, but leaves it
  in the queue of the semaphore until it runs; if the semaphore is posted before that, the
  assertion of \<^verbatim>\<open>__up\<close> on the state of the first waiter fails.\<close>

theorem usem_timeout_panic:
  assumes inv: "sched_inv (ip_sched st)" and ok: "timer_list_ok (ip_timers st)"
    and wake: "\<forall>t \<in> set (ip_timers st). wakeable (ip_sched st) t"
    and waiter: "sem_queue sem = p # q" "pstate (procs (ip_sched st) p) = PROC_SLEEPING"
    and timer: "t \<in> set (ip_timers st)" "tm_proc t = Some p" "(tm_id t, 1) \<in> set (deadlines 0 (ip_timers st))"
  shows "\<exists>ts s. run_timer_list MLFQ_sched_class (ip_timers st) (ip_sched st) = Some (ts, s) \<and>
    usem_up sem (st\<lparr>ip_sched := s, ip_timers := ts\<rparr>) = None"
proof -
  obtain ts s where r: "run_timer_list MLFQ_sched_class (ip_timers st) (ip_sched st) = Some (ts, s)"
      "\<forall>t \<in> set (ip_timers st). (tm_id t, 1) \<in> set (deadlines 0 (ip_timers st)) \<longrightarrow>
        pstate (procs s (the (tm_proc t))) = PROC_RUNNABLE \<and>
        (pstate (procs (ip_sched st) (the (tm_proc t))) \<noteq> PROC_RUNNABLE \<longrightarrow>
          wait_state (procs s (the (tm_proc t))) = 0)"
    using run_timer_list_due [OF ok inv wake] by blast
  then have "wait_state (procs s p) = 0" using timer waiter(2) by force
  then have "usem_up sem (st\<lparr>ip_sched := s, ip_timers := ts\<rparr>) = None"
    using waiter(1) by (simp add: usem_up_def up_wait_def wait_queue_first_def Option.bind_eq_None_conv)
  with r(1) show ?thesis by blast
qed

text \<open>Process 5 waits on the semaphore with a timeout that expires at the next tick.\<close>

definition usem_state0 :: ipc_state where
  "usem_state0 = \<lparr>ip_sched = upd_proc 5 (\<lambda>pr. pr\<lparr>wait_state := WT_USEM\<rparr>) sched0,
     ip_timers = [timer_init 1 (Some 5) 1], ip_flags = (\<lambda>_. WT_INTERRUPTED)\<rparr>"

theorem usem_timeout_panic_witness:
  "\<exists>ts s. run_timer_list MLFQ_sched_class (ip_timers usem_state0) (ip_sched usem_state0) = Some (ts, s) \<and>
    usem_up ((sem_init 0)\<lparr>sem_queue := [5]\<rparr>) (usem_state0\<lparr>ip_sched := s, ip_timers := ts\<rparr>) = None"
proof (rule usem_timeout_panic [where t = "timer_init 1 (Some 5) 1" and p = 5 and q = "[]"])
  have "keeps_links (\<lambda>pr. pr\<lparr>wait_state := WT_USEM\<rparr>)" by (simp add: keeps_links_def)
  then show "sched_inv (ip_sched usem_state0)"
    using sched0_inv(1) by (auto simp: usem_state0_def sched_inv_def rq_ok_upd_proc ready_upd_proc)
qed (simp_all add: usem_state0_def timer_list_ok_def wakeable_def sched0_def timer_init_def)

end
