(* ===== verification/Gl_Vc4.thy ===== *)
theory Gl_Vc4
  imports Vc4_Packet Vc4_Cl
begin

text \<open>
  The VideoCore driver of the user-level graphics library
  (\<^verbatim>\<open>libs-user-ucore/libgl/src/drivers/vc4\<close>): it turns clears and draws into the command lists the
  kernel validates.

  The command lists are those of theory \<open>Vc4_Cl\<close> (the emission functions of the two \<^verbatim>\<open>vc4_cl.h\<close>
  agree), but they grow: \<open>mem n\<close> is the block \<^verbatim>\<open>malloc(n)\<close> returns, and a list with the null pointer
  as its base has the empty buffer. The cursor \<^verbatim>\<open>reloc_next\<close> of a list is returned by the functions
  that set it and handed to \<open>cl_reloc\<close>. Structures \<^verbatim>\<open>vc4_bo\<close> live in a heap \<open>vc_bos\<close> and are named by
  their addresses; the memory they map is kept with them. Resources and surfaces, which
  nobody updates, are values. What \<^verbatim>\<open>malloc\<close> and the kernel answer to one allocation of a buffer
  object is an argument of the function that allocates, and the requests to the kernel are recorded
  in \<open>vc_calls\<close>. Floating-point arithmetic is a parameter, a record of the operations the code uses.
\<close>

unbundle bit_operations_syntax

section \<open>Command lists that grow\<close>

definition cl_ensure_space :: "(u32 \<Rightarrow> u8 list option) \<Rightarrow> vc4_cl \<Rightarrow> u32 \<Rightarrow> vc4_cl option" where
  "cl_ensure_space mem cl space =
     (if cl_offset cl + space \<le> cl_size cl then Some cl
      else
        let sz = cl_size cl + space;
            sz = (if sz < cl_size cl * 2 then cl_size cl * 2 else sz);
            block = (case mem sz of None \<Rightarrow> [] | Some b \<Rightarrow> b)
        in do {
          b \<leftarrow> (if cl_buf cl \<noteq> [] then memcpy block 0 (cl_buf cl) 0 (unat (cl_size cl)) else Some block);
          Some (cl\<lparr>cl_buf := b, cl_size := sz\<rparr>) })"

section \<open>The context\<close>

record user_bo =
  ub_ref :: u32
  ub_size :: u32
  ub_handle :: u32
  ub_map :: u32
  ub_mem :: "u8 list"

record ('r, 'd) float_ops =
  fl_add :: "'r \<Rightarrow> 'r \<Rightarrow> 'r"
  fl_sub :: "'r \<Rightarrow> 'r \<Rightarrow> 'r"
  fl_mul :: "'r \<Rightarrow> 'r \<Rightarrow> 'r"
  fl_neg :: "'r \<Rightarrow> 'r"
  fl_le :: "'r \<Rightarrow> 'r \<Rightarrow> bool"
  fl_of_u32 :: "u32 \<Rightarrow> 'r"
  fl_of_s32 :: "u32 \<Rightarrow> 'r"
  fl_of_db :: "'d \<Rightarrow> 'r"
  fl_to_u32 :: "'r \<Rightarrow> u32"
  fl_to_u16 :: "'r \<Rightarrow> u16"
  fl_to_s16 :: "'r \<Rightarrow> u16"
  fl_bits :: "'r \<Rightarrow> u32"
  fl_of_bits :: "u32 \<Rightarrow> 'r"
  db_of_fl :: "'r \<Rightarrow> 'd"
  db_of_u32 :: "u32 \<Rightarrow> 'd"
  db_add :: "'d \<Rightarrow> 'd \<Rightarrow> 'd"
  db_mul :: "'d \<Rightarrow> 'd \<Rightarrow> 'd"
  db_eq :: "'d \<Rightarrow> 'd \<Rightarrow> bool"
  db_less :: "'d \<Rightarrow> 'd \<Rightarrow> bool"
  db_to_u32 :: "'d \<Rightarrow> u32"

record pipe_resource =
  rs_cpp :: u32
  rs_width0 :: u32
  rs_height0 :: u32
  rs_bind :: u32

record vc4_resource_slice =
  sl_offset :: u32
  sl_stride :: u32
  sl_size :: u32
  sl_tiling :: u8

record vc4_resource = pipe_resource +
  rs_bo :: u32
  rs_slice :: vc4_resource_slice

record pipe_surface =
  sf_texture :: vc4_resource
  sf_cpp :: u32
  sf_width :: u32
  sf_height :: u32
  sf_offset :: u32

record vc4_surface = pipe_surface +
  sf_tiling :: u8

record pipe_framebuffer_state =
  fb_width :: u32
  fb_height :: u32
  fb_nr_cbufs :: u32
  fb_cbuf0 :: "vc4_surface option"
  fb_cbuf1 :: "vc4_surface option"
  fb_zsbuf :: "vc4_surface option"

record 'r pipe_viewport_state =
  vp_scale :: "'r \<times> 'r \<times> 'r"
  vp_translate :: "'r \<times> 'r \<times> 'r"

text \<open>Of the depth, stencil and alpha state, the fields the driver reads.\<close>

record pipe_zsa_state =
  depth_enabled :: bool
  depth_writemask :: bool
  depth_func :: u8
  stencil_enabled :: bool

record vc4_zsa_state =
  zsa_base :: pipe_zsa_state
  zsa_config_bits :: "u8 \<times> u8 \<times> u8"

record pipe_vertex_buffer =
  vb_stride :: u16
  vb_buffer_offset :: u32
  vb_resource :: "vc4_resource option"

record pipe_draw_info =
  di_index_size :: u8
  di_mode :: u8
  di_has_user_indices :: bool
  di_start :: u32
  di_count :: u32

text \<open>A submission: the arguments of the ioctl, with the memory its three pointers lead to.\<close>

record user_job =
  job_args :: drm_vc4_submit_cl
  job_bin_cl :: "u8 list"
  job_shader_rec :: "u8 list"
  job_bo_handles :: "u8 list"

datatype drm_call =
    CREATE_BO u32 u32
  | MMAP_BO u32
  | FREE_BO u32
  | MUNMAP u32 u32
  | SUBMIT_CL user_job

record 'r vc4_context =
  vc_bcl :: vc4_cl
  vc_shader_rec :: vc4_cl
  vc_bo_handles :: vc4_cl
  vc_bo_pointers :: vc4_cl
  vc_shader_rec_count :: u32
  vc_color_read :: "vc4_surface option"
  vc_color_write :: "vc4_surface option"
  vc_zs_read :: "vc4_surface option"
  vc_zs_write :: "vc4_surface option"
  vc_draw_min_x :: u32
  vc_draw_min_y :: u32
  vc_draw_max_x :: u32
  vc_draw_max_y :: u32
  vc_draw_width :: u32
  vc_draw_height :: u32
  vc_draw_tiles_x :: u32
  vc_draw_tiles_y :: u32
  vc_tile_width :: u32
  vc_tile_height :: u32
  vc_dirty :: u32
  vc_cleared :: u32
  vc_resolve :: u32
  vc_clear_color :: "u32 \<times> u32"
  vc_clear_depth :: u32
  vc_clear_stencil :: u8
  vc_needs_flush :: bool
  vc_draw_calls_queued :: u32
  vc_max_index :: u32
  vc_zsa :: vc4_zsa_state
  vc_prog_fs :: u32
  vc_uniforms :: u32
  vc_framebuffer :: pipe_framebuffer_state
  vc_viewport :: "'r pipe_viewport_state"
  vc_vertexbuf :: pipe_vertex_buffer
  vc_bo_list :: "u32 list"
  vc_bos :: "u32 \<rightharpoonup> user_bo"
  vc_calls :: "drm_call list"

abbreviation (input) "VC4_DIRTY_BLEND \<equiv> 0x1 :: u32"
abbreviation (input) "VC4_DIRTY_RASTERIZER \<equiv> 0x2 :: u32"
abbreviation (input) "VC4_DIRTY_ZSA \<equiv> 0x4 :: u32"
abbreviation (input) "VC4_DIRTY_FRAGTEX \<equiv> 0x8 :: u32"
abbreviation (input) "VC4_DIRTY_FRAMEBUFFER \<equiv> 0x400 :: u32"
abbreviation (input) "VC4_DIRTY_VIEWPORT \<equiv> 0x1000 :: u32"
abbreviation (input) "VC4_DIRTY_VTXBUF \<equiv> 0x8000 :: u32"
abbreviation (input) "VC4_DIRTY_PRIM_MODE \<equiv> 0x80000 :: u32"
abbreviation (input) "VC4_DIRTY_UNCOMPILED_FS \<equiv> 0x400000 :: u32"

abbreviation (input) "PIPE_CLEAR_DEPTH \<equiv> 0x1 :: u32"
abbreviation (input) "PIPE_CLEAR_STENCIL \<equiv> 0x2 :: u32"
abbreviation (input) "PIPE_CLEAR_COLOR0 \<equiv> 0x4 :: u32"
abbreviation (input) "PIPE_CLEAR_DEPTHSTENCIL \<equiv> PIPE_CLEAR_DEPTH OR PIPE_CLEAR_STENCIL"
abbreviation (input) "PIPE_BIND_DISPLAY_TARGET \<equiv> 0x80 :: u32"
abbreviation (input) "PIPE_FUNC_LESS \<equiv> 1 :: u8"
abbreviation (input) "PIPE_FUNC_LEQUAL \<equiv> 3 :: u8"
abbreviation (input) "PIPE_FUNC_ALWAYS \<equiv> 7 :: u8"

abbreviation (input) "VC4_INDEX_BUFFER_U8 \<equiv> 0 :: u8"
abbreviation (input) "VC4_INDEX_BUFFER_U16 \<equiv> 0x10 :: u8"
abbreviation (input) "VC4_PRIMITIVE_LIST_FORMAT_16_INDEX \<equiv> 0x10 :: u8"
abbreviation (input) "VC4_PRIMITIVE_LIST_FORMAT_TYPE_TRIANGLES \<equiv> 0x2 :: u8"
abbreviation (input) "VC4_CONFIG_BITS_ENABLE_PRIM_FRONT \<equiv> 0x1 :: u8"
abbreviation (input) "VC4_CONFIG_BITS_ENABLE_PRIM_BACK \<equiv> 0x2 :: u8"
abbreviation (input) "VC4_CONFIG_BITS_EARLY_Z \<equiv> 0x1 :: u8"
abbreviation (input) "VC4_CONFIG_BITS_EARLY_Z_UPDATE \<equiv> 0x2 :: u8"
abbreviation (input) "VC4_CONFIG_BITS_Z_UPDATE \<equiv> 0x80 :: u8"
abbreviation (input) "VC4_CONFIG_BITS_DEPTH_FUNC_SHIFT \<equiv> 4"

section \<open>Buffer objects\<close>

text \<open>The answers to one allocation: the address of the new structure (0 when there is no memory),
  whether the two requests to the kernel succeed and what they return, and what the mapped memory
  holds.\<close>

record bo_answers =
  an_malloc :: u32
  an_create :: bool
  an_handle :: u32
  an_size :: u32
  an_mmap :: bool
  an_offset :: u32
  an_mem :: "u8 list"

definition vc4_call :: "drm_call \<Rightarrow> 'r vc4_context \<Rightarrow> 'r vc4_context" where
  "vc4_call c vc4 = vc4\<lparr>vc_calls := vc_calls vc4 @ [c]\<rparr>"

definition vc4_bo_alloc :: "bo_answers \<Rightarrow> u32 \<Rightarrow> 'r vc4_context \<Rightarrow> u32 \<times> 'r vc4_context" where
  "vc4_bo_alloc a sz vc4 =
     (if sz = 0 then (0, vc4)
      else
        let sz = ROUNDUP sz 4096 in
        if an_malloc a = 0 then (0, vc4)
        else
          let vc4 = vc4_call (CREATE_BO sz 0) vc4 in
          if \<not> an_create a then (0, vc4)
          else
            (an_malloc a,
             vc4\<lparr>vc_bos := (vc_bos vc4)(an_malloc a \<mapsto>
                   \<lparr>ub_ref = 1, ub_size = sz, ub_handle = an_handle a, ub_map = 0, ub_mem = []\<rparr>),
                 vc_bo_list := vc_bo_list vc4 @ [an_malloc a]\<rparr>))"

definition vc4_bo_alloc_fb :: "bo_answers \<Rightarrow> 'r vc4_context \<Rightarrow> u32 \<times> 'r vc4_context" where
  "vc4_bo_alloc_fb a vc4 =
     (if an_malloc a = 0 then (0, vc4)
      else
        let vc4 = vc4_call (CREATE_BO 0 VC4_CREATE_BO_IS_FRAMEBUFFER) vc4 in
        if \<not> an_create a then (0, vc4)
        else
          (an_malloc a,
           vc4\<lparr>vc_bos := (vc_bos vc4)(an_malloc a \<mapsto>
                 \<lparr>ub_ref = 1, ub_size = an_size a, ub_handle = an_handle a, ub_map = 0, ub_mem = []\<rparr>),
               vc_bo_list := vc_bo_list vc4 @ [an_malloc a]\<rparr>))"

definition vc4_bo_free :: "u32 \<Rightarrow> 'r vc4_context \<Rightarrow> 'r vc4_context option" where
  "vc4_bo_free p vc4 =
     (if p = 0 then Some vc4
      else do {
        b \<leftarrow> vc_bos vc4 p;
        let vc4 = (if ub_map b \<noteq> 0 then vc4_call (MUNMAP (ub_map b) (ub_size b)) vc4 else vc4);
        let vc4 = vc4_call (FREE_BO (ub_handle b)) vc4;
        Some (vc4\<lparr>vc_bos := (vc_bos vc4)(p := None)\<rparr>) })"

definition vc4_bo_map :: "bo_answers \<Rightarrow> u32 \<Rightarrow> 'r vc4_context \<Rightarrow> (u32 \<times> 'r vc4_context) option" where
  "vc4_bo_map a p vc4 =
     (if p = 0 then Some (0, vc4)
      else do {
        b \<leftarrow> vc_bos vc4 p;
        if ub_map b \<noteq> 0 then Some (ub_map b, vc4)
        else
          let vc4 = vc4_call (MMAP_BO (ub_handle b)) vc4 in
          if \<not> an_mmap a then Some (0, vc4)
          else Some (an_offset a,
            vc4\<lparr>vc_bos := (vc_bos vc4)(p \<mapsto> b\<lparr>ub_map := an_offset a, ub_mem := an_mem a\<rparr>)\<rparr>) })"

definition vc4_bo_reference :: "u32 \<Rightarrow> 'r vc4_context \<Rightarrow> 'r vc4_context option" where
  "vc4_bo_reference p vc4 = do {
     b \<leftarrow> vc_bos vc4 p;
     Some (vc4\<lparr>vc_bos := (vc_bos vc4)(p \<mapsto> b\<lparr>ub_ref := ub_ref b + 1\<rparr>)\<rparr>) }"

definition vc4_bo_unreference :: "u32 \<Rightarrow> 'r vc4_context \<Rightarrow> 'r vc4_context option" where
  "vc4_bo_unreference p vc4 =
     (if p = 0 then Some vc4
      else do {
        b \<leftarrow> vc_bos vc4 p;
        let vc4 = vc4\<lparr>vc_bos := (vc_bos vc4)(p \<mapsto> b\<lparr>ub_ref := ub_ref b - 1\<rparr>)\<rparr>;
        if ub_ref b - 1 = 0
        then vc4_bo_free p (vc4\<lparr>vc_bo_list := remove1 p (vc_bo_list vc4)\<rparr>)
        else Some vc4 })"

text \<open>Stores through the mapping of a buffer object; without a mapping there is nothing to store
  to.\<close>

definition bo_store :: "u32 \<Rightarrow> nat \<Rightarrow> u8 list \<Rightarrow> 'r vc4_context \<Rightarrow> 'r vc4_context option" where
  "bo_store p i bs vc4 = do {
     b \<leftarrow> vc_bos vc4 p;
     cassert (ub_map b \<noteq> 0);
     m \<leftarrow> store_bytes (ub_mem b) i bs;
     Some (vc4\<lparr>vc_bos := (vc_bos vc4)(p \<mapsto> b\<lparr>ub_mem := m\<rparr>)\<rparr>) }"

section \<open>Buffer handles and relocations\<close>

fun find_hindex :: "u8 list \<Rightarrow> u32 \<Rightarrow> nat \<Rightarrow> nat \<Rightarrow> nat option" where
  "find_hindex current_handles h i 0 = Some i"
| "find_hindex current_handles h i (Suc n) = do {
     x \<leftarrow> get_unaligned_32 current_handles (4 * i);
     if x = h then Some i else find_hindex current_handles h (Suc i) n }"

definition vc4_gem_hindex :: "u32 \<Rightarrow> 'r vc4_context \<Rightarrow> (u32 \<times> 'r vc4_context) option" where
  "vc4_gem_hindex p vc4 = do {
     b \<leftarrow> vc_bos vc4 p;
     let n = unat (cl_offset (vc_bo_handles vc4) div 4);
     i \<leftarrow> find_hindex (cl_buf (vc_bo_handles vc4)) (ub_handle b) 0 n;
     if i < n then Some (of_nat i, vc4)
     else do {
       vc4 \<leftarrow> vc4_bo_reference p vc4;
       hs \<leftarrow> cl_u32 (vc_bo_handles vc4) (ub_handle b);
       ps \<leftarrow> cl_u32 (vc_bo_pointers vc4) p;
       Some (of_nat i, vc4\<lparr>vc_bo_handles := hs, vc_bo_pointers := ps\<rparr>) } }"

definition cl_start_reloc :: "vc4_cl \<Rightarrow> (vc4_cl \<times> nat) option" where
  "cl_start_reloc cl = do {
     cl \<leftarrow> cl_u8 cl (packet_code VC4_PACKET_GEM_HANDLES);
     let reloc_next = cl_next cl;
     cl \<leftarrow> cl_u32 cl 0;
     cl \<leftarrow> cl_u32 cl 0;
     Some (cl, reloc_next) }"

definition cl_start_shader_reloc :: "vc4_cl \<Rightarrow> nat \<Rightarrow> vc4_cl \<times> nat" where
  "cl_start_shader_reloc cl n = (cl_advance cl (n * 4), cl_next cl)"

text \<open>The list is the binner list or the shader records of the same context, which the lookup of
  the handle does not touch.\<close>

definition cl_reloc ::
    "vc4_cl \<Rightarrow> nat \<Rightarrow> u32 \<Rightarrow> u32 \<Rightarrow> 'r vc4_context \<Rightarrow> (vc4_cl \<times> nat \<times> 'r vc4_context) option" where
  "cl_reloc cl reloc_next p off vc4 = do {
     (h, vc4) \<leftarrow> vc4_gem_hindex p vc4;
     buf \<leftarrow> put_unaligned_32 (cl_buf cl) reloc_next h;
     cl \<leftarrow> cl_u32 (cl\<lparr>cl_buf := buf\<rparr>) off;
     Some (cl, reloc_next + 4, vc4) }"

section \<open>State\<close>

definition vc4_set_framebuffer_state ::
    "pipe_framebuffer_state \<Rightarrow> 'r vc4_context \<Rightarrow> 'r vc4_context" where
  "vc4_set_framebuffer_state fb vc4 =
     vc4\<lparr>vc_framebuffer := fb, vc_dirty := vc_dirty vc4 OR VC4_DIRTY_FRAMEBUFFER\<rparr>"

definition vc4_set_viewport_state ::
    "'r pipe_viewport_state \<Rightarrow> 'r vc4_context \<Rightarrow> 'r vc4_context" where
  "vc4_set_viewport_state vp vc4 =
     vc4\<lparr>vc_viewport := vp, vc_dirty := vc_dirty vc4 OR VC4_DIRTY_VIEWPORT\<rparr>"

definition vc4_set_vertex_buffers ::
    "pipe_vertex_buffer \<Rightarrow> 'r vc4_context \<Rightarrow> 'r vc4_context" where
  "vc4_set_vertex_buffers vb vc4 =
     vc4\<lparr>vc_vertexbuf := vb, vc_dirty := vc_dirty vc4 OR VC4_DIRTY_VTXBUF\<rparr>"

definition vc4_set_depth_stencil_alpha_state ::
    "pipe_zsa_state \<Rightarrow> 'r vc4_context \<Rightarrow> 'r vc4_context" where
  "vc4_set_depth_stencil_alpha_state cso vc4 =
     (let b1 = (if depth_enabled cso
                then (if depth_writemask cso then VC4_CONFIG_BITS_Z_UPDATE else 0)
                     OR push_bit VC4_CONFIG_BITS_DEPTH_FUNC_SHIFT (depth_func cso)
                else push_bit VC4_CONFIG_BITS_DEPTH_FUNC_SHIFT PIPE_FUNC_ALWAYS);
          b2 = VC4_CONFIG_BITS_EARLY_Z_UPDATE OR
               (if depth_enabled cso \<and>
                   (depth_func cso = PIPE_FUNC_LESS \<or> depth_func cso = PIPE_FUNC_LEQUAL)
                then VC4_CONFIG_BITS_EARLY_Z else 0)
      in vc4\<lparr>vc_zsa := \<lparr>zsa_base = cso, zsa_config_bits = (0, b1, b2)\<rparr>,
             vc_dirty := vc_dirty vc4 OR VC4_DIRTY_ZSA\<rparr>)"

section \<open>The fragment shader\<close>

definition fs_ins :: "u32 list" where
  "fs_ins =
     [0x00000000, 0xe0024967, 0x958c0dad, 0x11724823, 0x818c0176, 0x10024821,
      0x818c0376, 0x40024862, 0x81000540, 0x114248a3, 0x80000009, 0x115049e3,
      0x80000012, 0x116049e3, 0x00000000, 0x100009e7, 0x150006c0, 0x30020ba7,
      0x00000000, 0x100009e7, 0x00000000, 0x500009e7]"

text \<open>The result is false for \<^verbatim>\<open>-E_NOMEM\<close>.\<close>

definition vc4_create_fs ::
    "bo_answers \<Rightarrow> bo_answers \<Rightarrow> 'r vc4_context \<Rightarrow> (bool \<times> 'r vc4_context) option" where
  "vc4_create_fs a1 a2 vc4 = do {
     let (fs, vc4) = vc4_bo_alloc a1 (of_nat (4 * length fs_ins)) vc4;
     (m, vc4) \<leftarrow> vc4_bo_map a1 fs vc4;
     if m = 0 then Some (False, vc4)
     else do {
       vc4 \<leftarrow> bo_store fs 0 (concat (map u32_bytes fs_ins)) vc4;
       let (uniforms, vc4) = vc4_bo_alloc a2 0x1000 vc4;
       if uniforms = 0 then Some (False, vc4)
       else Some (True, vc4\<lparr>vc_prog_fs := fs, vc_uniforms := uniforms\<rparr>) } }"

definition vc4_update_compiled_fs :: "'r vc4_context \<Rightarrow> 'r vc4_context option" where
  "vc4_update_compiled_fs vc4 =
     (if vc_dirty vc4 AND (VC4_DIRTY_PRIM_MODE OR VC4_DIRTY_BLEND OR VC4_DIRTY_FRAMEBUFFER OR
           VC4_DIRTY_ZSA OR VC4_DIRTY_RASTERIZER OR VC4_DIRTY_FRAGTEX OR VC4_DIRTY_UNCOMPILED_FS) = 0
      then Some vc4
      else if depth_enabled (zsa_base (vc_zsa vc4)) then do {
        vc4 \<leftarrow> bo_store (vc_prog_fs vc4) (4 * 14) (u32_bytes 0x1500ffc0) vc4;
        bo_store (vc_prog_fs vc4) (4 * 15) (u32_bytes 0x10020b27) vc4 }
      else do {
        vc4 \<leftarrow> bo_store (vc_prog_fs vc4) (4 * 14) (u32_bytes 0x00000000) vc4;
        bo_store (vc_prog_fs vc4) (4 * 15) (u32_bytes 0x100009e7) vc4 })"

definition vc4_update_compiled_shaders :: "u8 \<Rightarrow> 'r vc4_context \<Rightarrow> 'r vc4_context option" where
  "vc4_update_compiled_shaders prim_mode vc4 = vc4_update_compiled_fs vc4"

section \<open>Emission of state\<close>

definition cl_f :: "('r, 'd) float_ops \<Rightarrow> vc4_cl \<Rightarrow> 'r \<Rightarrow> vc4_cl option" where
  "cl_f fl cl f = cl_u32 cl (fl_bits fl f)"

abbreviation (input) float_zero :: u32 where "float_zero \<equiv> 0"
abbreviation (input) float_16 :: u32 where "float_16 \<equiv> 0x41800000"

definition emit_clip_window ::
    "('r, 'd) float_ops \<Rightarrow> 'r vc4_context \<Rightarrow> 'r vc4_context option" where
  "emit_clip_window fl vc4 = do {
     let (sx, sy, sz) = vp_scale (vc_viewport vc4);
     let (tx, ty, tz) = vp_translate (vc_viewport vc4);
     let vp_minx = fl_add fl (fl_neg fl sx) tx;
     let vp_maxx = fl_add fl sx tx;
     let vp_miny = fl_add fl (fl_neg fl sy) ty;
     let vp_maxy = fl_add fl sy ty;
     let zero = fl_of_bits fl float_zero;
     let minx = fl_to_u32 fl (if fl_le fl zero vp_minx then vp_minx else zero);
     let miny = fl_to_u32 fl (if fl_le fl zero vp_miny then vp_miny else zero);
     let maxx = fl_to_u32 fl (if fl_le fl vp_maxx (fl_of_u32 fl (vc_draw_width vc4)) then vp_maxx else zero);
     let maxy = fl_to_u32 fl (if fl_le fl vp_maxy (fl_of_u32 fl (vc_draw_height vc4)) then vp_maxy else zero);
     bcl \<leftarrow> cl_u8 (vc_bcl vc4) (packet_code VC4_PACKET_CLIP_WINDOW);
     bcl \<leftarrow> cl_u16 bcl (ucast minx);
     bcl \<leftarrow> cl_u16 bcl (ucast miny);
     bcl \<leftarrow> cl_u16 bcl (ucast (maxx - minx));
     bcl \<leftarrow> cl_u16 bcl (ucast (maxy - miny));
     Some (vc4\<lparr>vc_bcl := bcl,
       vc_draw_min_x := (if minx < vc_draw_min_x vc4 then minx else vc_draw_min_x vc4),
       vc_draw_min_y := (if miny < vc_draw_min_y vc4 then miny else vc_draw_min_y vc4),
       vc_draw_max_x := (if vc_draw_max_x vc4 < maxx then maxx else vc_draw_max_x vc4),
       vc_draw_max_y := (if vc_draw_max_y vc4 < maxy then maxy else vc_draw_max_y vc4)\<rparr>) }"

definition emit_config_bits :: "'r vc4_context \<Rightarrow> 'r vc4_context option" where
  "emit_config_bits vc4 = do {
     let (c0, c1, c2) = zsa_config_bits (vc_zsa vc4);
     bcl \<leftarrow> cl_u8 (vc_bcl vc4) (packet_code VC4_PACKET_CONFIGURATION_BITS);
     bcl \<leftarrow> cl_u8 bcl ((VC4_CONFIG_BITS_ENABLE_PRIM_FRONT OR VC4_CONFIG_BITS_ENABLE_PRIM_BACK) OR c0);
     bcl \<leftarrow> cl_u8 bcl (0 OR c1);
     bcl \<leftarrow> cl_u8 bcl (0 OR c2);
     Some (vc4\<lparr>vc_bcl := bcl\<rparr>) }"

definition emit_viewport ::
    "('r, 'd) float_ops \<Rightarrow> 'r vc4_context \<Rightarrow> 'r vc4_context option" where
  "emit_viewport fl vc4 = do {
     let (sx, sy, sz) = vp_scale (vc_viewport vc4);
     let (tx, ty, tz) = vp_translate (vc_viewport vc4);
     let sixteen = fl_of_bits fl float_16;
     bcl \<leftarrow> cl_u8 (vc_bcl vc4) (packet_code VC4_PACKET_CLIPPER_XY_SCALING);
     bcl \<leftarrow> cl_f fl bcl (fl_mul fl sx sixteen);
     bcl \<leftarrow> cl_f fl bcl (fl_mul fl sy sixteen);
     bcl \<leftarrow> cl_u8 bcl (packet_code VC4_PACKET_CLIPPER_Z_SCALING);
     bcl \<leftarrow> cl_f fl bcl sz;
     bcl \<leftarrow> cl_f fl bcl tz;
     bcl \<leftarrow> cl_u8 bcl (packet_code VC4_PACKET_VIEWPORT_OFFSET);
     bcl \<leftarrow> cl_u16 bcl (fl_to_u16 fl (fl_mul fl sixteen tx));
     bcl \<leftarrow> cl_u16 bcl (fl_to_u16 fl (fl_mul fl sixteen ty));
     Some (vc4\<lparr>vc_bcl := bcl\<rparr>) }"

definition vc4_emit_state ::
    "('r, 'd) float_ops \<Rightarrow> 'r vc4_context \<Rightarrow> 'r vc4_context option" where
  "vc4_emit_state fl vc4 = do {
     vc4 \<leftarrow> (if vc_dirty vc4 AND VC4_DIRTY_VIEWPORT \<noteq> 0 then emit_clip_window fl vc4 else Some vc4);
     vc4 \<leftarrow> (if vc_dirty vc4 AND (VC4_DIRTY_RASTERIZER OR VC4_DIRTY_ZSA) \<noteq> 0
            then emit_config_bits vc4 else Some vc4);
     (if vc_dirty vc4 AND VC4_DIRTY_VIEWPORT \<noteq> 0 then emit_viewport fl vc4 else Some vc4) }"

section \<open>Drawing\<close>

definition vc4_get_draw_cl_space ::
    "(u32 \<Rightarrow> u8 list option) \<Rightarrow> 'r vc4_context \<Rightarrow> 'r vc4_context option" where
  "vc4_get_draw_cl_space mem vc4 = do {
     bcl \<leftarrow> cl_ensure_space mem (vc_bcl vc4)
       (256 + (packet_size VC4_PACKET_GL_INDEXED_PRIMITIVE + packet_size VC4_PACKET_NV_SHADER_STATE) * 1);
     sr \<leftarrow> cl_ensure_space mem (vc_shader_rec vc4) ((3 * 4 + 16) * 1);
     hs \<leftarrow> cl_ensure_space mem (vc_bo_handles vc4) (20 * 4);
     ps \<leftarrow> cl_ensure_space mem (vc_bo_pointers vc4) (20 * 4);
     Some (vc4\<lparr>vc_bcl := bcl, vc_shader_rec := sr, vc_bo_handles := hs, vc_bo_pointers := ps\<rparr>) }"

definition get_ibo :: "bo_answers \<Rightarrow> 'r vc4_context \<Rightarrow> (u32 \<times> 'r vc4_context) option" where
  "get_ibo a vc4 = do {
     let (p, vc4) = vc4_bo_alloc a 12 vc4;
     (m, vc4) \<leftarrow> vc4_bo_map a p vc4;
     cassert (m \<noteq> 0);
     vc4 \<leftarrow> bo_store p 0 [0, 1, 2, 3, 4, 5, 6, 7, 8, 9, 10, 11] vc4;
     Some (p, vc4) }"

definition vc4_start_draw ::
    "(u32 \<Rightarrow> u8 list option) \<Rightarrow> 'r vc4_context \<Rightarrow> 'r vc4_context option" where
  "vc4_start_draw mem vc4 =
     (if vc_needs_flush vc4 then Some vc4
      else do {
        vc4 \<leftarrow> vc4_get_draw_cl_space mem vc4;
        bcl \<leftarrow> cl_u8 (vc_bcl vc4) (packet_code VC4_PACKET_TILE_BINNING_MODE_CONFIG);
        bcl \<leftarrow> cl_u32 bcl 0;
        bcl \<leftarrow> cl_u32 bcl 0;
        bcl \<leftarrow> cl_u32 bcl 0;
        bcl \<leftarrow> cl_u8 bcl (ucast (vc_draw_tiles_x vc4));
        bcl \<leftarrow> cl_u8 bcl (ucast (vc_draw_tiles_y vc4));
        bcl \<leftarrow> cl_u8 bcl (ucast VC4_BIN_CONFIG_AUTO_INIT_TSDA);
        bcl \<leftarrow> cl_u8 bcl (packet_code VC4_PACKET_START_TILE_BINNING);
        bcl \<leftarrow> cl_u8 bcl (packet_code VC4_PACKET_PRIMITIVE_LIST_FORMAT);
        bcl \<leftarrow> cl_u8 bcl (VC4_PRIMITIVE_LIST_FORMAT_16_INDEX OR VC4_PRIMITIVE_LIST_FORMAT_TYPE_TRIANGLES);
        Some (vc4\<lparr>vc_bcl := bcl, vc_needs_flush := True,
          vc_draw_calls_queued := vc_draw_calls_queued vc4 + 1,
          vc_draw_width := fb_width (vc_framebuffer vc4),
          vc_draw_height := fb_height (vc_framebuffer vc4)\<rparr>) })"

definition vc4_init_context_fbo :: "'r vc4_context \<Rightarrow> 'r vc4_context" where
  "vc4_init_context_fbo vc4 = vc4\<lparr>vc_tile_width := 64, vc_tile_height := 64,
     vc_draw_tiles_x := ROUNDUP_DIV (fb_width (vc_framebuffer vc4)) 64,
     vc_draw_tiles_y := ROUNDUP_DIV (fb_height (vc_framebuffer vc4)) 64\<rparr>"

definition vc4_emit_nv_shader_state :: "'r vc4_context \<Rightarrow> 'r vc4_context option" where
  "vc4_emit_nv_shader_state vc4 = do {
     let vb = vc_vertexbuf vc4;
     bcl \<leftarrow> cl_u8 (vc_bcl vc4) (packet_code VC4_PACKET_NV_SHADER_STATE);
     bcl \<leftarrow> cl_u32 bcl 0;
     let (sr, reloc) = cl_start_shader_reloc (vc_shader_rec vc4) 3;
     sr \<leftarrow> cl_u8 sr 0;
     sr \<leftarrow> cl_u8 sr (ucast (vb_stride vb));
     sr \<leftarrow> cl_u8 sr 0;
     sr \<leftarrow> cl_u8 sr 3;
     (sr, reloc, vc4) \<leftarrow> cl_reloc sr reloc (vc_prog_fs vc4) 0 vc4;
     (sr, reloc, vc4) \<leftarrow> cl_reloc sr reloc (vc_uniforms vc4) 0 vc4;
     rsc \<leftarrow> vb_resource vb;
     (sr, reloc, vc4) \<leftarrow> cl_reloc sr reloc (rs_bo rsc) (vb_buffer_offset vb) vc4;
     let r = vc_resolve vc4;
     let r = (if depth_enabled (zsa_base (vc_zsa vc4)) then r OR PIPE_CLEAR_DEPTH else r);
     let r = (if stencil_enabled (zsa_base (vc_zsa vc4)) then r OR PIPE_CLEAR_STENCIL else r);
     Some (vc4\<lparr>vc_bcl := bcl, vc_shader_rec := sr, vc_resolve := r OR PIPE_CLEAR_COLOR0,
       vc_shader_rec_count := vc_shader_rec_count vc4 + 1\<rparr>) }"

definition emit_indexed ::
    "u32 \<Rightarrow> u8 \<Rightarrow> pipe_draw_info \<Rightarrow> 'r vc4_context \<Rightarrow> 'r vc4_context option" where
  "emit_indexed ibo index_size info vc4 = do {
     let off = di_start info * ucast index_size;
     (bcl, reloc) \<leftarrow> cl_start_reloc (vc_bcl vc4);
     bcl \<leftarrow> cl_u8 bcl (packet_code VC4_PACKET_GL_INDEXED_PRIMITIVE);
     bcl \<leftarrow> cl_u8 bcl (di_mode info OR
       (if index_size = 2 then VC4_INDEX_BUFFER_U16 else VC4_INDEX_BUFFER_U8));
     bcl \<leftarrow> cl_u32 bcl (di_count info);
     (bcl, reloc, vc4) \<leftarrow> cl_reloc bcl reloc ibo off vc4;
     bcl \<leftarrow> cl_u32 bcl (vc_max_index vc4);
     Some (vc4\<lparr>vc_bcl := bcl\<rparr>) }"

definition draw_indexed ::
    "bo_answers \<Rightarrow> pipe_draw_info \<Rightarrow> 'r vc4_context \<Rightarrow> 'r vc4_context option" where
  "draw_indexed a info vc4 = do {
     (ibo, vc4) \<leftarrow> get_ibo a vc4;
     let index_size = di_index_size info;
     cassert (index_size = 1 \<or> index_size = 2);
     vc4 \<leftarrow> emit_indexed ibo index_size info vc4;
     if di_has_user_indices info then vc4_bo_unreference ibo vc4 else Some vc4 }"

definition draw_array :: "pipe_draw_info \<Rightarrow> 'r vc4_context \<Rightarrow> 'r vc4_context option" where
  "draw_array info vc4 = do {
     bcl \<leftarrow> cl_u8 (vc_bcl vc4) (packet_code VC4_PACKET_GL_ARRAY_PRIMITIVE);
     bcl \<leftarrow> cl_u8 bcl (di_mode info);
     bcl \<leftarrow> cl_u32 bcl (di_count info);
     bcl \<leftarrow> cl_u32 bcl (di_start info);
     Some (vc4\<lparr>vc_bcl := bcl\<rparr>) }"

definition vc4_draw_vbo ::
    "('r, 'd) float_ops \<Rightarrow> (u32 \<Rightarrow> u8 list option) \<Rightarrow> bo_answers \<Rightarrow> pipe_draw_info \<Rightarrow> 'r vc4_context
      \<Rightarrow> 'r vc4_context option" where
  "vc4_draw_vbo fl mem a info vc4 = do {
     let vc4 = vc4_init_context_fbo vc4;
     vc4 \<leftarrow> vc4_get_draw_cl_space mem vc4;
     vc4 \<leftarrow> vc4_start_draw mem vc4;
     vc4 \<leftarrow> vc4_update_compiled_shaders (di_mode info) vc4;
     vc4 \<leftarrow> vc4_emit_state fl vc4;
     vc4 \<leftarrow> (if vc_dirty vc4 AND VC4_DIRTY_VTXBUF \<noteq> 0 then vc4_emit_nv_shader_state vc4 else Some vc4);
     let vc4 = vc4\<lparr>vc_dirty := 0\<rparr>;
     if di_index_size info \<noteq> 0 then draw_indexed a info vc4 else draw_array info vc4 }"

section \<open>Jobs\<close>

fun unreference_bos :: "u8 list \<Rightarrow> nat list \<Rightarrow> 'r vc4_context \<Rightarrow> 'r vc4_context option" where
  "unreference_bos referenced_bos [] vc4 = Some vc4"
| "unreference_bos referenced_bos (i # is) vc4 = do {
     p \<leftarrow> get_unaligned_32 referenced_bos (4 * i);
     vc4 \<leftarrow> vc4_bo_unreference p vc4;
     unreference_bos referenced_bos is vc4 }"

definition vc4_job_reset :: "'r vc4_context \<Rightarrow> 'r vc4_context option" where
  "vc4_job_reset vc4 = do {
     vc4 \<leftarrow> unreference_bos (cl_buf (vc_bo_pointers vc4))
              [0..<unat (cl_offset (vc_bo_handles vc4) div 4)] vc4;
     Some (vc4\<lparr>vc_bcl := vc4_reset_cl (vc_bcl vc4), vc_shader_rec := vc4_reset_cl (vc_shader_rec vc4),
       vc_bo_handles := vc4_reset_cl (vc_bo_handles vc4),
       vc_bo_pointers := vc4_reset_cl (vc_bo_pointers vc4), vc_shader_rec_count := 0,
       vc_needs_flush := False, vc_draw_calls_queued := 0, vc_dirty := NOT 0, vc_resolve := 0,
       vc_cleared := 0, vc_draw_min_x := NOT 0, vc_draw_min_y := NOT 0, vc_draw_max_x := 0,
       vc_draw_max_y := 0\<rparr>) }"

definition vc4_job_init :: "'r vc4_context \<Rightarrow> 'r vc4_context option" where
  "vc4_job_init vc4 = vc4_job_reset (vc4\<lparr>vc_bcl := vc4_init_cl, vc_shader_rec := vc4_init_cl,
     vc_bo_handles := vc4_init_cl, vc_bo_pointers := vc4_init_cl\<rparr>)"

text \<open>The field macro of the library, whose assertion is commented out.\<close>

definition SET_FIELD :: "u32 \<Rightarrow> u32 \<Rightarrow> nat \<Rightarrow> u32" where
  "SET_FIELD v fmask shift = push_bit shift v AND fmask"

definition no_surface :: drm_vc4_submit_rcl_surface where
  "no_surface = \<lparr>hindex = 0, offset = 0, bits = 0, surf_flags = 0\<rparr>"

definition vc4_submit_setup_rcl_surface ::
    "vc4_surface option \<Rightarrow> bool \<Rightarrow> 'r vc4_context
      \<Rightarrow> (drm_vc4_submit_rcl_surface \<times> 'r vc4_context) option" where
  "vc4_submit_setup_rcl_surface psurf is_depth vc4 =
     (case psurf of
        None \<Rightarrow> Some (no_surface\<lparr>hindex := NOT 0\<rparr>, vc4)
      | Some surf \<Rightarrow> do {
          (h, vc4) \<leftarrow> vc4_gem_hindex (rs_bo (sf_texture surf)) vc4;
          let b = (if is_depth
            then SET_FIELD VC4_LOADSTORE_TILE_BUFFER_ZS VC4_LOADSTORE_TILE_BUFFER_BUFFER_MASK
                   VC4_LOADSTORE_TILE_BUFFER_BUFFER_SHIFT
            else SET_FIELD VC4_LOADSTORE_TILE_BUFFER_COLOR VC4_LOADSTORE_TILE_BUFFER_BUFFER_MASK
                   VC4_LOADSTORE_TILE_BUFFER_BUFFER_SHIFT OR
                 SET_FIELD (if sf_cpp surf = 2 then VC4_LOADSTORE_TILE_BUFFER_BGR565
                            else VC4_LOADSTORE_TILE_BUFFER_RGBA8888)
                   VC4_LOADSTORE_TILE_BUFFER_FORMAT_MASK VC4_LOADSTORE_TILE_BUFFER_FORMAT_SHIFT);
          let b = (ucast b :: u16) OR
            ucast (SET_FIELD (ucast (sf_tiling surf)) VC4_LOADSTORE_TILE_BUFFER_TILING_MASK
                     VC4_LOADSTORE_TILE_BUFFER_TILING_SHIFT);
          Some (no_surface\<lparr>hindex := h, offset := sf_offset surf, bits := b\<rparr>, vc4) })"

definition vc4_submit_setup_rcl_render_config_surface ::
    "vc4_surface option \<Rightarrow> 'r vc4_context \<Rightarrow> (drm_vc4_submit_rcl_surface \<times> 'r vc4_context) option" where
  "vc4_submit_setup_rcl_render_config_surface psurf vc4 =
     (case psurf of
        None \<Rightarrow> Some (no_surface\<lparr>hindex := NOT 0\<rparr>, vc4)
      | Some surf \<Rightarrow> do {
          (h, vc4) \<leftarrow> vc4_gem_hindex (rs_bo (sf_texture surf)) vc4;
          let b = SET_FIELD (if sf_cpp surf = 2 then VC4_RENDER_CONFIG_FORMAT_BGR565
                             else VC4_RENDER_CONFIG_FORMAT_RGBA8888)
                    VC4_RENDER_CONFIG_FORMAT_MASK VC4_RENDER_CONFIG_FORMAT_SHIFT OR
                  SET_FIELD (ucast (sf_tiling surf)) VC4_RENDER_CONFIG_MEMORY_FORMAT_MASK
                    VC4_RENDER_CONFIG_MEMORY_FORMAT_SHIFT;
          Some (no_surface\<lparr>hindex := h, offset := sf_offset surf, bits := ucast b\<rparr>, vc4) })"

text \<open>The arguments filled in before the bounds are looked at. The pointers of the structure are
  left at 0; the job carries the memory they lead to.\<close>

definition submit_args ::
    "'r vc4_context \<Rightarrow> drm_vc4_submit_rcl_surface \<Rightarrow> drm_vc4_submit_rcl_surface
      \<Rightarrow> drm_vc4_submit_rcl_surface \<Rightarrow> drm_vc4_submit_rcl_surface \<Rightarrow> drm_vc4_submit_cl" where
  "submit_args vc4 cr cw zr zw =
     \<lparr>bin_cl = 0, shader_rec = 0, uniforms = 0, bo_handles = 0,
      bin_cl_size = cl_offset (vc_bcl vc4), args_shader_rec_size = cl_offset (vc_shader_rec vc4),
      shader_rec_count = vc_shader_rec_count vc4, uniforms_size = 0,
      bo_handle_count = cl_offset (vc_bo_handles vc4) div 4,
      width = ucast (vc_draw_width vc4), height = ucast (vc_draw_height vc4),
      min_x_tile = ucast (vc_draw_min_x vc4 div vc_tile_width vc4),
      min_y_tile = ucast (vc_draw_min_y vc4 div vc_tile_height vc4),
      max_x_tile = ucast ((vc_draw_max_x vc4 - 1) div vc_tile_width vc4),
      max_y_tile = ucast ((vc_draw_max_y vc4 - 1) div vc_tile_height vc4),
      args_color_read = cr, args_color_write = cw, args_zs_read = zr, args_zs_write = zw,
      msaa_color_write = no_surface, msaa_zs_write = no_surface,
      clear_color = (if vc_cleared vc4 \<noteq> 0 then vc_clear_color vc4 else (0, 0)),
      clear_z = (if vc_cleared vc4 \<noteq> 0 then vc_clear_depth vc4 else 0),
      clear_s = (if vc_cleared vc4 \<noteq> 0 then vc_clear_stencil vc4 else 0),
      args_flags = (if vc_cleared vc4 \<noteq> 0 then VC4_SUBMIT_CL_USE_CLEAR_COLOR else 0),
      seqno = 0\<rparr>"

definition cl_contents :: "vc4_cl \<Rightarrow> u8 list" where
  "cl_contents cl = take (cl_next cl) (cl_buf cl)"

definition vc4_job_submit ::
    "(u32 \<Rightarrow> u8 list option) \<Rightarrow> 'r vc4_context \<Rightarrow> 'r vc4_context option" where
  "vc4_job_submit mem vc4 = do {
     hs \<leftarrow> cl_ensure_space mem (vc_bo_handles vc4) (4 * 4);
     ps \<leftarrow> cl_ensure_space mem (vc_bo_pointers vc4) (4 * 4);
     let vc4 = vc4\<lparr>vc_bo_handles := hs, vc_bo_pointers := ps\<rparr>;
     (cr, vc4) \<leftarrow> vc4_submit_setup_rcl_surface (vc_color_read vc4) False vc4;
     (cw, vc4) \<leftarrow> vc4_submit_setup_rcl_render_config_surface (vc_color_write vc4) vc4;
     (zr, vc4) \<leftarrow> vc4_submit_setup_rcl_surface (vc_zs_read vc4) True vc4;
     (zw, vc4) \<leftarrow> vc4_submit_setup_rcl_surface (vc_zs_write vc4) True vc4;
     if vc_draw_min_x vc4 = NOT 0 \<or> vc_draw_min_y vc4 = NOT 0 then Some vc4
     else do {
       cassert (vc_tile_width vc4 \<noteq> 0 \<and> vc_tile_height vc4 \<noteq> 0);
       vc4_job_reset (vc4_call (SUBMIT_CL \<lparr>job_args = submit_args vc4 cr cw zr zw,
         job_bin_cl = cl_contents (vc_bcl vc4), job_shader_rec = cl_contents (vc_shader_rec vc4),
         job_bo_handles = cl_contents (vc_bo_handles vc4)\<rparr>) vc4) } }"

definition vc4_flush ::
    "(u32 \<Rightarrow> u8 list option) \<Rightarrow> 'r vc4_context \<Rightarrow> 'r vc4_context option" where
  "vc4_flush mem vc4 =
     (let cbuf = fb_cbuf0 (vc_framebuffer vc4) in
      if \<not> vc_needs_flush vc4 then Some vc4
      else if vc_draw_max_x vc4 \<le> vc_draw_min_x vc4 \<or> vc_draw_max_y vc4 \<le> vc_draw_min_y vc4
      then vc4_job_reset vc4
      else do {
        bcl \<leftarrow> (if 0 < cl_offset (vc_bcl vc4) then do {
            bcl \<leftarrow> cl_ensure_space mem (vc_bcl vc4) 8;
            bcl \<leftarrow> cl_u8 bcl (packet_code VC4_PACKET_INCREMENT_SEMAPHORE);
            cl_u8 bcl (packet_code VC4_PACKET_FLUSH) }
          else Some (vc_bcl vc4));
        vc4_job_submit mem (vc4\<lparr>vc_bcl := bcl, vc_color_write := cbuf\<rparr>) })"

section \<open>Clearing\<close>

definition float_to_ubyte :: "('r, 'd) float_ops \<Rightarrow> 'r \<Rightarrow> u8" where
  "float_to_ubyte fl f =
     (if sint (fl_bits fl f) < 0 then 0
      else if 0x3f800000 \<le> sint (fl_bits fl f) then 255
      else ucast (fl_bits fl (fl_add fl (fl_mul fl f (fl_of_bits fl 0x3f7f0000)) (fl_of_bits fl 0x47000000))))"

definition pack_rgba :: "('r, 'd) float_ops \<Rightarrow> 'r \<times> 'r \<times> 'r \<times> 'r \<Rightarrow> u32" where
  "pack_rgba fl = (\<lambda>(r, g, b, a).
     push_bit 24 (ucast (float_to_ubyte fl a)) OR push_bit 16 (ucast (float_to_ubyte fl b)) OR
     push_bit 8 (ucast (float_to_ubyte fl g)) OR ucast (float_to_ubyte fl r))"

definition vc4_clear ::
    "('r, 'd) float_ops \<Rightarrow> (u32 \<Rightarrow> u8 list option) \<Rightarrow> u32 \<Rightarrow> 'r \<times> 'r \<times> 'r \<times> 'r \<Rightarrow> 'd \<Rightarrow> u32
      \<Rightarrow> 'r vc4_context \<Rightarrow> 'r vc4_context option" where
  "vc4_clear fl mem buffers color depth stencil vc4 = do {
     vc4 \<leftarrow> (if vc_draw_calls_queued vc4 \<noteq> 0 then vc4_flush mem vc4 else Some vc4);
     let vc4 = (if buffers AND PIPE_CLEAR_COLOR0 \<noteq> 0
       then vc4\<lparr>vc_clear_color := (pack_rgba fl color, pack_rgba fl color)\<rparr> else vc4);
     let vc4 = (if buffers AND PIPE_CLEAR_DEPTHSTENCIL \<noteq> 0 then
         (let vc4 = (if buffers AND PIPE_CLEAR_DEPTH \<noteq> 0
            then vc4\<lparr>vc_clear_depth := (if db_eq fl depth (db_of_u32 fl 1) then 0xffffff
               else db_to_u32 fl (db_add fl (db_mul fl depth (db_of_u32 fl 0xffffff))
                      (db_of_fl fl (fl_of_bits fl 0x3f000000))))\<rparr> else vc4)
          in if buffers AND PIPE_CLEAR_STENCIL \<noteq> 0 then vc4\<lparr>vc_clear_stencil := ucast stencil\<rparr> else vc4)
       else vc4);
     let vc4 = vc4_init_context_fbo vc4;
     let vc4 = vc4\<lparr>vc_draw_min_x := 0, vc_draw_min_y := 0,
       vc_draw_max_x := fb_width (vc_framebuffer vc4), vc_draw_max_y := fb_height (vc_framebuffer vc4),
       vc_cleared := vc_cleared vc4 OR buffers\<rparr>;
     vc4_start_draw mem vc4 }"

section \<open>Resources\<close>

definition vc4_setup_slices :: "pipe_resource \<Rightarrow> vc4_resource_slice" where
  "vc4_setup_slices prsc =
     (let stride = rs_width0 prsc * rs_cpp prsc in
      \<lparr>sl_offset = 0, sl_stride = stride, sl_size = rs_height0 prsc * stride,
       sl_tiling = VC4_TILING_FORMAT_LINEAR\<rparr>)"

text \<open>The first argument says whether \<^verbatim>\<open>malloc\<close> has room for the structure itself.\<close>

definition vc4_resource_create ::
    "bool \<Rightarrow> bo_answers \<Rightarrow> pipe_resource \<Rightarrow> 'r vc4_context \<Rightarrow> vc4_resource option \<times> 'r vc4_context" where
  "vc4_resource_create room a tmpl vc4 =
     (if \<not> room then (None, vc4)
      else
        let slice = vc4_setup_slices tmpl;
            (p, vc4) = (if rs_bind tmpl AND PIPE_BIND_DISPLAY_TARGET \<noteq> 0 then vc4_bo_alloc_fb a vc4
                        else vc4_bo_alloc a (sl_offset slice + sl_size slice) vc4)
        in if p = 0 then (None, vc4)
           else (Some (pipe_resource.extend tmpl (vc4_resource.fields p slice)), vc4))"

definition vc4_resource_destroy :: "vc4_resource option \<Rightarrow> 'r vc4_context \<Rightarrow> 'r vc4_context option" where
  "vc4_resource_destroy prsc vc4 =
     (case prsc of None \<Rightarrow> Some vc4 | Some rsc \<Rightarrow> vc4_bo_unreference (rs_bo rsc) vc4)"

definition vc4_resource_transfer_map ::
    "bo_answers \<Rightarrow> vc4_resource \<Rightarrow> 'r vc4_context \<Rightarrow> (u32 \<times> 'r vc4_context) option" where
  "vc4_resource_transfer_map a rsc vc4 = vc4_bo_map a (rs_bo rsc) vc4"

text \<open>The test of the code for a failed allocation looks at the name of a function and never
  succeeds, so without room the next statement writes through the null pointer.\<close>

definition vc4_create_surface ::
    "bool \<Rightarrow> vc4_resource \<Rightarrow> pipe_surface \<Rightarrow> vc4_surface option" where
  "vc4_create_surface room ptex tmpl = do {
     cassert room;
     Some (pipe_surface.extend (tmpl\<lparr>sf_texture := ptex\<rparr>)
       (vc4_surface.fields (sl_tiling (rs_slice ptex)))) }"

section \<open>Contexts\<close>

fun free_bos :: "u32 list \<Rightarrow> 'r vc4_context \<Rightarrow> 'r vc4_context option" where
  "free_bos [] vc4 = Some vc4"
| "free_bos (p # ps) vc4 = do {
     vc4 \<leftarrow> vc4_bo_free p (vc4\<lparr>vc_bo_list := ps\<rparr>);
     free_bos ps vc4 }"

definition vc4_context_destroy ::
    "(u32 \<Rightarrow> u8 list option) \<Rightarrow> 'r vc4_context \<Rightarrow> 'r vc4_context option" where
  "vc4_context_destroy mem vc4 = do {
     vc4 \<leftarrow> vc4_flush mem vc4;
     free_bos (vc_bo_list vc4) vc4 }"

text \<open>The context after \<^verbatim>\<open>memset\<close>.\<close>

definition zero_context :: "('r, 'd) float_ops \<Rightarrow> 'r vc4_context" where
  "zero_context fl =
     (let z = fl_of_bits fl 0 in
      \<lparr>vc_bcl = vc4_init_cl, vc_shader_rec = vc4_init_cl, vc_bo_handles = vc4_init_cl,
       vc_bo_pointers = vc4_init_cl, vc_shader_rec_count = 0, vc_color_read = None,
       vc_color_write = None, vc_zs_read = None, vc_zs_write = None, vc_draw_min_x = 0,
       vc_draw_min_y = 0, vc_draw_max_x = 0, vc_draw_max_y = 0, vc_draw_width = 0,
       vc_draw_height = 0, vc_draw_tiles_x = 0, vc_draw_tiles_y = 0, vc_tile_width = 0,
       vc_tile_height = 0, vc_dirty = 0, vc_cleared = 0, vc_resolve = 0, vc_clear_color = (0, 0),
       vc_clear_depth = 0, vc_clear_stencil = 0, vc_needs_flush = False, vc_draw_calls_queued = 0,
       vc_max_index = 0,
       vc_zsa = \<lparr>zsa_base = \<lparr>depth_enabled = False, depth_writemask = False, depth_func = 0,
                  stencil_enabled = False\<rparr>, zsa_config_bits = (0, 0, 0)\<rparr>,
       vc_prog_fs = 0, vc_uniforms = 0,
       vc_framebuffer = \<lparr>fb_width = 0, fb_height = 0, fb_nr_cbufs = 0, fb_cbuf0 = None, fb_cbuf1 = None,
                         fb_zsbuf = None\<rparr>,
       vc_viewport = \<lparr>vp_scale = (z, z, z), vp_translate = (z, z, z)\<rparr>,
       vc_vertexbuf = \<lparr>vb_stride = 0, vb_buffer_offset = 0, vb_resource = None\<rparr>,
       vc_bo_list = [], vc_bos = Map.empty, vc_calls = []\<rparr>)"

definition vc4_context_create ::
    "bool \<Rightarrow> ('r, 'd) float_ops \<Rightarrow> (u32 \<Rightarrow> u8 list option) \<Rightarrow> 'r vc4_context option option" where
  "vc4_context_create room fl mem =
     (if \<not> room then Some None
      else do {
        vc4 \<leftarrow> vc4_job_init (zero_context fl);
        ps \<leftarrow> cl_ensure_space mem (vc_bo_pointers vc4) (2 * 4);
        Some (Some (vc4\<lparr>vc_bo_pointers := ps, vc_bo_list := []\<rparr>)) })"

end
