(* ===== verification/Vc4_Accept.thy ===== *)
theory Vc4_Accept
  imports Vc4_Validate
begin

text \<open>
  What the validator of binner lists accepts. The safety theorems say that nothing bad gets
  through; here a class of well-formed lists is described and every list of the class is shown to be
  accepted. The class is what the graphics library emits (theory \<open>Gl_Safe\<close>).
\<close>

section \<open>Commands\<close>

text \<open>A command is one packet, or for an indexed draw the packet with the buffer handles and the
  draw behind it.\<close>

datatype bin_cmd =
    Plain vc4_packet "u8 list"
  | TileBinning "u8 list"
  | NvState u32
  | ArrayPrim u8 u32 u32
  | IndexedPrim u32 u32 u8 u32 u32 u32

primrec bin_cmd_bytes :: "bin_cmd \<Rightarrow> u8 list" where
  "bin_cmd_bytes (Plain p bs) = packet_code p # bs"
| "bin_cmd_bytes (TileBinning bs) = packet_code VC4_PACKET_TILE_BINNING_MODE_CONFIG # bs"
| "bin_cmd_bytes (NvState a) = packet_code VC4_PACKET_NV_SHADER_STATE # u32_bytes a"
| "bin_cmd_bytes (ArrayPrim m len base) =
     packet_code VC4_PACKET_GL_ARRAY_PRIMITIVE # m # u32_bytes len @ u32_bytes base"
| "bin_cmd_bytes (IndexedPrim h0 h1 m len off mx) =
     packet_code VC4_PACKET_GEM_HANDLES # u32_bytes h0 @ u32_bytes h1 @
     packet_code VC4_PACKET_GL_INDEXED_PRIMITIVE # m # u32_bytes len @ u32_bytes off @ u32_bytes mx"

text \<open>Packets that need no validation.\<close>

definition plain_packets :: "vc4_packet list" where
  "plain_packets =
     [VC4_PACKET_NOP, VC4_PACKET_FLUSH, VC4_PACKET_FLUSH_ALL, VC4_PACKET_START_TILE_BINNING,
      VC4_PACKET_INCREMENT_SEMAPHORE, VC4_PACKET_PRIMITIVE_LIST_FORMAT, VC4_PACKET_GL_SHADER_STATE,
      VC4_PACKET_CONFIGURATION_BITS, VC4_PACKET_FLAT_SHADE_FLAGS, VC4_PACKET_POINT_SIZE,
      VC4_PACKET_LINE_WIDTH, VC4_PACKET_RHT_X_BOUNDARY, VC4_PACKET_DEPTH_OFFSET,
      VC4_PACKET_CLIP_WINDOW, VC4_PACKET_VIEWPORT_OFFSET, VC4_PACKET_CLIPPER_XY_SCALING,
      VC4_PACKET_CLIPPER_Z_SCALING]"

text \<open>A command after \<open>n\<close> shader states, in a job whose buffers have the sizes \<open>sizes\<close>.\<close>

primrec bin_cmd_ok :: "u32 list \<Rightarrow> nat \<Rightarrow> bin_cmd \<Rightarrow> bool" where
  "bin_cmd_ok sizes n (Plain p bs) \<longleftrightarrow>
     p \<in> set plain_packets \<and> Suc (length bs) = unat (packet_size p)"
| "bin_cmd_ok sizes n (TileBinning bs) \<longleftrightarrow> length bs = 15"
| "bin_cmd_ok sizes n (NvState a) \<longleftrightarrow> True"
| "bin_cmd_ok sizes n (ArrayPrim m len base) \<longleftrightarrow> n \<noteq> 0 \<and> len \<le> len + base"
| "bin_cmd_ok sizes n (IndexedPrim h0 h1 m len off mx) \<longleftrightarrow>
     n \<noteq> 0 \<and> unat h0 < length sizes \<and> off \<le> sizes ! unat h0 \<and>
     len \<le> (sizes ! unat h0 - off) div (if drop_bit 4 m \<noteq> 0 then 2 else 1)"

primrec shader_states :: "bin_cmd \<Rightarrow> nat" where
  "shader_states (Plain p bs) = 0"
| "shader_states (TileBinning bs) = 0"
| "shader_states (NvState a) = 1"
| "shader_states (ArrayPrim m len base) = 0"
| "shader_states (IndexedPrim h0 h1 m len off mx) = 0"

fun bin_cmds_ok :: "u32 list \<Rightarrow> nat \<Rightarrow> bin_cmd list \<Rightarrow> bool" where
  "bin_cmds_ok sizes n [] \<longleftrightarrow> True"
| "bin_cmds_ok sizes n (c # cs) \<longleftrightarrow>
     bin_cmd_ok sizes n c \<and> bin_cmds_ok sizes (n + shader_states c) cs"

abbreviation "bin_cmds_bytes cs \<equiv> concat (map bin_cmd_bytes cs)"
abbreviation "count_states cs \<equiv> sum_list (map shader_states cs)"

lemma bin_cmds_ok_append [simp]:
  "bin_cmds_ok sizes n (xs @ ys) \<longleftrightarrow>
     bin_cmds_ok sizes n xs \<and> bin_cmds_ok sizes (n + count_states xs) ys"
  by (induction xs arbitrary: n) (auto simp: ac_simps)

section \<open>One packet\<close>

abbreviation bo_sizes :: "'f vc4_dev \<Rightarrow> vc4_exec_info \<Rightarrow> u32 list" where
  "bo_sizes dev exec \<equiv> map (\<lambda>i. bo_size (handle_bo_map dev ! i)) (bo exec)"

lemma get_unaligned_32_at:
  assumes "drop k u = xs @ u32_bytes w @ ys" "k \<le> length u"
  shows "get_unaligned_32 u (k + length xs) = Some w"
proof -
  have "drop (k + length xs) u = u32_bytes w @ ys"
    using arg_cong [OF assms(1), of "drop (length xs)"] by (simp add: add.commute)
  moreover have "k + length xs + 4 \<le> length u"
    using arg_cong [OF assms(1), of length] assms(2) by simp
  ultimately show ?thesis by (simp add: get_unaligned_32_def load_bytes_def)
qed

lemma cmd_info_tab_entry:
  fixes g :: "'f validator option"
  assumes "(p, g) \<in> set cmd_info_entries"
  shows "cmd_info_tab (packet_code p) = Some \<lparr>info_len = packet_size p, info_name = p, info_func = g\<rparr>"
proof -
  let ?es = "cmd_info_entries :: (vc4_packet \<times> 'f validator option) list"
  have "map fst (map (\<lambda>(p, g). VC4_DEFINE_PACKET p g) ?es) = map packet_code (map fst ?es)"
    by (simp add: VC4_DEFINE_PACKET_def split_beta)
  moreover have "distinct (map packet_code (hw_packets @ [VC4_PACKET_GEM_HANDLES]))"
    by (simp add: hw_packets_def)
  ultimately have "distinct (map fst (map (\<lambda>(p, g). VC4_DEFINE_PACKET p g) ?es))"
    by (simp only: cmd_info_entries_packets)
  then show ?thesis
    using assms unfolding cmd_info_tab_def
    by (intro map_of_is_SomeI) (force simp: VC4_DEFINE_PACKET_def)+
qed

lemma tab_entry [simp]:
  "cmd_info_tab (packet_code VC4_PACKET_TILE_BINNING_MODE_CONFIG) =
     Some \<lparr>info_len = 16, info_name = VC4_PACKET_TILE_BINNING_MODE_CONFIG,
       info_func = Some validate_tile_binning_config\<rparr>"
  "cmd_info_tab (packet_code VC4_PACKET_NV_SHADER_STATE) =
     Some \<lparr>info_len = 5, info_name = VC4_PACKET_NV_SHADER_STATE,
       info_func = Some validate_nv_shader_state\<rparr>"
  "cmd_info_tab (packet_code VC4_PACKET_GL_ARRAY_PRIMITIVE) =
     Some \<lparr>info_len = 10, info_name = VC4_PACKET_GL_ARRAY_PRIMITIVE,
       info_func = Some validate_gl_array_primitive\<rparr>"
  "cmd_info_tab (packet_code VC4_PACKET_GEM_HANDLES) =
     Some \<lparr>info_len = 9, info_name = VC4_PACKET_GEM_HANDLES,
       info_func = Some validate_gem_handles\<rparr>"
  "cmd_info_tab (packet_code VC4_PACKET_GL_INDEXED_PRIMITIVE) =
     Some \<lparr>info_len = 14, info_name = VC4_PACKET_GL_INDEXED_PRIMITIVE,
       info_func = Some validate_indexed_prim_list\<rparr>"
  by (subst cmd_info_tab_entry; simp add: cmd_info_entries_def)+

lemma tab_plain:
  assumes "p \<in> set plain_packets"
  shows "cmd_info_tab (packet_code p) =
    Some \<lparr>info_len = packet_size p, info_name = p, info_func = None\<rparr>"
  by (rule cmd_info_tab_entry) (use assms in \<open>auto simp: plain_packets_def cmd_info_entries_def\<close>)

lemma plain_not_special:
  "p \<in> set plain_packets \<Longrightarrow> packet_code p \<noteq> 0"
  "p \<in> set plain_packets \<Longrightarrow> packet_code p \<noteq> 254"
  unfolding plain_packets_def by auto

lemma packet_code_in_array: "\<not> ARRAY_SIZE_cmd_info \<le> unat (packet_code p)"
  by (cases p) (simp_all add: ARRAY_SIZE_cmd_info_def)

lemma validate_packet_validator:
  "validate_packet dev u dst src cmd info exec v = Some x \<Longrightarrow> info_func info = Some g \<Longrightarrow>
     \<exists>v0. g dev exec v0 (dst + 1) u (src + 1) = Some x"
  "validate_packet dev u dst src cmd info exec v = Some (r, exec', v') \<Longrightarrow> info_func info = None \<Longrightarrow>
     r = Ok \<and> exec' = exec"
  by (auto simp: validate_packet_def Option.bind_eq_Some_conv)

text \<open>If the validator of the packet at the front agrees, the loop goes on behind it.\<close>

lemma bin_cl_accept_packet:
  fixes dev :: "'f vc4_dev" and info :: "'f cmd_info"
  assumes inv: "bin_cl_inv dev u len dst src exec v"
    and info: "cmd_info_tab (packet_code p) = Some info"
    and cmd: "u ! unat src = packet_code p" and "packet_code p \<noteq> 0"
    and fits: "unat src + unat (info_len info) \<le> unat len"
    and agree: "\<And>r exec1 v1. validate_packet dev u (unat dst) (unat src) (packet_code p) info exec v
        = Some (r, exec1, v1) \<Longrightarrow> r = Ok \<and> P exec1"
  obtains dst1 src1 exec1 v1 where
    "validate_bin_cl_loop dev u len dst src exec v = validate_bin_cl_loop dev u len dst1 src1 exec1 v1"
    "bin_cl_inv dev u len dst1 src1 exec1 v1" "unat src1 = unat src + unat (info_len info)"
    "P exec1" "same_setup exec exec1"
proof -
  note I = inv [unfolded bin_cl_inv_def]
  have n: "0 < unat (info_len info)" "unat (info_len info) \<le> 16"
    using info_len_bounds [OF info] by simp_all
  have src: "src < len" using fits n by (simp add: word_less_nat_alt)
  have src1: "unat (src + info_len info) = unat src + unat (info_len info)"
    using n fits I by (intro unat_add_small) simp
  then have le: "\<not> len < src + info_len info" using fits by (simp add: word_less_nat_alt)
  have load: "load8 u (unat src) = Some (packet_code p)"
    using src I cmd by (simp add: load8_def word_less_nat_alt)
  from bin_cl_packet [OF inv src info cmd [symmetric] le] obtain r exec1 v1 where
    pkt: "validate_packet dev u (unat dst) (unat src) (packet_code p) info exec v = Some (r, exec1, v1)"
    and su: "same_setup exec exec1"
    and inv1: "r = Ok \<Longrightarrow> bin_cl_inv dev u len
      (if packet_code p \<noteq> packet_code VC4_PACKET_GEM_HANDLES then dst + info_len info else dst)
      (src + info_len info) exec1 v1"
    by blast
  have r: "r = Ok" "P exec1" using agree [OF pkt] by auto
  show thesis
  proof (rule that [OF _ inv1 [OF r(1)] src1 r(2) su])
    show "validate_bin_cl_loop dev u len dst src exec v = validate_bin_cl_loop dev u len
      (if packet_code p \<noteq> packet_code VC4_PACKET_GEM_HANDLES then dst + info_len info else dst)
      (src + info_len info) exec1 v1"
      using src load info packet_code_in_array [of p] le pkt r(1) assms(4)
      by (subst validate_bin_cl_loop.simps) (simp add: Let_def)
  qed
qed

text \<open>When the validators agree, and what they do to the counter of shader states.\<close>

lemma tile_binning_agrees:
  "validate_tile_binning_config dev exec v val u untr = Some (r, exec', v') \<Longrightarrow>
     r = Ok \<and> shader_state_count exec' = shader_state_count exec"
  by (auto simp: validate_tile_binning_config_def Option.bind_eq_Some_conv Let_def)

lemma nv_shader_state_agrees:
  "validate_nv_shader_state dev exec v val u untr = Some (r, exec', v') \<Longrightarrow>
     shader_state_count exec < shader_state_size exec \<Longrightarrow>
     r = Ok \<and> shader_state_count exec' = shader_state_count exec + 1"
  by (auto simp: validate_nv_shader_state_def Option.bind_eq_Some_conv Let_def set_shader_state_def
      split: if_splits)

lemma gl_array_primitive_agrees:
  "validate_gl_array_primitive dev exec v val u untr = Some (r, exec', v') \<Longrightarrow>
     shader_state_count exec \<noteq> 0 \<Longrightarrow> get_unaligned_32 u (untr + 1) = Some len \<Longrightarrow>
     get_unaligned_32 u (untr + 5) = Some base \<Longrightarrow> len \<le> len + base \<Longrightarrow>
     r = Ok \<and> shader_state_count exec' = shader_state_count exec"
  by (auto simp: validate_gl_array_primitive_def Option.bind_eq_Some_conv Let_def
      set_shader_state_def split: if_splits)

lemma gem_handles_agrees:
  "validate_gem_handles dev exec v val u untr = Some (r, exec', v') \<Longrightarrow>
     get_unaligned_32 u untr = Some h0 \<Longrightarrow>
     r = Ok \<and> shader_state_count exec' = shader_state_count exec \<and> bo_index exec' ! 0 = h0"
  by (auto simp: validate_gem_handles_def Option.bind_eq_Some_conv)

lemma indexed_prim_agrees:
  assumes "validate_indexed_prim_list dev exec v val u untr = Some (r, exec', v')"
    and "job_ok dev exec" "shader_state_count exec \<noteq> 0" "load8 u untr = Some m"
    and "get_unaligned_32 u (untr + 1) = Some len" "get_unaligned_32 u (untr + 5) = Some off"
    and "bin_cmd_ok (bo_sizes dev exec) n (IndexedPrim (bo_index exec ! 0) h1 m len off mx)"
  shows "r = Ok \<and> shader_state_count exec' = shader_state_count exec"
proof -
  let ?h = "bo_index exec ! 0"
  let ?ib = "handle_bo_map dev ! (bo exec ! unat ?h)"
  have h: "unat ?h < length (bo exec)" "off \<le> bo_size ?ib"
    "len \<le> (bo_size ?ib - off) div (if drop_bit 4 m \<noteq> 0 then 2 else 1)"
    using assms(7) by auto
  have "\<not> bo_count exec \<le> ?h" using h(1) assms(2) by (simp add: job_ok_def word_le_nat_alt)
  then have use: "vc4_use_handle exec1 0 = Some (Some (bo exec ! unat ?h))"
    if "bo_index exec1 = bo_index exec" "bo exec1 = bo exec" "bo_count exec1 = bo_count exec" for exec1
    using that assms(2) h(1) by (simp add: vc4_use_handle_def vc4_use_bo_def job_ok_def)
  have "deref_bo dev (bo exec ! unat ?h) = Some ?ib"
    using assms(2) h(1) by (simp add: job_ok_def deref_bo_def)
  then show ?thesis
    using assms(1,3-6) h(2,3) use
    by (auto simp: validate_indexed_prim_list_def Option.bind_eq_Some_conv Let_def
        set_shader_state_def not_less [symmetric] split: if_splits)
qed

section \<open>One command\<close>

text \<open>The loop at a command of the class: it gets past it and has counted its shader states.\<close>

definition at_cmd :: "u8 list \<Rightarrow> u32 \<Rightarrow> u32 \<Rightarrow> u8 list \<Rightarrow> bool" where
  "at_cmd u len src bs \<longleftrightarrow>
     (\<exists>rest. drop (unat src) u = bs @ rest) \<and> unat src + length bs \<le> unat len"

lemma at_cmd_hd: "at_cmd u len src (b # bs) \<Longrightarrow> u ! unat src = b"
  using nth_via_drop by (fastforce simp: at_cmd_def)

lemma at_cmd_get:
  assumes "at_cmd u len src (xs @ u32_bytes w @ ys)"
  shows "get_unaligned_32 u (unat src + length xs) = Some w"
proof -
  obtain rest where *: "drop (unat src) u = xs @ u32_bytes w @ ys @ rest"
    using assms by (auto simp: at_cmd_def)
  then have "unat src \<le> length u" using length_u32_bytes [of w] by (cases "unat src \<le> length u") auto
  then show ?thesis using get_unaligned_32_at [OF *] by simp
qed

lemma at_cmd_load8:
  assumes "at_cmd u len src (xs @ b # ys)"
  shows "load8 u (unat src + length xs) = Some b"
proof -
  obtain rest where *: "drop (unat src) u = xs @ b # ys @ rest"
    using assms by (auto simp: at_cmd_def)
  have "drop (unat src + length xs) u = b # ys @ rest"
    using arg_cong [OF *, of "drop (length xs)"] by (simp add: add.commute)
  then show ?thesis
    using nth_via_drop [of "unat src + length xs" u b] by (cases "unat src + length xs < length u")
      (auto simp: load8_def)
qed

lemma at_cmd_skip:
  assumes "at_cmd u len src (xs @ ys)" "unat src1 = unat src + length xs"
  shows "at_cmd u len src1 ys"
proof -
  obtain rest where "drop (unat src) u = xs @ ys @ rest" using assms by (auto simp: at_cmd_def)
  from arg_cong [OF this, of "drop (length xs)"] show ?thesis
    using assms by (auto simp: at_cmd_def add.commute)
qed

definition gets_past ::
    "'f vc4_dev \<Rightarrow> u8 list \<Rightarrow> u32 \<Rightarrow> u32 \<Rightarrow> u32 \<Rightarrow> vc4_exec_info \<Rightarrow> u8 list \<Rightarrow> nat
      \<Rightarrow> (vc4_exec_info \<Rightarrow> bool) \<Rightarrow> bool" where
  "gets_past dev u len dst src exec v n P \<longleftrightarrow>
     (\<exists>dst1 src1 exec1 v1.
        validate_bin_cl_loop dev u len dst src exec v = validate_bin_cl_loop dev u len dst1 src1 exec1 v1 \<and>
        bin_cl_inv dev u len dst1 src1 exec1 v1 \<and> unat src1 = unat src + n \<and>
        P exec1 \<and> same_setup exec exec1)"

lemma gets_past_packet:
  fixes info :: "'f cmd_info" and dev :: "'f vc4_dev"
  assumes inv: "bin_cl_inv dev u len dst src exec v" and at: "at_cmd u len src (packet_code p # bs)"
    and info: "cmd_info_tab (packet_code p) = Some info" and "packet_code p \<noteq> 0"
    and n: "Suc (length bs) = unat (info_len info)"
    and agree: "\<And>r exec1 v1. validate_packet dev u (unat dst) (unat src) (packet_code p) info exec v
        = Some (r, exec1, v1) \<Longrightarrow> r = Ok \<and> P exec1"
  shows "gets_past dev u len dst src exec v (Suc (length bs)) P"
proof -
  have "unat src + unat (info_len info) \<le> unat len"
    using at n by (simp add: at_cmd_def)
  from inv info at_cmd_hd [OF at] assms(4) this show ?thesis
    unfolding gets_past_def n
    by (rule bin_cl_accept_packet [where P = P]) (blast dest: agree)+
qed

lemma gets_past_validator:
  fixes g :: "'f validator"
  assumes "bin_cl_inv dev u len dst src exec v" "at_cmd u len src (packet_code p # bs)"
    and "cmd_info_tab (packet_code p) = Some \<lparr>info_len = l, info_name = p, info_func = Some g\<rparr>"
    and "packet_code p \<noteq> 0" "Suc (length bs) = unat l"
    and "\<And>v0 r exec1 v1. g dev exec v0 (unat dst + 1) u (unat src + 1) = Some (r, exec1, v1) \<Longrightarrow>
        r = Ok \<and> P exec1"
  shows "gets_past dev u len dst src exec v (Suc (length bs)) P"
proof (rule gets_past_packet [OF assms(1-4)])
  fix r exec1 v1
  assume "validate_packet dev u (unat dst) (unat src) (packet_code p)
    \<lparr>info_len = l, info_name = p, info_func = Some g\<rparr> exec v = Some (r, exec1, v1)"
  from validate_packet_validator(1) [OF this] show "r = Ok \<and> P exec1" using assms(6) by auto
qed (simp add: assms(5))

lemma plain_gets_past:
  assumes "bin_cl_inv dev u len dst src exec v" "at_cmd u len src (packet_code p # bs)"
    and p: "p \<in> set plain_packets" and "Suc (length bs) = unat (packet_size p)"
  shows "gets_past dev u len dst src exec v (Suc (length bs))
    (\<lambda>e. shader_state_count e = shader_state_count exec)"
  by (rule gets_past_packet [OF assms(1,2) tab_plain [OF p] plain_not_special(1) [OF p]])
    (use assms(4) in \<open>auto dest: validate_packet_validator(2)\<close>)

lemma tile_binning_gets_past:
  assumes "bin_cl_inv dev u len dst src exec v" "length bs = 15"
    and "at_cmd u len src (packet_code VC4_PACKET_TILE_BINNING_MODE_CONFIG # bs)"
  shows "gets_past dev u len dst src exec v (Suc (length bs))
    (\<lambda>e. shader_state_count e = shader_state_count exec)"
  by (rule gets_past_validator [OF assms(1,3) tab_entry(1)])
    (use assms(2) in \<open>auto dest: tile_binning_agrees\<close>)

lemma nv_state_gets_past:
  assumes "bin_cl_inv dev u len dst src exec v" "shader_state_count exec < shader_state_size exec"
    and "at_cmd u len src (packet_code VC4_PACKET_NV_SHADER_STATE # u32_bytes a)"
  shows "gets_past dev u len dst src exec v (Suc (length (u32_bytes a)))
    (\<lambda>e. shader_state_count e = shader_state_count exec + 1)"
  by (rule gets_past_validator [OF assms(1,3) tab_entry(2)])
    (use assms(2) in \<open>auto dest: nv_shader_state_agrees\<close>)

lemma array_prim_gets_past:
  assumes "bin_cl_inv dev u len dst src exec v" "shader_state_count exec \<noteq> 0" "n \<le> n + base"
    and at: "at_cmd u len src (packet_code VC4_PACKET_GL_ARRAY_PRIMITIVE # m # u32_bytes n @ u32_bytes base)"
  shows "gets_past dev u len dst src exec v (Suc (length (m # u32_bytes n @ u32_bytes base)))
    (\<lambda>e. shader_state_count e = shader_state_count exec)"
proof (rule gets_past_validator [OF assms(1) at tab_entry(3)])
  fix v0 r exec1 v1
  assume "validate_gl_array_primitive dev exec v0 (unat dst + 1) u (unat src + 1) = Some (r, exec1, v1)"
  from gl_array_primitive_agrees [OF this assms(2) _ _ assms(3)]
  show "r = Ok \<and> shader_state_count exec1 = shader_state_count exec"
    using at_cmd_get [of u len src "[packet_code VC4_PACKET_GL_ARRAY_PRIMITIVE, m]" n "u32_bytes base"]
      at_cmd_get [of u len src "packet_code VC4_PACKET_GL_ARRAY_PRIMITIVE # m # u32_bytes n" base "[]"] at
    by (simp add: add.commute)
qed simp_all

lemma gem_handles_gets_past:
  assumes "bin_cl_inv dev u len dst src exec v"
    and at: "at_cmd u len src (packet_code VC4_PACKET_GEM_HANDLES # u32_bytes h0 @ u32_bytes h1)"
  shows "gets_past dev u len dst src exec v (Suc (length (u32_bytes h0 @ u32_bytes h1)))
    (\<lambda>e. shader_state_count e = shader_state_count exec \<and> bo_index e ! 0 = h0)"
proof (rule gets_past_validator [OF assms(1) at tab_entry(4)])
  fix v0 r exec1 v1
  assume "validate_gem_handles dev exec v0 (unat dst + 1) u (unat src + 1) = Some (r, exec1, v1)"
  from gem_handles_agrees [OF this]
  show "r = Ok \<and> shader_state_count exec1 = shader_state_count exec \<and> bo_index exec1 ! 0 = h0"
    using at_cmd_get [of u len src "[packet_code VC4_PACKET_GEM_HANDLES]" h0 "u32_bytes h1"] at by simp
qed simp_all

lemma indexed_prim_gets_past:
  assumes inv: "bin_cl_inv dev u len dst src exec v" and "shader_state_count exec \<noteq> 0"
    and ok: "bin_cmd_ok (bo_sizes dev exec) k (IndexedPrim (bo_index exec ! 0) h1 m n off mx)"
    and at: "at_cmd u len src
      (packet_code VC4_PACKET_GL_INDEXED_PRIMITIVE # m # u32_bytes n @ u32_bytes off @ u32_bytes mx)"
  shows "gets_past dev u len dst src exec v (Suc (length (m # u32_bytes n @ u32_bytes off @ u32_bytes mx)))
    (\<lambda>e. shader_state_count e = shader_state_count exec)"
proof (rule gets_past_validator [OF inv at tab_entry(5)])
  let ?c = "packet_code VC4_PACKET_GL_INDEXED_PRIMITIVE"
  have job: "job_ok dev exec" using inv by (simp add: bin_cl_inv_def)
  have "load8 u (unat src + 1) = Some m" "get_unaligned_32 u (unat src + 1 + 1) = Some n"
    "get_unaligned_32 u (unat src + 1 + 5) = Some off"
    using at_cmd_load8 [of u len src "[?c]" m] at_cmd_get [of u len src "[?c, m]" n]
      at_cmd_get [of u len src "?c # m # u32_bytes n" off] at
    by (simp_all add: add.commute)
  then show "r = Ok \<and> shader_state_count exec1 = shader_state_count exec"
    if "validate_indexed_prim_list dev exec v0 (unat dst + 1) u (unat src + 1) = Some (r, exec1, v1)"
    for v0 r exec1 v1
    using indexed_prim_agrees [OF that job assms(2) _ _ _ ok] by blast
qed simp_all

lemma gets_past_mono:
  "gets_past dev u len dst src exec v n P \<Longrightarrow> (\<And>e. P e \<Longrightarrow> Q e) \<Longrightarrow>
     gets_past dev u len dst src exec v n Q"
  unfolding gets_past_def by blast

lemma gets_past_trans:
  assumes "gets_past dev u len dst src exec v n P"
    and "\<And>dst1 src1 exec1 v1. bin_cl_inv dev u len dst1 src1 exec1 v1 \<Longrightarrow> unat src1 = unat src + n \<Longrightarrow>
      P exec1 \<Longrightarrow> same_setup exec exec1 \<Longrightarrow> gets_past dev u len dst1 src1 exec1 v1 k Q"
  shows "gets_past dev u len dst src exec v (n + k) Q"
proof -
  obtain dst1 src1 exec1 v1 where
    1: "validate_bin_cl_loop dev u len dst src exec v = validate_bin_cl_loop dev u len dst1 src1 exec1 v1"
      "unat src1 = unat src + n" "same_setup exec exec1"
    and inv: "bin_cl_inv dev u len dst1 src1 exec1 v1" and P: "P exec1"
    using assms(1) unfolding gets_past_def by blast
  show ?thesis
    using assms(2) [OF inv 1(2) P 1(3)] 1 same_setup_trans unfolding gets_past_def
    by (metis add.assoc)
qed

lemma same_setup_bo_sizes: "same_setup exec exec1 \<Longrightarrow> bo_sizes dev exec1 = bo_sizes dev exec"
  by (simp add: same_setup_def)

lemma indexed_draw_gets_past:
  assumes inv: "bin_cl_inv dev u len dst src exec v" and "shader_state_count exec \<noteq> 0"
    and ok: "bin_cmd_ok (bo_sizes dev exec) k (IndexedPrim h0 h1 m n off mx)"
    and at: "at_cmd u len src (bin_cmd_bytes (IndexedPrim h0 h1 m n off mx))"
  shows "gets_past dev u len dst src exec v (length (bin_cmd_bytes (IndexedPrim h0 h1 m n off mx)))
    (\<lambda>e. shader_state_count e = shader_state_count exec)"
proof -
  let ?xs = "packet_code VC4_PACKET_GEM_HANDLES # u32_bytes h0 @ u32_bytes h1"
  let ?ys = "packet_code VC4_PACKET_GL_INDEXED_PRIMITIVE # m # u32_bytes n @ u32_bytes off @ u32_bytes mx"
  have at: "at_cmd u len src (?xs @ ?ys)" using at by simp
  then have "at_cmd u len src ?xs" by (auto simp: at_cmd_def)
  from gem_handles_gets_past [OF inv this] have "gets_past dev u len dst src exec v (length ?xs)
      (\<lambda>e. shader_state_count e = shader_state_count exec \<and> bo_index e ! 0 = h0)"
    by simp
  then have "gets_past dev u len dst src exec v (length ?xs + length ?ys)
       (\<lambda>e. shader_state_count e = shader_state_count exec)"
  proof (rule gets_past_trans)
    fix dst1 src1 exec1 v1
    assume 1: "bin_cl_inv dev u len dst1 src1 exec1 v1" "unat src1 = unat src + length ?xs"
      "shader_state_count exec1 = shader_state_count exec \<and> bo_index exec1 ! 0 = h0"
      "same_setup exec exec1"
    have "bo_sizes dev exec1 = bo_sizes dev exec" by (rule same_setup_bo_sizes [OF 1(4)])
    then have "bin_cmd_ok (bo_sizes dev exec1) k (IndexedPrim (bo_index exec1 ! 0) h1 m n off mx)"
      using ok 1(3) by (simp only:)
    then have "gets_past dev u len dst1 src1 exec1 v1
        (Suc (length (m # u32_bytes n @ u32_bytes off @ u32_bytes mx)))
        (\<lambda>e. shader_state_count e = shader_state_count exec1)"
      by (rule indexed_prim_gets_past [OF 1(1) _ _ at_cmd_skip [OF at 1(2)], rotated])
        (use 1(3) assms(2) in simp)
    then show "gets_past dev u len dst1 src1 exec1 v1 (length ?ys)
      (\<lambda>e. shader_state_count e = shader_state_count exec)"
      using 1(3) by simp
  qed
  then show ?thesis by simp
qed

lemma cmd_gets_past:
  assumes inv: "bin_cl_inv dev u len dst src exec v" and at: "at_cmd u len src (bin_cmd_bytes c)"
    and ok: "bin_cmd_ok (bo_sizes dev exec) (unat (shader_state_count exec)) c"
    and room: "unat (shader_state_count exec) + shader_states c \<le> unat (shader_state_size exec)"
  shows "gets_past dev u len dst src exec v (length (bin_cmd_bytes c))
    (\<lambda>e. unat (shader_state_count e) = unat (shader_state_count exec) + shader_states c)"
proof (cases c)
  case (Plain p bs)
  then show ?thesis
    using gets_past_mono [OF plain_gets_past [OF inv, of p bs]] at ok by auto
next
  case (TileBinning bs)
  then show ?thesis
    using gets_past_mono [OF tile_binning_gets_past [OF inv, of bs]] at ok by auto
next
  case (NvState a)
  have lt: "shader_state_count exec < shader_state_size exec"
    using room NvState by (simp add: word_less_nat_alt)
  then show ?thesis
    using gets_past_mono [OF nv_state_gets_past [OF inv lt, of a]] at NvState unat_inc [OF lt] by auto
next
  case (ArrayPrim m n base)
  have nz: "shader_state_count exec \<noteq> 0" using ok ArrayPrim by (auto simp: unat_eq_zero)
  then show ?thesis
    using gets_past_mono [OF array_prim_gets_past [OF inv nz, of n base m]] at ok ArrayPrim by auto
next
  case (IndexedPrim h0 h1 m n off mx)
  have nz: "shader_state_count exec \<noteq> 0" using ok IndexedPrim by (auto simp: unat_eq_zero)
  have "gets_past dev u len dst src exec v (length (bin_cmd_bytes c))
    (\<lambda>e. shader_state_count e = shader_state_count exec)"
    unfolding IndexedPrim
    by (rule indexed_draw_gets_past [OF inv nz]) (use ok at IndexedPrim in \<open>simp_all only:\<close>)
  from gets_past_mono [OF this] show ?thesis using IndexedPrim by simp
qed

section \<open>Whole lists\<close>

lemma bin_cmds_loop_accepts:
  assumes "bin_cl_inv dev u len dst src exec v" "at_cmd u len src (bin_cmds_bytes cs)"
    and "unat src + length (bin_cmds_bytes cs) = unat len"
    and "bin_cmds_ok (bo_sizes dev exec) (unat (shader_state_count exec)) cs"
    and "unat (shader_state_count exec) + count_states cs \<le> unat (shader_state_size exec)"
  shows "returns (validate_bin_cl_loop dev u len dst src exec v) (\<lambda>(r, dst', exec', v').
    r = Ok \<and> unat (shader_state_count exec') = unat (shader_state_count exec) + count_states cs)"
  using assms
proof (induction cs arbitrary: dst src exec v)
  case Nil
  then show ?case by (simp add: validate_bin_cl_loop.simps [of _ _ _ _ src] word_less_nat_alt)
next
  case (Cons c cs)
  have at: "at_cmd u len src (bin_cmd_bytes c @ bin_cmds_bytes cs)" using Cons.prems(2) by simp
  then have "at_cmd u len src (bin_cmd_bytes c)" by (auto simp: at_cmd_def)
  from cmd_gets_past [OF Cons.prems(1) this] Cons.prems(4,5)
  obtain dst1 src1 exec1 v1 where
    1: "validate_bin_cl_loop dev u len dst src exec v = validate_bin_cl_loop dev u len dst1 src1 exec1 v1"
      "unat (shader_state_count exec1) = unat (shader_state_count exec) + shader_states c"
    and inv: "bin_cl_inv dev u len dst1 src1 exec1 v1"
    and src: "unat src1 = unat src + length (bin_cmd_bytes c)" and su: "same_setup exec exec1"
    unfolding gets_past_def by auto
  have "returns (validate_bin_cl_loop dev u len dst1 src1 exec1 v1) (\<lambda>(r, dst', exec', v').
    r = Ok \<and> unat (shader_state_count exec') = unat (shader_state_count exec1) + count_states cs)"
    by (rule Cons.IH [OF inv at_cmd_skip [OF at src]])
      (use Cons.prems(3-5) src su 1(2) in \<open>simp_all add: same_setup_def\<close>)
  then show ?case unfolding 1(1) by (rule returns_mono) (use 1(2) in auto)
qed

lemma bin_cmds_accepted:
  assumes "job_ok dev exec" "shader_state_count exec = 0"
    and "bin_cmds_ok (bo_sizes dev exec) 0 cs" "count_states cs \<le> unat (shader_state_size exec)"
    and "unat (bin_cl_size (args exec)) = length (bin_cmds_bytes cs)"
    and "length (bin_cmds_bytes cs) + 16 \<le> 2 ^ 32" "length (bin_cmds_bytes cs) \<le> length v"
  shows "returns (vc4_validate_bin_cl dev v (bin_cmds_bytes cs @ rest) exec) (\<lambda>(r, exec', v').
    r = Ok \<and> unat (shader_state_count exec') = count_states cs)"
proof -
  let ?u = "bin_cmds_bytes cs @ rest" and ?len = "bin_cl_size (args exec)"
  have "bin_cl_inv dev ?u ?len 0 0 exec v" using assms by (simp add: bin_cl_inv_def hw_list_Nil)
  moreover have "at_cmd ?u ?len 0 (bin_cmds_bytes cs)" using assms(5) by (simp add: at_cmd_def)
  ultimately have "returns (validate_bin_cl_loop dev ?u ?len 0 0 exec v) (\<lambda>(r, dst', exec', v').
    r = Ok \<and> unat (shader_state_count exec') = unat (shader_state_count exec) + count_states cs)"
    by (rule bin_cmds_loop_accepts) (use assms in simp_all)
  then show ?thesis
    unfolding vc4_validate_bin_cl_def returns_simps
    by (rule returns_mono) (use assms(2) in auto)
qed

text \<open>C36. The validator is complete for lists of well-formed commands: if every draw comes after a
  shader state, the counts do not overflow, indexed draws stay inside a buffer of the job and
  there are no more shader states than the job declared, the list is accepted, whatever
  follows it in the buffer, and all its shader states are counted.\<close>

theorem vc4_validate_bin_cl_complete:
  assumes "job_ok dev exec" "shader_state_count exec = 0"
    and "bin_cmds_ok (bo_sizes dev exec) 0 cs" "count_states cs \<le> unat (shader_state_size exec)"
    and "unat (bin_cl_size (args exec)) = length (bin_cmds_bytes cs)"
    and "length (bin_cmds_bytes cs) + 16 \<le> 2 ^ 32" "length (bin_cmds_bytes cs) \<le> length v"
  shows "returns (vc4_validate_bin_cl dev v (bin_cmds_bytes cs @ rest) exec) (\<lambda>(r, exec', v').
    r = Ok \<and> unat (shader_state_count exec') = count_states cs)"
  by (rule bin_cmds_accepted [OF assms])

text \<open>The sample job, command by command.\<close>

definition sample_cmds :: "bin_cmd list" where
  "sample_cmds =
     [TileBinning (replicate 12 0 @ [4, 4, 0]), Plain VC4_PACKET_START_TILE_BINNING [], NvState 0,
      IndexedPrim 0 0 0x14 3 16 2, Plain VC4_PACKET_FLUSH []]"

theorem vc4_validate_bin_cl_complete_witness:
  "returns (vc4_validate_bin_cl sample_dev (replicate 76 0) (bin_cmds_bytes sample_cmds @ [0]) sample_exec)
    (\<lambda>(r, exec', v'). r = Ok \<and> unat (shader_state_count exec') = 1)"
proof -
  have "bin_cmds_ok (bo_sizes sample_dev sample_exec) 0 sample_cmds" by code_simp
  moreover have "count_states sample_cmds = 1" "length (bin_cmds_bytes sample_cmds) = 46"
    "bin_cl_size (args sample_exec) = 46" "shader_state_count sample_exec = 0"
    "shader_state_size sample_exec = 1"
    by code_simp+
  ultimately show ?thesis
    using vc4_validate_bin_cl_complete [OF sample_job_ok, of sample_cmds "replicate 76 0" "[0]"] by simp
qed

end
