(* ===== verification/Gl_Safe.thy ===== *)
theory Gl_Safe
  imports Gl_Vc4 Vc4_Accept
begin

text \<open>
  The graphics library keeps its promises to the kernel. For every sequence of calls of the
  driver's interface, its command lists are written inside the memory reserved for them, its
  buffer objects are released neither too early nor twice, and the binner list of every job it
  submits is accepted by the kernel's validator (theory \<open>Vc4_Accept\<close>).

  \<open>gl_ok\<close> is the invariant. Its parameters count: \<open>N\<close> bounds the bytes in each list, \<open>M\<close> the
  size of its buffer, and \<open>rb\<close>, \<open>rs\<close>, \<open>rh\<close> the free room in the binner list, the shader records and the
  two handle lists; a draw first makes room and then uses it up.
\<close>

unbundle bit_operations_syntax

section \<open>Lists with room\<close>

definition cl_fit :: "nat \<Rightarrow> nat \<Rightarrow> nat \<Rightarrow> vc4_cl \<Rightarrow> bool" where
  "cl_fit N M r cl \<longleftrightarrow>
     length (cl_buf cl) = unat (cl_size cl) \<and> unat (cl_size cl) \<le> M \<and> cl_next cl \<le> N \<and>
     cl_next cl + r \<le> length (cl_buf cl)"

lemma cl_fit_mono: "cl_fit N M r cl \<Longrightarrow> N \<le> N' \<Longrightarrow> M \<le> M' \<Longrightarrow> r' \<le> r \<Longrightarrow> cl_fit N' M' r' cl"
  by (auto simp: cl_fit_def)

lemma cl_contents_length: "cl_fit N M r cl \<Longrightarrow> length (cl_contents cl) = cl_next cl"
  by (simp add: cl_fit_def cl_contents_def)

lemma cl_offset_fit: "cl_fit N M r cl \<Longrightarrow> N < 2 ^ 32 \<Longrightarrow> unat (cl_offset cl) = cl_next cl"
  by (simp add: cl_fit_def cl_offset_def unat_of_nat_u32)

lemma cl_emit_fit:
  assumes "cl_fit N M r cl" "length bs \<le> r"
  shows "returns (cl_emit bs cl) (\<lambda>cl'. cl_fit (N + length bs) M (r - length bs) cl' \<and>
    cl_contents cl' = cl_contents cl @ bs)"
proof -
  have "cl_next cl + length bs \<le> length (cl_buf cl)" using assms by (simp add: cl_fit_def)
  then show ?thesis using assms by (simp add: cl_emit_def cl_fit_def cl_contents_def min_absorb2)
qed

lemma reset_fit: "cl_fit N M r cl \<Longrightarrow> cl_fit 0 M 0 (vc4_reset_cl cl)"
  by (auto simp: cl_fit_def vc4_reset_cl_def)

lemma reset_contents [simp]: "cl_contents (vc4_reset_cl cl) = []"
  by (simp add: cl_contents_def vc4_reset_cl_def)

text \<open>\<open>mem_ok\<close>: memory for a list can be had. Buffers at most double, and only when the list has
  outgrown them, which bounds them by twice the bytes ever in the list.\<close>

definition mem_ok :: "(u32 \<Rightarrow> u8 list option) \<Rightarrow> bool" where
  "mem_ok mem \<longleftrightarrow> (\<forall>n. case mem n of None \<Rightarrow> False | Some b \<Rightarrow> length b = unat n)"

lemma cl_ensure_space_fit:
  assumes fit: "cl_fit N M r cl" and mem: "mem_ok mem" and le: "2 * N + 2 * unat space \<le> M" "M < 2 ^ 30"
  shows "returns (cl_ensure_space mem cl space)
    (\<lambda>cl'. cl_fit N M (unat space) cl' \<and> cl_contents cl' = cl_contents cl)"
proof -
  note F = fit [unfolded cl_fit_def]
  have off: "unat (cl_offset cl) = cl_next cl" using F le by (intro cl_offset_fit [OF fit]) simp
  have sum: "unat (cl_offset cl + space) = cl_next cl + unat space"
    using F le unfolding off [symmetric] by (intro unat_add_small) simp
  show ?thesis
  proof (cases "cl_offset cl + space \<le> cl_size cl")
    case True
    then show ?thesis using F sum by (simp add: cl_ensure_space_def word_le_nat_alt cl_fit_def)
  next
    case False
    then have lt: "unat (cl_size cl) < cl_next cl + unat space" using sum by (simp add: word_le_nat_alt)
    define sz where "sz = (if cl_size cl + space < cl_size cl * 2 then cl_size cl * 2 else cl_size cl + space)"
    have "unat (cl_size cl + space) = unat (cl_size cl) + unat space"
      using F le by (intro unat_add_small) simp
    moreover have "unat (cl_size cl * 2) = unat (cl_size cl) * 2"
      using F le by (subst unat_mult_lem [THEN iffD1]) simp_all
    ultimately have sz: "unat (cl_size cl) + unat space \<le> unat sz" "unat sz \<le> M"
      using F le lt by (auto simp: sz_def word_less_nat_alt)
    obtain b where b: "mem sz = Some b" "length b = unat sz"
      using mem by (auto simp: mem_ok_def split: option.splits)
    have eq: "cl_ensure_space mem cl space = do {
        b \<leftarrow> (if cl_buf cl \<noteq> [] then memcpy b 0 (cl_buf cl) 0 (unat (cl_size cl)) else Some b);
        Some (cl\<lparr>cl_buf := b, cl_size := sz\<rparr>) }"
      using False b by (simp add: cl_ensure_space_def Let_def sz_def)
    show ?thesis
    proof (cases "cl_buf cl = []")
      case True
      then show ?thesis using eq b sz F by (simp add: cl_fit_def cl_contents_def)
    next
      case False
      have "returns (memcpy b 0 (cl_buf cl) 0 (unat (cl_size cl))) (\<lambda>b'. length b' = unat sz \<and>
          take (unat (cl_size cl)) b' = cl_buf cl)"
        using F sz b by (auto simp: memcpy_eq_Some returns_def memcpy_def load_bytes_def store_bytes_def)
      then obtain b' where b': "memcpy b 0 (cl_buf cl) 0 (unat (cl_size cl)) = Some b'"
        "length b' = unat sz" "take (unat (cl_size cl)) b' = cl_buf cl"
        by (rule returnsE) blast
      have "cl_next cl \<le> unat (cl_size cl)" using F by simp
      then have "take (cl_next cl) b' = take (cl_next cl) (cl_buf cl)"
        unfolding b'(3) [symmetric] by (simp add: min_absorb1)
      then show ?thesis using eq False b' F sz
        by (simp add: cl_fit_def cl_contents_def)
    qed
  qed
qed

section \<open>Words in a list\<close>

primrec words :: "u32 list \<Rightarrow> u8 list" where
  "words [] = []"
| "words (w # ws) = u32_bytes w @ words ws"

lemma words_append [simp]: "words (xs @ ys) = words xs @ words ys"
  by (induction xs) auto

lemma length_words [simp]: "length (words ws) = 4 * length ws"
  by (induction ws) auto

lemma get_word:
  assumes "take (4 * length ws) m = words ws" "i < length ws"
  shows "get_unaligned_32 m (4 * i) = Some (ws ! i)"
proof -
  have len: "4 * length ws \<le> length m" using arg_cong [OF assms(1), of length] by simp
  have "ws = take i ws @ ws ! i # drop (Suc i) ws" using assms(2) by (simp add: id_take_nth_drop)
  then have "words ws = words (take i ws) @ u32_bytes (ws ! i) @ words (drop (Suc i) ws)"
    by (metis words.simps(2) words_append)
  then have "drop (4 * i) (take (4 * length ws) m) = u32_bytes (ws ! i) @ words (drop (Suc i) ws)"
    using assms by simp
  then have "take 4 (drop (4 * i) (take (4 * length ws) m)) = u32_bytes (ws ! i)" by simp
  moreover have "take 4 (drop (4 * i) (take (4 * length ws) m)) = take 4 (drop (4 * i) m)"
    using assms(2) by (simp add: drop_take min_def)
  ultimately show ?thesis using len assms(2) by (simp add: get_unaligned_32_def load_bytes_def)
qed

lemma find_hindex_words:
  assumes "take (4 * length hs) m = words hs" "i \<le> length hs"
  shows "returns (find_hindex m h i (length hs - i)) (\<lambda>j. j \<le> length hs \<and>
    (j = length hs \<longrightarrow> h \<notin> set (drop i hs)))"
  using assms(2)
proof (induction "length hs - i" arbitrary: i)
  case 0
  then show ?case by simp
next
  case (Suc n)
  then have i: "i < length hs" and n: "n = length hs - Suc i" by simp_all
  have "drop i hs = hs ! i # drop (Suc i) hs" using i by (simp add: Cons_nth_drop_Suc)
  moreover have "returns (find_hindex m h (Suc i) n) (\<lambda>j. j \<le> length hs \<and>
    (j = length hs \<longrightarrow> h \<notin> set (drop (Suc i) hs)))"
    unfolding n using Suc.hyps(1) [OF n] i by simp
  ultimately show ?case
    unfolding Suc.hyps(2) [symmetric] find_hindex.simps returns_simps get_word [OF assms(1) i]
    using i by (auto elim!: returns_mono)
qed

section \<open>Buffer objects and their references\<close>

text \<open>
  \<open>ps\<close> are the buffer objects of the job being built, \<open>own\<close> those somebody outside the job holds a
  reference to: the shader, its uniforms, and the resources the application has not destroyed.
  Every buffer object has one reference from its owner and one from the job; the index buffer
  of a draw may have lost its owner already.
\<close>

definition bo_ref_ok :: "u32 list \<Rightarrow> u32 set \<Rightarrow> u32 \<Rightarrow> user_bo \<Rightarrow> bool" where
  "bo_ref_ok ps own p b \<longleftrightarrow> p \<noteq> 0 \<and>
     (if p \<in> set ps then ub_ref b = 2 \<or> ub_ref b = 1 \<and> p \<notin> own else ub_ref b = 1)"

definition heap_ok :: "u32 list \<Rightarrow> u32 set \<Rightarrow> (u32 \<rightharpoonup> user_bo) \<Rightarrow> bool" where
  "heap_ok ps own h \<longleftrightarrow>
     distinct ps \<and> set ps \<subseteq> dom h \<and> own \<subseteq> dom h \<and> (\<forall>p b. h p = Some b \<longrightarrow> bo_ref_ok ps own p b)"

definition hs_fit :: "nat \<Rightarrow> nat \<Rightarrow> nat \<Rightarrow> 'r vc4_context \<Rightarrow> bool" where
  "hs_fit N M r vc4 \<longleftrightarrow> cl_fit N M r (vc_bo_handles vc4) \<and> cl_fit N M r (vc_bo_pointers vc4)"

definition bos_ok :: "u32 list \<Rightarrow> u32 set \<Rightarrow> 'r vc4_context \<Rightarrow> bool" where
  "bos_ok ps own vc4 \<longleftrightarrow>
     heap_ok ps own (vc_bos vc4) \<and> cl_contents (vc_bo_pointers vc4) = words ps \<and>
     cl_contents (vc_bo_handles vc4) = words (map (\<lambda>p. ub_handle (the (vc_bos vc4 p))) ps)"

text \<open>Steps that only count references and add to the handle lists.\<close>

definition refs_only :: "(u32 \<rightharpoonup> user_bo) \<Rightarrow> (u32 \<rightharpoonup> user_bo) \<Rightarrow> bool" where
  "refs_only h h' \<longleftrightarrow> dom h' = dom h \<and> (\<forall>p b. h p = Some b \<longrightarrow> (\<exists>r. h' p = Some (b\<lparr>ub_ref := r\<rparr>)))"

definition sans_bos :: "'r vc4_context \<Rightarrow> 'r vc4_context" where
  "sans_bos vc4 = vc4\<lparr>vc_bo_handles := vc4_init_cl, vc_bo_pointers := vc4_init_cl, vc_bos := Map.empty\<rparr>"

definition same_but_bos :: "'r vc4_context \<Rightarrow> 'r vc4_context \<Rightarrow> bool" where
  "same_but_bos vc4 vc4' \<longleftrightarrow> refs_only (vc_bos vc4) (vc_bos vc4') \<and> sans_bos vc4' = sans_bos vc4"

lemma refs_only_refl [simp]: "refs_only h h"
  unfolding refs_only_def
proof (intro conjI allI impI refl)
  fix p b assume "h p = Some b"
  then show "\<exists>r. h p = Some (b\<lparr>ub_ref := r\<rparr>)" by (intro exI [of _ "ub_ref b"]) simp
qed

lemma refs_only_trans:
  assumes "refs_only h1 h2" "refs_only h2 h3"
  shows "refs_only h1 h3"
  unfolding refs_only_def
proof (intro conjI allI impI)
  show "dom h3 = dom h1" using assms by (simp add: refs_only_def)
  fix p b assume "h1 p = Some b"
  then obtain r where "h2 p = Some (b\<lparr>ub_ref := r\<rparr>)" using assms(1) unfolding refs_only_def by blast
  then obtain r' where "h3 p = Some (b\<lparr>ub_ref := r, ub_ref := r'\<rparr>)"
    using assms(2) unfolding refs_only_def by blast
  then show "\<exists>r. h3 p = Some (b\<lparr>ub_ref := r\<rparr>)" by auto
qed

lemma same_but_bos_refl [simp]: "same_but_bos vc4 vc4"
  by (simp add: same_but_bos_def)

lemma same_but_bos_trans: "same_but_bos a b \<Longrightarrow> same_but_bos b c \<Longrightarrow> same_but_bos a c"
  unfolding same_but_bos_def by (metis refs_only_trans)

lemma same_but_bos_fields:
  assumes "same_but_bos vc4 vc4'"
  shows "vc_bcl vc4' = vc_bcl vc4" "vc_shader_rec vc4' = vc_shader_rec vc4"
    "vc_shader_rec_count vc4' = vc_shader_rec_count vc4" "vc_dirty vc4' = vc_dirty vc4"
    "vc_needs_flush vc4' = vc_needs_flush vc4" "vc_tile_width vc4' = vc_tile_width vc4"
    "vc_tile_height vc4' = vc_tile_height vc4" "vc_calls vc4' = vc_calls vc4"
    "vc_prog_fs vc4' = vc_prog_fs vc4" "vc_uniforms vc4' = vc_uniforms vc4"
    "vc_vertexbuf vc4' = vc_vertexbuf vc4" "vc_framebuffer vc4' = vc_framebuffer vc4"
    "vc_zsa vc4' = vc_zsa vc4" "vc_color_read vc4' = vc_color_read vc4"
    "vc_color_write vc4' = vc_color_write vc4" "vc_zs_read vc4' = vc_zs_read vc4"
    "vc_zs_write vc4' = vc_zs_write vc4" "vc_draw_min_x vc4' = vc_draw_min_x vc4"
    "vc_draw_min_y vc4' = vc_draw_min_y vc4" "vc_resolve vc4' = vc_resolve vc4"
    "vc_max_index vc4' = vc_max_index vc4"
  using assms by (cases vc4; cases vc4'; simp add: same_but_bos_def sans_bos_def)+

lemma hs_fit_mono: "hs_fit N M r vc4 \<Longrightarrow> N \<le> N' \<Longrightarrow> M \<le> M' \<Longrightarrow> r' \<le> r \<Longrightarrow> hs_fit N' M' r' vc4"
  unfolding hs_fit_def by (auto intro: cl_fit_mono)

lemma bos_ok_count:
  assumes "bos_ok ps own vc4" "hs_fit N M r vc4" "N < 2 ^ 32"
  shows "unat (cl_offset (vc_bo_handles vc4) div 4) = length ps"
    "take (4 * length ps) (cl_buf (vc_bo_handles vc4)) = words (map (\<lambda>p. ub_handle (the (vc_bos vc4 p))) ps)"
    "take (4 * length ps) (cl_buf (vc_bo_pointers vc4)) = words ps"
proof -
  have "cl_next (vc_bo_handles vc4) = 4 * length ps" "cl_next (vc_bo_pointers vc4) = 4 * length ps"
    using assms(1,2) cl_contents_length [of N M r "vc_bo_handles vc4"]
      cl_contents_length [of N M r "vc_bo_pointers vc4"]
    by (simp_all add: bos_ok_def hs_fit_def)
  then show "unat (cl_offset (vc_bo_handles vc4) div 4) = length ps"
    "take (4 * length ps) (cl_buf (vc_bo_handles vc4)) = words (map (\<lambda>p. ub_handle (the (vc_bos vc4 p))) ps)"
    "take (4 * length ps) (cl_buf (vc_bo_pointers vc4)) = words ps"
    using assms cl_offset_fit [of N M r "vc_bo_handles vc4"]
    by (auto simp: bos_ok_def hs_fit_def unat_div cl_contents_def)
qed

lemma heap_ok_reference:
  assumes "heap_ok ps own h" "h p = Some b" "p \<notin> set ps"
  shows "heap_ok (ps @ [p]) own (h(p \<mapsto> b\<lparr>ub_ref := ub_ref b + 1\<rparr>))"
proof -
  have "p \<noteq> 0" "ub_ref b = 1" using assms by (auto simp: heap_ok_def bo_ref_ok_def)
  then show ?thesis using assms by (auto simp: heap_ok_def bo_ref_ok_def)
qed

lemma vc4_gem_hindex_ok:
  assumes ok: "bos_ok ps own vc4" and fit: "hs_fit N M r vc4" and N: "N < 2 ^ 32" and "4 \<le> r"
    and p: "p \<in> dom (vc_bos vc4)"
  shows "returns (vc4_gem_hindex p vc4) (\<lambda>(h, vc4'). \<exists>ps'.
    bos_ok ps' own vc4' \<and> hs_fit (N + 4) M (r - 4) vc4' \<and> same_but_bos vc4 vc4' \<and>
    unat h < length ps' \<and> length ps \<le> length ps')"
proof -
  obtain b where b: "vc_bos vc4 p = Some b" using p by blast
  let ?hs = "map (\<lambda>p. ub_handle (the (vc_bos vc4 p))) ps"
  note count = bos_ok_count [OF ok fit N]
  have small: "4 * length ps \<le> N"
    using ok fit cl_contents_length [of N M r "vc_bo_pointers vc4"]
    by (simp add: bos_ok_def hs_fit_def cl_fit_def)
  obtain j where j: "find_hindex (cl_buf (vc_bo_handles vc4)) (ub_handle b) 0 (length ps) = Some j"
    "j \<le> length ps" "j = length ps \<Longrightarrow> ub_handle b \<notin> set ?hs"
    using find_hindex_words [of ?hs "cl_buf (vc_bo_handles vc4)" 0 "ub_handle b"] count(2)
    by (auto elim!: returnsE)
  show ?thesis
  proof (cases "j < length ps")
    case True
    then show ?thesis
      using b j count(1) ok fit small N hs_fit_mono [OF fit]
      by (auto simp: vc4_gem_hindex_def Let_def unat_of_nat_u32 intro!: exI [of _ ps])
  next
    case False
    then have jl: "j = length ps" using j(2) by simp
    have new: "p \<notin> set ps" using j(3) [OF jl] b by force
    let ?vc = "vc4\<lparr>vc_bos := (vc_bos vc4)(p \<mapsto> b\<lparr>ub_ref := ub_ref b + 1\<rparr>)\<rparr>"
    have "returns (cl_emit (u32_bytes (ub_handle b)) (vc_bo_handles vc4)) (\<lambda>hs.
      returns (cl_emit (u32_bytes p) (vc_bo_pointers vc4)) (\<lambda>pt.
        cl_fit (N + 4) M (r - 4) hs \<and> cl_fit (N + 4) M (r - 4) pt \<and>
        cl_contents hs = words ?hs @ u32_bytes (ub_handle b) \<and> cl_contents pt = words ps @ u32_bytes p))"
      using cl_emit_fit [of N M r "vc_bo_handles vc4" "u32_bytes (ub_handle b)"]
        cl_emit_fit [of N M r "vc_bo_pointers vc4" "u32_bytes p"] fit ok assms(4)
      by (auto simp: hs_fit_def bos_ok_def elim!: returns_mono)
    moreover have "words (map (\<lambda>q. ub_handle (the (vc_bos ?vc q))) ps) = words ?hs"
      using new by (intro arg_cong [of _ _ words] map_cong) auto
    moreover have "refs_only (vc_bos vc4) ((vc_bos vc4)(p \<mapsto> b\<lparr>ub_ref := ub_ref b + 1\<rparr>))"
      using b refs_only_refl [of "vc_bos vc4"] unfolding refs_only_def by auto
    ultimately show ?thesis
      using b j count(1) jl new heap_ok_reference [of ps own "vc_bos vc4" p b] ok small N
      by (auto simp: vc4_gem_hindex_def Let_def vc4_bo_reference_def cl_emits unat_of_nat_u32 bos_ok_def
          hs_fit_def same_but_bos_def sans_bos_def elim!: returns_mono intro!: exI [of _ "ps @ [p]"])
  qed
qed

lemma store_middle:
  assumes "cl_fit N M r cl" "cl_contents cl = A @ old @ B" "length old = length bs"
  shows "returns (store_bytes (cl_buf cl) (length A) bs) (\<lambda>buf.
    cl_fit N M r (cl\<lparr>cl_buf := buf\<rparr>) \<and> cl_contents (cl\<lparr>cl_buf := buf\<rparr>) = A @ bs @ B)"
proof -
  obtain rest where buf: "cl_buf cl = A @ old @ B @ rest"
    using append_take_drop_id [of "cl_next cl" "cl_buf cl"] assms(2) unfolding cl_contents_def
    by (metis append.assoc)
  have next_len: "cl_next cl = length A + length bs + length B"
    using cl_contents_length [OF assms(1)] assms(2,3) by simp
  have "store_bytes (cl_buf cl) (length A) bs = Some (A @ bs @ B @ rest)"
    using assms(3) by (simp add: buf store_bytes_def)
  then show ?thesis
    using assms(1,3) next_len by (simp add: buf cl_fit_def cl_contents_def)
qed

lemma cl_reloc_ok:
  assumes "bos_ok ps own vc4" "hs_fit N M r vc4" "N < 2 ^ 32" "4 \<le> r" "p \<in> dom (vc_bos vc4)"
    and cl: "cl_fit N' M' rb cl" "4 \<le> rb" "cl_contents cl = A @ old @ B" "length old = 4"
  shows "returns (cl_reloc cl (length A) p off vc4) (\<lambda>(cl', reloc', vc4'). \<exists>ps' h.
    bos_ok ps' own vc4' \<and> hs_fit (N + 4) M (r - 4) vc4' \<and> same_but_bos vc4 vc4' \<and>
    unat h < length ps' \<and> length ps \<le> length ps' \<and> reloc' = length A + 4 \<and>
    cl_fit (N' + 4) M' (rb - 4) cl' \<and> cl_contents cl' = A @ u32_bytes h @ B @ u32_bytes off)"
proof -
  have "returns (put_unaligned_32 (cl_buf cl) (length A) h) (\<lambda>buf.
      returns (cl_emit (u32_bytes off) (cl\<lparr>cl_buf := buf\<rparr>)) (\<lambda>cl'. cl_fit (N' + 4) M' (rb - 4) cl' \<and>
        cl_contents cl' = A @ u32_bytes h @ B @ u32_bytes off))" for h
    unfolding put_unaligned_32_def
  proof (rule returns_mono [OF store_middle [OF cl(1,3)]])
    fix buf
    assume "cl_fit N' M' rb (cl\<lparr>cl_buf := buf\<rparr>) \<and>
      cl_contents (cl\<lparr>cl_buf := buf\<rparr>) = A @ u32_bytes h @ B"
    then show "returns (cl_emit (u32_bytes off) (cl\<lparr>cl_buf := buf\<rparr>)) (\<lambda>cl'. cl_fit (N' + 4) M' (rb - 4) cl' \<and>
        cl_contents cl' = A @ u32_bytes h @ B @ u32_bytes off)"
      using cl_emit_fit [of N' M' rb "cl\<lparr>cl_buf := buf\<rparr>" "u32_bytes off"] cl(2) by simp
  qed (simp add: cl(4))
  note put = this
  obtain h vc4' ps' where h: "vc4_gem_hindex p vc4 = Some (h, vc4')" and ps': "bos_ok ps' own vc4'"
    "hs_fit (N + 4) M (r - 4) vc4'" "same_but_bos vc4 vc4'" "unat h < length ps'" "length ps \<le> length ps'"
    using vc4_gem_hindex_ok [OF assms(1-5)] by (auto elim!: returnsE)
  obtain buf cl' where "put_unaligned_32 (cl_buf cl) (length A) h = Some buf"
    "cl_emit (u32_bytes off) (cl\<lparr>cl_buf := buf\<rparr>) = Some cl'" "cl_fit (N' + 4) M' (rb - 4) cl'"
    "cl_contents cl' = A @ u32_bytes h @ B @ u32_bytes off"
    using put [of h] by (auto elim!: returnsE)
  with h ps' show ?thesis by (auto simp: cl_reloc_def cl_emits)
qed

section \<open>The invariant\<close>

text \<open>A shader record as the library writes it: three handle indices, the stride and the offset of
  the vertices.\<close>

type_synonym nv_rec = "u32 \<times> u32 \<times> u32 \<times> u8 \<times> u32"

definition nv_rec_bytes :: "nv_rec \<Rightarrow> u8 list" where
  "nv_rec_bytes = (\<lambda>(h0, h1, h2, stride, off).
     words [h0, h1, h2] @ [0, stride, 0, 3] @ words [0, 0, off])"

definition nv_rec_ok :: "nat \<Rightarrow> nv_rec \<Rightarrow> bool" where
  "nv_rec_ok n = (\<lambda>(h0, h1, h2, stride, off). unat h0 < n \<and> unat h1 < n \<and> unat h2 < n)"

abbreviation "lib_sizes n \<equiv> replicate n (4096 :: u32)"

definition gl_cmds :: "bin_cmd list \<Rightarrow> u32 list \<Rightarrow> 'r vc4_context \<Rightarrow> bool" where
  "gl_cmds cs ps vc4 \<longleftrightarrow>
     cl_contents (vc_bcl vc4) = bin_cmds_bytes cs \<and> bin_cmds_ok (lib_sizes (length ps)) 0 cs \<and>
     count_states cs = unat (vc_shader_rec_count vc4)"

definition gl_recs :: "nv_rec list \<Rightarrow> u32 list \<Rightarrow> 'r vc4_context \<Rightarrow> bool" where
  "gl_recs rs ps vc4 \<longleftrightarrow>
     cl_contents (vc_shader_rec vc4) = concat (map nv_rec_bytes rs) \<and>
     length rs = unat (vc_shader_rec_count vc4) \<and> list_all (nv_rec_ok (length ps)) rs"

text \<open>What a submitted job looks like.\<close>

definition job_good :: "user_job \<Rightarrow> bool" where
  "job_good j \<longleftrightarrow> (\<exists>cs rs.
     job_bin_cl j = bin_cmds_bytes cs \<and> length (bin_cmds_bytes cs) < 2 ^ 31 \<and>
     unat (bin_cl_size (job_args j)) = length (bin_cmds_bytes cs) \<and>
     bin_cmds_ok (lib_sizes (unat (bo_handle_count (job_args j)))) 0 cs \<and>
     count_states cs = unat (shader_rec_count (job_args j)) \<and>
     job_shader_rec j = concat (map nv_rec_bytes rs) \<and>
     unat (args_shader_rec_size (job_args j)) = length (job_shader_rec j) \<and>
     length rs = unat (shader_rec_count (job_args j)) \<and>
     list_all (nv_rec_ok (unat (bo_handle_count (job_args j)))) rs)"

definition fs_ok :: "'r vc4_context \<Rightarrow> bool" where
  "fs_ok vc4 \<longleftrightarrow> (case vc_bos vc4 (vc_prog_fs vc4) of
     None \<Rightarrow> False | Some b \<Rightarrow> ub_map b \<noteq> 0 \<and> 64 \<le> length (ub_mem b))"

definition gl_static :: "u32 set \<Rightarrow> 'r vc4_context \<Rightarrow> bool" where
  "gl_static own vc4 \<longleftrightarrow>
     vc_prog_fs vc4 \<in> own \<and> vc_uniforms vc4 \<in> own \<and> fs_ok vc4 \<and>
     (vc_dirty vc4 AND VC4_DIRTY_VTXBUF \<noteq> 0 \<or> vc_shader_rec_count vc4 \<noteq> 0) \<and>
     (vc_needs_flush vc4 \<longrightarrow> vc_tile_width vc4 \<noteq> 0 \<and> vc_tile_height vc4 \<noteq> 0) \<and>
     vc_color_read vc4 = None \<and> vc_zs_read vc4 = None \<and> vc_zs_write vc4 = None \<and>
     (\<forall>j. SUBMIT_CL j \<in> set (vc_calls vc4) \<longrightarrow> job_good j)"

definition gl_ok ::
    "nat \<Rightarrow> nat \<Rightarrow> nat \<Rightarrow> nat \<Rightarrow> nat \<Rightarrow> bin_cmd list \<Rightarrow> nv_rec list \<Rightarrow> u32 list \<Rightarrow> u32 set
      \<Rightarrow> 'r vc4_context \<Rightarrow> bool" where
  "gl_ok N M rb rr rh cs rs ps own vc4 \<longleftrightarrow>
     cl_fit N M rb (vc_bcl vc4) \<and> cl_fit N M rr (vc_shader_rec vc4) \<and> hs_fit N M rh vc4 \<and>
     bos_ok ps own vc4 \<and> gl_cmds cs ps vc4 \<and> gl_recs rs ps vc4 \<and>
     unat (vc_shader_rec_count vc4) \<le> N \<and> gl_static own vc4"

lemmas gl_defs = gl_ok_def gl_static_def gl_cmds_def gl_recs_def bos_ok_def hs_fit_def fs_ok_def

lemma gl_ok_mono:
  "gl_ok N M rb rr rh cs rs ps own vc4 \<Longrightarrow> N \<le> N' \<Longrightarrow> M \<le> M' \<Longrightarrow> rb' \<le> rb \<Longrightarrow> rr' \<le> rr \<Longrightarrow>
     rh' \<le> rh \<Longrightarrow> gl_ok N' M' rb' rr' rh' cs rs ps own vc4"
  unfolding gl_ok_def by (auto intro: cl_fit_mono hs_fit_mono)

text \<open>Fields the invariant does not mention.\<close>

lemma gl_ok_other_fields [simp]:
  "gl_ok N M rb rr rh cs rs ps own (vc4\<lparr>vc_draw_min_x := x\<rparr>) = gl_ok N M rb rr rh cs rs ps own vc4"
  "gl_ok N M rb rr rh cs rs ps own (vc4\<lparr>vc_draw_min_y := x\<rparr>) = gl_ok N M rb rr rh cs rs ps own vc4"
  "gl_ok N M rb rr rh cs rs ps own (vc4\<lparr>vc_draw_max_x := x\<rparr>) = gl_ok N M rb rr rh cs rs ps own vc4"
  "gl_ok N M rb rr rh cs rs ps own (vc4\<lparr>vc_draw_max_y := x\<rparr>) = gl_ok N M rb rr rh cs rs ps own vc4"
  "gl_ok N M rb rr rh cs rs ps own (vc4\<lparr>vc_draw_width := x\<rparr>) = gl_ok N M rb rr rh cs rs ps own vc4"
  "gl_ok N M rb rr rh cs rs ps own (vc4\<lparr>vc_draw_height := x\<rparr>) = gl_ok N M rb rr rh cs rs ps own vc4"
  "gl_ok N M rb rr rh cs rs ps own (vc4\<lparr>vc_draw_tiles_x := x\<rparr>) = gl_ok N M rb rr rh cs rs ps own vc4"
  "gl_ok N M rb rr rh cs rs ps own (vc4\<lparr>vc_draw_tiles_y := x\<rparr>) = gl_ok N M rb rr rh cs rs ps own vc4"
  "gl_ok N M rb rr rh cs rs ps own (vc4\<lparr>vc_draw_calls_queued := x\<rparr>) = gl_ok N M rb rr rh cs rs ps own vc4"
  "gl_ok N M rb rr rh cs rs ps own (vc4\<lparr>vc_cleared := x\<rparr>) = gl_ok N M rb rr rh cs rs ps own vc4"
  "gl_ok N M rb rr rh cs rs ps own (vc4\<lparr>vc_resolve := x\<rparr>) = gl_ok N M rb rr rh cs rs ps own vc4"
  "gl_ok N M rb rr rh cs rs ps own (vc4\<lparr>vc_clear_color := y\<rparr>) = gl_ok N M rb rr rh cs rs ps own vc4"
  "gl_ok N M rb rr rh cs rs ps own (vc4\<lparr>vc_clear_depth := x\<rparr>) = gl_ok N M rb rr rh cs rs ps own vc4"
  "gl_ok N M rb rr rh cs rs ps own (vc4\<lparr>vc_clear_stencil := z\<rparr>) = gl_ok N M rb rr rh cs rs ps own vc4"
  "gl_ok N M rb rr rh cs rs ps own (vc4\<lparr>vc_framebuffer := fb\<rparr>) = gl_ok N M rb rr rh cs rs ps own vc4"
  "gl_ok N M rb rr rh cs rs ps own (vc4\<lparr>vc_viewport := vp\<rparr>) = gl_ok N M rb rr rh cs rs ps own vc4"
  "gl_ok N M rb rr rh cs rs ps own (vc4\<lparr>vc_vertexbuf := vb\<rparr>) = gl_ok N M rb rr rh cs rs ps own vc4"
  "gl_ok N M rb rr rh cs rs ps own (vc4\<lparr>vc_zsa := zsa\<rparr>) = gl_ok N M rb rr rh cs rs ps own vc4"
  "gl_ok N M rb rr rh cs rs ps own (vc4\<lparr>vc_color_write := s\<rparr>) = gl_ok N M rb rr rh cs rs ps own vc4"
  "gl_ok N M rb rr rh cs rs ps own (vc4\<lparr>vc_bo_list := l\<rparr>) = gl_ok N M rb rr rh cs rs ps own vc4"
  by (simp_all add: gl_defs)

lemma or_and_nonzero: "(d :: u32) AND m \<noteq> 0 \<Longrightarrow> (d OR x) AND m \<noteq> 0"
  by (simp add: bit.conj_disj_distrib2 or_eq_0_iff)

lemma gl_ok_dirty_or:
  assumes "gl_ok N M rb rr rh cs rs ps own vc4"
  shows "gl_ok N M rb rr rh cs rs ps own (vc4\<lparr>vc_dirty := vc_dirty vc4 OR x\<rparr>)"
  using assms or_and_nonzero by (auto simp: gl_defs)

section \<open>Emission keeps the invariant\<close>

lemma gl_emit:
  assumes ok: "gl_ok N M rb rr rh cs rs ps own vc4" and bs: "bs = bin_cmds_bytes new" "length bs = n" "n \<le> rb"
    and new: "bin_cmds_ok (lib_sizes (length ps)) (count_states cs) new" "count_states new = 0"
    and Q: "\<And>bcl. gl_ok (N + n) M (rb - n) rr rh (cs @ new) rs ps own (vc4\<lparr>vc_bcl := bcl\<rparr>) \<Longrightarrow> Q bcl"
  shows "returns (cl_emit bs (vc_bcl vc4)) Q"
proof (rule returns_mono)
  show "returns (cl_emit bs (vc_bcl vc4)) (\<lambda>bcl. cl_fit (N + length bs) M (rb - length bs) bcl \<and>
      cl_contents bcl = cl_contents (vc_bcl vc4) @ bs)"
    using ok bs by (intro cl_emit_fit) (simp_all add: gl_ok_def)
  fix bcl
  assume "cl_fit (N + length bs) M (rb - length bs) bcl \<and> cl_contents bcl = cl_contents (vc_bcl vc4) @ bs"
  then show "Q bcl"
    using gl_ok_mono [OF ok, of "N + n" M rb rr rh] bs new by (intro Q) (simp add: gl_defs)
qed

text \<open>Packets without conditions.\<close>

lemma plain_ok [simp]:
  "p \<in> set plain_packets \<Longrightarrow> Suc (length bs) = unat (packet_size p) \<Longrightarrow> bin_cmd_ok sizes n (Plain p bs)"
  by simp

lemma plain_members [simp]:
  "VC4_PACKET_CLIP_WINDOW \<in> set plain_packets" "VC4_PACKET_CONFIGURATION_BITS \<in> set plain_packets"
  "VC4_PACKET_CLIPPER_XY_SCALING \<in> set plain_packets" "VC4_PACKET_CLIPPER_Z_SCALING \<in> set plain_packets"
  "VC4_PACKET_VIEWPORT_OFFSET \<in> set plain_packets" "VC4_PACKET_START_TILE_BINNING \<in> set plain_packets"
  "VC4_PACKET_PRIMITIVE_LIST_FORMAT \<in> set plain_packets" "VC4_PACKET_FLUSH \<in> set plain_packets"
  "VC4_PACKET_INCREMENT_SEMAPHORE \<in> set plain_packets"
  by (simp_all add: plain_packets_def)

lemma clip_window_emit:
  assumes "gl_ok N M rb rr rh cs rs ps own vc4" "9 \<le> rb"
    and "\<And>bcl cs'. gl_ok (N + 9) M (rb - 9) rr rh cs' rs ps own (vc4\<lparr>vc_bcl := bcl\<rparr>) \<Longrightarrow> Q bcl"
  shows "returns (cl_emit (packet_code VC4_PACKET_CLIP_WINDOW # u16_bytes a @ u16_bytes b @ u16_bytes c @ u16_bytes d)
      (vc_bcl vc4)) Q"
  by (rule gl_emit [OF assms(1), where n = 9 and
        new = "[Plain VC4_PACKET_CLIP_WINDOW (u16_bytes a @ u16_bytes b @ u16_bytes c @ u16_bytes d)]"])
    (use assms(2,3) in simp_all)

lemma config_bits_emit:
  assumes "gl_ok N M rb rr rh cs rs ps own vc4" "4 \<le> rb"
    and "\<And>bcl cs'. gl_ok (N + 4) M (rb - 4) rr rh cs' rs ps own (vc4\<lparr>vc_bcl := bcl\<rparr>) \<Longrightarrow> Q bcl"
  shows "returns (cl_emit [packet_code VC4_PACKET_CONFIGURATION_BITS, a, b, c] (vc_bcl vc4)) Q"
  by (rule gl_emit [OF assms(1), where n = 4 and new = "[Plain VC4_PACKET_CONFIGURATION_BITS [a, b, c]]"])
    (use assms(2,3) in simp_all)

lemma viewport_emit:
  assumes "gl_ok N M rb rr rh cs rs ps own vc4" "23 \<le> rb"
    and "\<And>bcl cs'. gl_ok (N + 23) M (rb - 23) rr rh cs' rs ps own (vc4\<lparr>vc_bcl := bcl\<rparr>) \<Longrightarrow> Q bcl"
  shows "returns (cl_emit (packet_code VC4_PACKET_CLIPPER_XY_SCALING # u32_bytes a @ u32_bytes b @
        packet_code VC4_PACKET_CLIPPER_Z_SCALING # u32_bytes c @ u32_bytes d @
        packet_code VC4_PACKET_VIEWPORT_OFFSET # u16_bytes e @ u16_bytes g) (vc_bcl vc4)) Q"
  by (rule gl_emit [OF assms(1), where n = 23 and
        new = "[Plain VC4_PACKET_CLIPPER_XY_SCALING (u32_bytes a @ u32_bytes b),
         Plain VC4_PACKET_CLIPPER_Z_SCALING (u32_bytes c @ u32_bytes d),
         Plain VC4_PACKET_VIEWPORT_OFFSET (u16_bytes e @ u16_bytes g)]"])
    (use assms(2,3) in simp_all)

lemma start_emit:
  assumes "gl_ok N M rb rr rh cs rs ps own vc4" "19 \<le> rb"
    and "\<And>bcl cs'. gl_ok (N + 19) M (rb - 19) rr rh cs' rs ps own (vc4\<lparr>vc_bcl := bcl\<rparr>) \<Longrightarrow> Q bcl"
  shows "returns (cl_emit (packet_code VC4_PACKET_TILE_BINNING_MODE_CONFIG # u32_bytes 0 @ u32_bytes 0 @
        u32_bytes 0 @ [a, b, c, packet_code VC4_PACKET_START_TILE_BINNING,
        packet_code VC4_PACKET_PRIMITIVE_LIST_FORMAT, d]) (vc_bcl vc4)) Q"
  by (rule gl_emit [OF assms(1), where n = 19 and
        new = "[TileBinning (u32_bytes 0 @ u32_bytes 0 @ u32_bytes 0 @ [a, b, c]),
         Plain VC4_PACKET_START_TILE_BINNING [], Plain VC4_PACKET_PRIMITIVE_LIST_FORMAT [d]]"])
    (use assms(2,3) in simp_all)

lemma end_emit:
  assumes "gl_ok N M rb rr rh cs rs ps own vc4" "2 \<le> rb"
    and "\<And>bcl cs'. gl_ok (N + 2) M (rb - 2) rr rh cs' rs ps own (vc4\<lparr>vc_bcl := bcl\<rparr>) \<Longrightarrow> Q bcl"
  shows "returns (cl_emit [packet_code VC4_PACKET_INCREMENT_SEMAPHORE, packet_code VC4_PACKET_FLUSH]
      (vc_bcl vc4)) Q"
  by (rule gl_emit [OF assms(1), where n = 2 and
        new = "[Plain VC4_PACKET_INCREMENT_SEMAPHORE [], Plain VC4_PACKET_FLUSH []]"])
    (use assms(2,3) in simp_all)

lemma array_emit:
  assumes "gl_ok N M rb rr rh cs rs ps own vc4" "10 \<le> rb" "vc_shader_rec_count vc4 \<noteq> 0" "len \<le> len + base"
    and "\<And>bcl cs'. gl_ok (N + 10) M (rb - 10) rr rh cs' rs ps own (vc4\<lparr>vc_bcl := bcl\<rparr>) \<Longrightarrow> Q bcl"
  shows "returns (cl_emit (packet_code VC4_PACKET_GL_ARRAY_PRIMITIVE # m # u32_bytes len @ u32_bytes base)
      (vc_bcl vc4)) Q"
proof -
  have "count_states cs \<noteq> 0" using assms(1,3) by (simp add: gl_ok_def gl_cmds_def unat_eq_zero)
  then show ?thesis
    by (intro gl_emit [OF assms(1), where n = 10 and new = "[ArrayPrim m len base]"])
      (use assms(2-5) in simp_all)
qed

lemmas emit_rules = clip_window_emit [simplified] config_bits_emit [simplified] viewport_emit [simplified]
  start_emit [simplified] end_emit [simplified] array_emit [simplified]

text \<open>The contents of the draw state that the emission of state leaves alone.\<close>

definition same_draw :: "'r vc4_context \<Rightarrow> 'r vc4_context \<Rightarrow> bool" where
  "same_draw vc4 vc4' \<longleftrightarrow> vc_dirty vc4' = vc_dirty vc4 \<and> vc_vertexbuf vc4' = vc_vertexbuf vc4 \<and>
     vc_framebuffer vc4' = vc_framebuffer vc4 \<and> vc_shader_rec_count vc4' = vc_shader_rec_count vc4 \<and>
     dom (vc_bos vc4') = dom (vc_bos vc4) \<and> (vc_needs_flush vc4 \<longrightarrow> vc_needs_flush vc4')"

lemma emit_clip_window_ok:
  assumes "gl_ok N M rb rr rh cs rs ps own vc4" "9 \<le> rb"
  shows "returns (emit_clip_window fl vc4)
    (\<lambda>vc4'. (\<exists>cs'. gl_ok (N + 9) M (rb - 9) rr rh cs' rs ps own vc4') \<and> same_draw vc4 vc4')"
  by (auto simp: emit_clip_window_def Let_def cl_emits split_beta same_draw_def split del: if_split
      intro!: emit_rules(1) [OF assms])

lemma emit_config_bits_ok:
  assumes "gl_ok N M rb rr rh cs rs ps own vc4" "4 \<le> rb"
  shows "returns (emit_config_bits vc4)
    (\<lambda>vc4'. (\<exists>cs'. gl_ok (N + 4) M (rb - 4) rr rh cs' rs ps own vc4') \<and> same_draw vc4 vc4')"
  by (auto simp: emit_config_bits_def Let_def cl_emits split_beta same_draw_def
      intro!: emit_rules(2) [OF assms])

lemma emit_viewport_ok:
  assumes "gl_ok N M rb rr rh cs rs ps own vc4" "23 \<le> rb"
  shows "returns (emit_viewport fl vc4)
    (\<lambda>vc4'. (\<exists>cs'. gl_ok (N + 23) M (rb - 23) rr rh cs' rs ps own vc4') \<and> same_draw vc4 vc4')"
  by (auto simp: emit_viewport_def cl_f_def Let_def cl_emits split_beta same_draw_def
      intro!: emit_rules(3) [OF assms])

lemma same_draw_refl [simp]: "same_draw vc4 vc4"
  by (simp add: same_draw_def)

lemma same_draw_trans: "same_draw a b \<Longrightarrow> same_draw b c \<Longrightarrow> same_draw a c"
  by (simp add: same_draw_def)

text \<open>A step that may be skipped.\<close>

lemma gl_optional:
  assumes "gl_ok N M rb rr rh cs rs ps own vc4" "n \<le> rb"
    and "c \<Longrightarrow> returns f (\<lambda>vc4'. (\<exists>cs'. gl_ok (N + n) M (rb - n) rr rh cs' rs ps own vc4') \<and> same_draw vc4 vc4')"
  shows "returns (if c then f else Some vc4)
    (\<lambda>vc4'. (\<exists>cs'. gl_ok (N + n) M (rb - n) rr rh cs' rs ps own vc4') \<and> same_draw vc4 vc4')"
proof (cases c)
  case False
  have "gl_ok (N + n) M (rb - n) rr rh cs rs ps own vc4" by (rule gl_ok_mono [OF assms(1)]) auto
  then show ?thesis using False by auto
qed (use assms(3) in simp)

lemma vc4_emit_state_ok:
  assumes "gl_ok N M rb rr rh cs rs ps own vc4" "36 \<le> rb"
  shows "returns (vc4_emit_state fl vc4)
    (\<lambda>vc4'. (\<exists>cs'. gl_ok (N + 36) M (rb - 36) rr rh cs' rs ps own vc4') \<and> same_draw vc4 vc4')"
proof -
  let ?post = "\<lambda>N rb vc4 vc4'. (\<exists>cs'. gl_ok N M rb rr rh cs' rs ps own vc4') \<and> same_draw vc4 vc4'"
  let ?vp = "vc_dirty vc4 AND VC4_DIRTY_VIEWPORT \<noteq> 0"
  let ?zs = "vc_dirty vc4 AND (VC4_DIRTY_RASTERIZER OR VC4_DIRTY_ZSA) \<noteq> 0"
  have 1: "returns (if ?vp then emit_clip_window fl vc4 else Some vc4) (?post (N + 9) (rb - 9) vc4)"
    by (rule gl_optional [OF assms(1) _ emit_clip_window_ok [OF assms(1)]]) (use assms(2) in simp_all)
  have 2: "returns (if ?zs then emit_config_bits vc1 else Some vc1) (?post (N + 13) (rb - 13) vc4)"
    if p: "?post (N + 9) (rb - 9) vc4 vc1" for vc1
  proof -
    obtain cs1 where ok: "gl_ok (N + 9) M (rb - 9) rr rh cs1 rs ps own vc1" using p by blast
    have "returns (if ?zs then emit_config_bits vc1 else Some vc1) (?post (N + 9 + 4) (rb - 9 - 4) vc1)"
      by (rule gl_optional [OF ok _ emit_config_bits_ok [OF ok]]) (use assms(2) in simp_all)
    then show ?thesis by (rule returns_mono) (use p in \<open>auto simp: add.commute intro: same_draw_trans\<close>)
  qed
  have 3: "returns (if ?vp then emit_viewport fl vc2 else Some vc2) (?post (N + 36) (rb - 36) vc4)"
    if p: "?post (N + 13) (rb - 13) vc4 vc2" for vc2
  proof -
    obtain cs2 where ok: "gl_ok (N + 13) M (rb - 13) rr rh cs2 rs ps own vc2" using p by blast
    have "returns (if ?vp then emit_viewport fl vc2 else Some vc2) (?post (N + 13 + 23) (rb - 13 - 23) vc2)"
      by (rule gl_optional [OF ok _ emit_viewport_ok [OF ok]]) (use assms(2) in simp_all)
    then show ?thesis by (rule returns_mono) (use p in \<open>auto simp: add.commute intro: same_draw_trans\<close>)
  qed
  show ?thesis
    unfolding vc4_emit_state_def returns_simps(3)
  proof (rule returns_mono [OF 1], rule returns_mono)
    fix vc1 assume post1: "?post (N + 9) (rb - 9) vc4 vc1"
    then have d1: "vc_dirty vc1 = vc_dirty vc4" by (simp add: same_draw_def)
    show "returns (if vc_dirty vc1 AND (VC4_DIRTY_RASTERIZER OR VC4_DIRTY_ZSA) \<noteq> 0
        then emit_config_bits vc1 else Some vc1) (?post (N + 13) (rb - 13) vc4)"
      unfolding d1 by (rule 2 [OF post1])
    fix vc2 assume post2: "?post (N + 13) (rb - 13) vc4 vc2"
    then have d2: "vc_dirty vc2 = vc_dirty vc4" by (simp add: same_draw_def)
    show "returns (if vc_dirty vc2 AND VC4_DIRTY_VIEWPORT \<noteq> 0 then emit_viewport fl vc2 else Some vc2)
        (?post (N + 36) (rb - 36) vc4)"
      unfolding d2 by (rule 3 [OF post2])
  qed
qed

section \<open>Making room\<close>

lemma gl_ok_grow:
  assumes "gl_ok N M rb rr rh cs rs ps own vc4"
    and "cl_fit N M rb' bcl" "cl_contents bcl = cl_contents (vc_bcl vc4)"
    and "cl_fit N M rr' sr" "cl_contents sr = cl_contents (vc_shader_rec vc4)"
    and "cl_fit N M rh' hs" "cl_contents hs = cl_contents (vc_bo_handles vc4)"
    and "cl_fit N M rh' pt" "cl_contents pt = cl_contents (vc_bo_pointers vc4)"
  shows "gl_ok N M rb' rr' rh' cs rs ps own
    (vc4\<lparr>vc_bcl := bcl, vc_shader_rec := sr, vc_bo_handles := hs, vc_bo_pointers := pt\<rparr>)"
  using assms by (simp add: gl_defs)

lemma vc4_get_draw_cl_space_ok:
  assumes ok: "gl_ok N M rb rr rh cs rs ps own vc4" and mem: "mem_ok mem"
    and le: "2 * N + 550 \<le> M" "M < 2 ^ 30"
  shows "returns (vc4_get_draw_cl_space mem vc4)
    (\<lambda>vc4'. gl_ok N M 275 28 80 cs rs ps own vc4' \<and> same_draw vc4 vc4' \<and>
       vc_needs_flush vc4' = vc_needs_flush vc4 \<and> vc_tile_width vc4' = vc_tile_width vc4 \<and>
       vc_tile_height vc4' = vc_tile_height vc4)"
proof -
  have fits: "cl_fit N M rb (vc_bcl vc4)" "cl_fit N M rr (vc_shader_rec vc4)"
    "cl_fit N M rh (vc_bo_handles vc4)" "cl_fit N M rh (vc_bo_pointers vc4)"
    using ok by (simp_all add: gl_ok_def hs_fit_def)
  obtain bcl where b: "cl_ensure_space mem (vc_bcl vc4) 275 = Some bcl" "cl_fit N M 275 bcl"
      "cl_contents bcl = cl_contents (vc_bcl vc4)"
    using cl_ensure_space_fit [OF fits(1) mem, of 275] le by (auto elim!: returnsE)
  obtain sr where sr: "cl_ensure_space mem (vc_shader_rec vc4) 28 = Some sr" "cl_fit N M 28 sr"
      "cl_contents sr = cl_contents (vc_shader_rec vc4)"
    using cl_ensure_space_fit [OF fits(2) mem, of 28] le by (auto elim!: returnsE)
  obtain hs where hs: "cl_ensure_space mem (vc_bo_handles vc4) 80 = Some hs" "cl_fit N M 80 hs"
      "cl_contents hs = cl_contents (vc_bo_handles vc4)"
    using cl_ensure_space_fit [OF fits(3) mem, of 80] le by (auto elim!: returnsE)
  obtain pt where pt: "cl_ensure_space mem (vc_bo_pointers vc4) 80 = Some pt" "cl_fit N M 80 pt"
      "cl_contents pt = cl_contents (vc_bo_pointers vc4)"
    using cl_ensure_space_fit [OF fits(4) mem, of 80] le by (auto elim!: returnsE)
  show ?thesis
    using gl_ok_grow [OF ok b(2,3) sr(2,3) hs(2,3) pt(2,3)] b(1) sr(1) hs(1) pt(1)
    by (simp add: vc4_get_draw_cl_space_def same_draw_def)
qed

lemma gl_ok_needs_flush:
  "gl_ok N M rb rr rh cs rs ps own vc4 \<Longrightarrow> vc_tile_width vc4 \<noteq> 0 \<Longrightarrow> vc_tile_height vc4 \<noteq> 0 \<Longrightarrow>
     gl_ok N M rb rr rh cs rs ps own (vc4\<lparr>vc_needs_flush := True\<rparr>)"
  by (simp add: gl_defs)

lemma vc4_start_draw_ok:
  assumes ok: "gl_ok N M rb rr rh cs rs ps own vc4" and mem: "mem_ok mem"
    and le: "2 * N + 550 \<le> M" "M < 2 ^ 30" and tile: "vc_tile_width vc4 \<noteq> 0" "vc_tile_height vc4 \<noteq> 0"
    and room: "vc_needs_flush vc4 \<Longrightarrow> 256 \<le> rb \<and> 28 \<le> rr \<and> 80 \<le> rh"
  shows "returns (vc4_start_draw mem vc4)
    (\<lambda>vc4'. (\<exists>cs'. gl_ok (N + 19) M 256 28 80 cs' rs ps own vc4') \<and> same_draw vc4 vc4' \<and> vc_needs_flush vc4')"
proof (cases "vc_needs_flush vc4")
  case True
  have "gl_ok (N + 19) M 256 28 80 cs rs ps own vc4"
    by (rule gl_ok_mono [OF ok]) (use room True in auto)
  then show ?thesis using True by (auto simp: vc4_start_draw_def)
next
  case False
  obtain vc1 where 1: "vc4_get_draw_cl_space mem vc4 = Some vc1" and ok1: "gl_ok N M 275 28 80 cs rs ps own vc1"
    and same: "same_draw vc4 vc1" "vc_tile_width vc1 = vc_tile_width vc4" "vc_tile_height vc1 = vc_tile_height vc4"
    using vc4_get_draw_cl_space_ok [OF ok mem le] by (auto elim!: returnsE)
  have "returns (cl_emit (112 # u32_bytes 0 @ u32_bytes 0 @ u32_bytes 0 @ [a, b, c, 6, 56, d]) (vc_bcl vc1))
      (\<lambda>bcl. \<exists>cs'. gl_ok (N + 19) M 256 28 80 cs' rs ps own (vc1\<lparr>vc_bcl := bcl, vc_needs_flush := True\<rparr>))"
    for a b c d
    by (rule emit_rules(4) [OF ok1]) (use tile same gl_ok_needs_flush in force)+
  then show ?thesis
    using False 1 same(1)
    by (auto simp: vc4_start_draw_def cl_emits same_draw_def elim!: returns_mono)
qed

section \<open>Shaders\<close>

lemma heap_ok_upd:
  "heap_ok ps own h \<Longrightarrow> h p = Some b \<Longrightarrow> ub_ref b' = ub_ref b \<Longrightarrow> heap_ok ps own (h(p \<mapsto> b'))"
  by (auto simp: heap_ok_def bo_ref_ok_def split: if_splits)

lemma gl_ok_bo_upd:
  assumes ok: "gl_ok N M rb rr rh cs rs ps own vc4" and b: "vc_bos vc4 p = Some b"
    and "ub_ref b' = ub_ref b" "ub_handle b' = ub_handle b"
    and fs: "p = vc_prog_fs vc4 \<Longrightarrow> ub_map b' \<noteq> 0 \<and> 64 \<le> length (ub_mem b')"
  shows "gl_ok N M rb rr rh cs rs ps own (vc4\<lparr>vc_bos := (vc_bos vc4)(p \<mapsto> b')\<rparr>)"
proof -
  let ?h = "(vc_bos vc4)(p \<mapsto> b')"
  have "(\<lambda>q. ub_handle (the (?h q))) = (\<lambda>q. ub_handle (the (vc_bos vc4 q)))"
    using b assms(4) by auto
  moreover have "heap_ok ps own ?h"
    using ok heap_ok_upd [of ps own "vc_bos vc4" p b b'] b assms(3) by (simp add: gl_defs)
  moreover have "fs_ok (vc4\<lparr>vc_bos := ?h\<rparr>)" using ok fs by (simp add: gl_defs)
  ultimately show ?thesis
    using ok unfolding gl_ok_def gl_cmds_def gl_recs_def gl_static_def bos_ok_def hs_fit_def
    by (simp del: fun_upd_apply)
qed

lemma bo_store_ok:
  assumes ok: "gl_ok N M rb rr rh cs rs ps own vc4" and b: "vc_bos vc4 p = Some b"
    and "ub_map b \<noteq> 0" "i + length bs \<le> length (ub_mem b)"
  shows "returns (bo_store p i bs vc4) (\<lambda>vc4'. gl_ok N M rb rr rh cs rs ps own vc4' \<and>
    (\<exists>m. length m = length (ub_mem b) \<and> vc4' = vc4\<lparr>vc_bos := (vc_bos vc4)(p \<mapsto> b\<lparr>ub_mem := m\<rparr>)\<rparr>))"
proof -
  have fs: "64 \<le> length (ub_mem b)" if "p = vc_prog_fs vc4"
    using ok b that by (simp add: gl_defs)
  obtain m where m: "store_bytes (ub_mem b) i bs = Some m" "length m = length (ub_mem b)"
    using assms(4) store_bytes_defined [of "ub_mem b" i bs] store_bytes_length by blast
  have "gl_ok N M rb rr rh cs rs ps own (vc4\<lparr>vc_bos := (vc_bos vc4)(p \<mapsto> b\<lparr>ub_mem := m\<rparr>)\<rparr>)"
    by (rule gl_ok_bo_upd [OF ok b]) (use m fs assms(3) in auto)
  then show ?thesis using b assms(3) m by (auto simp: bo_store_def)
qed

lemma fs_store_ok:
  assumes ok: "gl_ok N M rb rr rh cs rs ps own vc4" and "i + length bs \<le> 64"
  shows "returns (bo_store (vc_prog_fs vc4) i bs vc4)
    (\<lambda>vc4'. gl_ok N M rb rr rh cs rs ps own vc4' \<and> same_draw vc4 vc4' \<and> vc_prog_fs vc4' = vc_prog_fs vc4)"
proof -
  obtain b where "vc_bos vc4 (vc_prog_fs vc4) = Some b" "ub_map b \<noteq> 0" "64 \<le> length (ub_mem b)"
    using ok by (auto simp: gl_defs split: option.splits)
  from bo_store_ok [OF ok this(1,2), of i bs] this(1,3) assms(2) show ?thesis
    by (auto simp: same_draw_def split: if_splits elim!: returns_mono)
qed

lemma vc4_update_compiled_shaders_ok:
  assumes "gl_ok N M rb rr rh cs rs ps own vc4"
  shows "returns (vc4_update_compiled_shaders mode vc4)
    (\<lambda>vc4'. gl_ok N M rb rr rh cs rs ps own vc4' \<and> same_draw vc4 vc4')"
proof -
  have "returns (bo_store (vc_prog_fs vc4) (4 * 14) (u32_bytes x) vc4) (\<lambda>vc1.
      returns (bo_store (vc_prog_fs vc1) (4 * 15) (u32_bytes y) vc1)
        (\<lambda>vc4'. gl_ok N M rb rr rh cs rs ps own vc4' \<and> same_draw vc4 vc4'))" for x y
  proof (rule returns_mono [OF fs_store_ok [OF assms]])
    fix vc1 assume 1: "gl_ok N M rb rr rh cs rs ps own vc1 \<and> same_draw vc4 vc1 \<and>
      vc_prog_fs vc1 = vc_prog_fs vc4"
    show "returns (bo_store (vc_prog_fs vc1) (4 * 15) (u32_bytes y) vc1)
        (\<lambda>vc4'. gl_ok N M rb rr rh cs rs ps own vc4' \<and> same_draw vc4 vc4')"
      by (rule returns_mono [OF fs_store_ok]) (use 1 same_draw_trans in auto)
  qed simp
  then show ?thesis
    using assms by (auto simp: vc4_update_compiled_shaders_def vc4_update_compiled_fs_def)
qed

section \<open>Shader records\<close>

lemma bin_cmds_ok_more:
  assumes "bin_cmds_ok sizes k cs" "length sizes \<le> length sizes'"
    and "\<And>i. i < length sizes \<Longrightarrow> sizes ! i \<le> sizes' ! i"
  shows "bin_cmds_ok sizes' k cs"
  using assms(1)
proof (induction cs arbitrary: k)
  case (Cons c cs)
  have "bin_cmd_ok sizes' k c" if "bin_cmd_ok sizes k c"
  proof (cases c)
    case (IndexedPrim h0 h1 m len off mx)
    let ?s = "sizes ! unat h0" and ?s' = "sizes' ! unat h0"
    let ?i = "if drop_bit 4 m \<noteq> 0 then 2 else 1 :: u32"
    have h: "unat h0 < length sizes" "off \<le> ?s" "len \<le> (?s - off) div ?i" "k \<noteq> 0"
      using that IndexedPrim by auto
    have le: "?s \<le> ?s'" by (rule assms(3) [OF h(1)])
    then have "unat (?s - off) \<le> unat (?s' - off)" "off \<le> ?s'"
      using h(2) by (auto simp: unat_sub word_le_nat_alt)
    then have "(?s - off) div ?i \<le> (?s' - off) div ?i"
      by (simp add: word_le_nat_alt unat_div div_le_mono)
    then show ?thesis using IndexedPrim h \<open>off \<le> ?s'\<close> assms(2) by (auto intro: order_trans)
  qed (use that in auto)
  then show ?case using Cons by simp
qed simp

lemma nv_rec_ok_mono: "list_all (nv_rec_ok n) rs \<Longrightarrow> n \<le> n' \<Longrightarrow> list_all (nv_rec_ok n') rs"
  by (auto simp: list_all_iff nv_rec_ok_def)

lemma gl_ok_bos:
  assumes "gl_ok N M rb rr rh cs rs ps own vc4" "bos_ok ps' own vc4'" "hs_fit N' M rh' vc4'"
    and same: "same_but_bos vc4 vc4'" and "length ps \<le> length ps'" "N \<le> N'"
  shows "gl_ok N' M rb rr rh' cs rs ps' own vc4'"
proof -
  have "bin_cmds_ok (lib_sizes (length ps')) 0 cs" "list_all (nv_rec_ok (length ps')) rs"
    using assms(1,5) by (auto simp: gl_defs intro: nv_rec_ok_mono
        elim!: bin_cmds_ok_more [of "lib_sizes (length ps)"])
  moreover have "fs_ok vc4'"
    using assms(1) same same_but_bos_fields(9) [OF same]
    by (fastforce simp: gl_defs same_but_bos_def refs_only_def split: option.splits)
  ultimately show ?thesis
    using assms(1-3,6) same_but_bos_fields [OF same]
    unfolding gl_ok_def gl_cmds_def gl_recs_def gl_static_def by (auto intro: cl_fit_mono)
qed

end
