(* ===== verification/Gl_Jobs.thy ===== *)
theory Gl_Jobs
  imports Gl_Safe
begin

text \<open>
  Whole operations of the graphics driver keep its invariant \<open>gl_ok\<close>: shader records with their
  relocations, allocation and release of buffer objects, draws, and the end of a job, which is
  submitted and releases everything it referred to.
\<close>

unbundle bit_operations_syntax

section \<open>Shader records\<close>

lemma cl_advance_fit:
  assumes "cl_fit N M r cl" "n \<le> r"
  obtains g where "cl_fit (N + n) M (r - n) (cl_advance cl n)" "length g = n"
    "cl_contents (cl_advance cl n) = cl_contents cl @ g"
proof
  show "cl_fit (N + n) M (r - n) (cl_advance cl n)"
    using assms by (auto simp: cl_fit_def cl_advance_def)
  show "length (take n (drop (cl_next cl) (cl_buf cl))) = n"
    using assms by (auto simp: cl_fit_def min_def)
  show "cl_contents (cl_advance cl n) = cl_contents cl @ take n (drop (cl_next cl) (cl_buf cl))"
    by (simp add: cl_contents_def cl_advance_def take_add)
qed

lemma refs_only_dom: "refs_only h h' \<Longrightarrow> p \<in> dom h \<Longrightarrow> p \<in> dom h'"
  by (auto simp: refs_only_def)

lemma bos_ok_own: "bos_ok ps own vc4 \<Longrightarrow> p \<in> own \<Longrightarrow> p \<in> dom (vc_bos vc4)"
  by (auto simp: bos_ok_def heap_ok_def)

text \<open>The three relocations of a record, one after the other.\<close>

lemma shader_relocs_ok:
  assumes ok: "bos_ok ps own vc4" "hs_fit N M r vc4" "N + 12 < 2 ^ 32" "12 \<le> r"
    and own: "p0 \<in> own" "p1 \<in> own" "p2 \<in> own"
    and cl: "cl_fit N' M' rr cl" "12 \<le> rr" "cl_contents cl = A @ g @ B" "length g = 12"
  obtains cl1 cl2 cl3 vc1 vc2 vc3 ps' h0 h1 h2 where
    "cl_reloc cl (length A) p0 o0 vc4 = Some (cl1, length A + 4, vc1)" "same_but_bos vc4 vc1"
    "cl_reloc cl1 (length A + 4) p1 o1 vc1 = Some (cl2, length A + 8, vc2)" "same_but_bos vc4 vc2"
    "cl_reloc cl2 (length A + 8) p2 o2 vc2 = Some (cl3, length A + 12, vc3)" "same_but_bos vc4 vc3"
    "bos_ok ps' own vc3" "hs_fit (N + 12) M (r - 12) vc3" "length ps \<le> length ps'"
    "unat h0 < length ps'" "unat h1 < length ps'" "unat h2 < length ps'"
    "cl_fit (N' + 12) M' (rr - 12) cl3"
    "cl_contents cl3 = A @ words [h0, h1, h2] @ B @ words [o0, o1, o2]"
proof -
  obtain g0 g1 g2 where g: "g = g0 @ g1 @ g2" "length g0 = 4" "length g1 = 4" "length g2 = 4"
  proof
    show "g = take 4 g @ take 4 (drop 4 g) @ drop 8 g"
      by (metis append_assoc append_take_drop_id drop_drop numeral_Bit0)
  qed (simp_all add: cl(4))
  have room: "4 \<le> r" "4 \<le> r - 4" "4 \<le> r - 8" "4 \<le> rr" "4 \<le> rr - 4" "4 \<le> rr - 8"
    "N < 2 ^ 32" "N + 4 < 2 ^ 32" "N + 8 < 2 ^ 32"
    using ok(3,4) cl(2) by simp_all
  have c0: "cl_contents cl = A @ g0 @ (g1 @ g2 @ B)" using cl(3) g(1) by simp
  obtain cl1 vc1 ps1 h0 where 1: "cl_reloc cl (length A) p0 o0 vc4 = Some (cl1, length A + 4, vc1)"
    "bos_ok ps1 own vc1" "hs_fit (N + 4) M (r - 4) vc1" "same_but_bos vc4 vc1" "unat h0 < length ps1"
    "length ps \<le> length ps1" "cl_fit (N' + 4) M' (rr - 4) cl1"
    "cl_contents cl1 = A @ u32_bytes h0 @ (g1 @ g2 @ B) @ u32_bytes o0"
    using cl_reloc_ok [OF ok(1,2) room(7,1) bos_ok_own [OF ok(1) own(1)] cl(1) room(4) c0 g(2), of o0]
    by (auto elim!: returnsE)
  have c1: "cl_contents cl1 = (A @ u32_bytes h0) @ g1 @ (g2 @ B @ u32_bytes o0)" using 1(8) by simp
  obtain cl2 vc2 ps2 h1 where 2: "cl_reloc cl1 (length A + 4) p1 o1 vc1 = Some (cl2, length A + 8, vc2)"
    "bos_ok ps2 own vc2" "hs_fit (N + 8) M (r - 8) vc2" "same_but_bos vc1 vc2" "unat h1 < length ps2"
    "length ps1 \<le> length ps2" "cl_fit (N' + 8) M' (rr - 8) cl2"
    "cl_contents cl2 = (A @ u32_bytes h0) @ u32_bytes h1 @ (g2 @ B @ u32_bytes o0) @ u32_bytes o1"
    using cl_reloc_ok [OF 1(2,3) room(8,2) bos_ok_own [OF 1(2) own(2)] 1(7) room(5) c1 g(3), of o1]
    by (auto elim!: returnsE simp: algebra_simps)
  have c2: "cl_contents cl2 = (A @ u32_bytes h0 @ u32_bytes h1) @ g2 @ (B @ u32_bytes o0 @ u32_bytes o1)"
    using 2(8) by simp
  obtain cl3 vc3 ps3 h2 where 3: "cl_reloc cl2 (length A + 8) p2 o2 vc2 = Some (cl3, length A + 12, vc3)"
    "bos_ok ps3 own vc3" "hs_fit (N + 12) M (r - 12) vc3" "same_but_bos vc2 vc3" "unat h2 < length ps3"
    "length ps2 \<le> length ps3" "cl_fit (N' + 12) M' (rr - 12) cl3"
    "cl_contents cl3 = (A @ u32_bytes h0 @ u32_bytes h1) @ u32_bytes h2 @ (B @ u32_bytes o0 @ u32_bytes o1) @ u32_bytes o2"
    using cl_reloc_ok [OF 2(2,3) room(9,3) bos_ok_own [OF 2(2) own(3)] 2(7) room(6) c2 g(4), of o2]
    by (auto elim!: returnsE simp: algebra_simps)
  have same: "same_but_bos vc4 vc2" "same_but_bos vc4 vc3" using 1(4) 2(4) 3(4) same_but_bos_trans by blast+
  show thesis
    by (rule that [OF 1(1,4) 2(1) same(1) 3(1) same(2) 3(2,3)])
      (use 1(5,6) 2(5,6) 3(5-8) in simp_all)
qed

lemma vc4_emit_nv_shader_state_ok:
  assumes ok: "gl_ok N M rb rr rh cs rs ps own vc4" and room: "5 \<le> rb" "28 \<le> rr" "12 \<le> rh" "N + 28 < 2 ^ 32"
    and vb: "vb_resource (vc_vertexbuf vc4) = Some rsc" "rs_bo rsc \<in> own"
  shows "returns (vc4_emit_nv_shader_state vc4) (\<lambda>vc4'. (\<exists>cs' rs' ps'.
    gl_ok (N + 28) M (rb - 5) (rr - 28) (rh - 12) cs' rs' ps' own vc4') \<and> vc_shader_rec_count vc4' \<noteq> 0 \<and>
    (vc_needs_flush vc4 \<longrightarrow> vc_needs_flush vc4') \<and> vc_framebuffer vc4' = vc_framebuffer vc4 \<and>
    dom (vc_bos vc4') = dom (vc_bos vc4))"
proof -
  let ?stride = "ucast (vb_stride (vc_vertexbuf vc4)) :: u8" and ?off = "vb_buffer_offset (vc_vertexbuf vc4)"
  let ?A = "cl_contents (vc_shader_rec vc4)" and ?H = "[0, ?stride, 0, 3 :: u8]"
  note G = ok [unfolded gl_ok_def]
  have own: "vc_prog_fs vc4 \<in> own" "vc_uniforms vc4 \<in> own" using G by (simp_all add: gl_static_def)
  obtain bcl where b: "cl_emit (packet_code VC4_PACKET_NV_SHADER_STATE # u32_bytes 0) (vc_bcl vc4) = Some bcl"
    "cl_fit (N + 5) M (rb - 5) bcl"
    "cl_contents bcl = cl_contents (vc_bcl vc4) @ packet_code VC4_PACKET_NV_SHADER_STATE # u32_bytes 0"
    using cl_emit_fit [of N M rb "vc_bcl vc4" "packet_code VC4_PACKET_NV_SHADER_STATE # u32_bytes 0"] G room(1)
    by (auto elim!: returnsE)
  obtain g where g: "cl_fit (N + 12) M (rr - 12) (cl_advance (vc_shader_rec vc4) 12)" "length g = 12"
    "cl_contents (cl_advance (vc_shader_rec vc4) 12) = ?A @ g"
    using cl_advance_fit [of N M rr "vc_shader_rec vc4" 12] G room(2) by auto
  obtain sr where s: "cl_emit ?H (cl_advance (vc_shader_rec vc4) 12) = Some sr"
    "cl_fit (N + 16) M (rr - 16) sr" "cl_contents sr = ?A @ g @ ?H"
    using cl_emit_fit [OF g(1), of ?H] g(3) room(2) by (auto elim!: returnsE simp: algebra_simps le_diff_conv2)
  have A: "length ?A = cl_next (vc_shader_rec vc4)" using G cl_contents_length by blast
  have bos: "bos_ok ps own vc4" "hs_fit N M rh vc4" using G by simp_all
  obtain cl1 cl2 cl3 vc1 vc2 vc3 ps' h0 h1 h2 where
    r: "cl_reloc sr (length ?A) (vc_prog_fs vc4) 0 vc4 = Some (cl1, length ?A + 4, vc1)"
      "cl_reloc cl1 (length ?A + 4) (vc_uniforms vc4) 0 vc1 = Some (cl2, length ?A + 8, vc2)"
      "cl_reloc cl2 (length ?A + 8) (rs_bo rsc) ?off vc2 = Some (cl3, length ?A + 12, vc3)"
    and same: "same_but_bos vc4 vc1" "same_but_bos vc4 vc2" "same_but_bos vc4 vc3"
    and bos': "bos_ok ps' own vc3" "hs_fit (N + 12) M (rh - 12) vc3" "length ps \<le> length ps'"
    and h: "unat h0 < length ps'" "unat h1 < length ps'" "unat h2 < length ps'"
    and cl3: "cl_fit (N + 16 + 12) M (rr - 16 - 12) cl3"
      "cl_contents cl3 = ?A @ words [h0, h1, h2] @ ?H @ words [0, 0, ?off]"
    by (rule shader_relocs_ok [OF bos _ room(3) own vb(2) s(2) _ s(3) g(2)]) (use room in auto)
  have ok3: "gl_ok (N + 12) M rb rr (rh - 12) cs rs ps' own vc3"
    by (rule gl_ok_bos [OF ok bos'(1,2) same(3) bos'(3)]) simp
  have dom3: "dom (vc_bos vc3) = dom (vc_bos vc4)" using same(3) by (simp add: same_but_bos_def refs_only_def)
  have cnt: "unat (vc_shader_rec_count vc3) \<le> N"
    using G same_but_bos_fields(3) [OF same(3)] by simp
  have inc: "unat (vc_shader_rec_count vc3 + 1) = Suc (unat (vc_shader_rec_count vc3))"
    using room(4) cnt by (subst unat_add_small) simp_all
  have fit3: "cl_fit (N + 28) M (rr - 28) cl3" "cl_fit (N + 28) M (rb - 5) bcl"
    using cl_fit_mono [OF cl3(1)] cl_fit_mono [OF b(2)] by simp_all
  have nz: "vc_shader_rec_count vc3 + 1 \<noteq> 0" using inc by (metis unat_0 nat.distinct(1))
  have "gl_ok (N + 28) M (rb - 5) (rr - 28) (rh - 12) (cs @ [NvState 0])
      (rs @ [(h0, h1, h2, ?stride, ?off)]) ps' own
      (vc3\<lparr>vc_bcl := bcl, vc_shader_rec := cl3, vc_resolve := x,
            vc_shader_rec_count := vc_shader_rec_count vc3 + 1\<rparr>)" for x
    using gl_ok_mono [OF ok3, of "N + 28" M "rb - 5" "rr - 28" "rh - 12"] fit3 cl3(2) b(3) inc h cnt nz
      same_but_bos_fields(1,2) [OF same(3)]
    by (simp add: gl_defs nv_rec_bytes_def nv_rec_ok_def)
  then show ?thesis
    using b(1) s(1) r A vb(1) nz dom3 same_but_bos_fields [OF same(1)] same_but_bos_fields [OF same(2)]
      same_but_bos_fields [OF same(3)]
    by (auto simp: vc4_emit_nv_shader_state_def cl_start_shader_reloc_def cl_emits Let_def)
qed

section \<open>Allocation and release of buffer objects\<close>

text \<open>Changes of the heap that the rest of the invariant survives; the calls to the kernel they make
  are no submissions.\<close>

definition no_submit :: "drm_call list \<Rightarrow> bool" where
  "no_submit c \<longleftrightarrow> (\<forall>j. SUBMIT_CL j \<notin> set c)"

definition heap_effect ::
    "(u32 \<rightharpoonup> user_bo) \<Rightarrow> u32 list \<Rightarrow> drm_call list \<Rightarrow> 'r vc4_context \<Rightarrow> 'r vc4_context" where
  "heap_effect h l c vc4 = vc4\<lparr>vc_bos := h, vc_bo_list := l, vc_calls := vc_calls vc4 @ c\<rparr>"

definition keeps_bos :: "u32 set \<Rightarrow> (u32 \<rightharpoonup> user_bo) \<Rightarrow> (u32 \<rightharpoonup> user_bo) \<Rightarrow> bool" where
  "keeps_bos own h h' \<longleftrightarrow> (\<forall>q\<in>own. \<forall>b. h q = Some b \<longrightarrow> (\<exists>r. h' q = Some (b\<lparr>ub_ref := r\<rparr>)))"

lemma heap_effect_fields [simp]:
  "vc_bos (heap_effect h l c vc4) = h" "vc_bcl (heap_effect h l c vc4) = vc_bcl vc4"
  "vc_shader_rec (heap_effect h l c vc4) = vc_shader_rec vc4"
  "vc_bo_handles (heap_effect h l c vc4) = vc_bo_handles vc4"
  "vc_bo_pointers (heap_effect h l c vc4) = vc_bo_pointers vc4"
  "vc_needs_flush (heap_effect h l c vc4) = vc_needs_flush vc4"
  "vc_framebuffer (heap_effect h l c vc4) = vc_framebuffer vc4"
  "vc_vertexbuf (heap_effect h l c vc4) = vc_vertexbuf vc4"
  "vc_prog_fs (heap_effect h l c vc4) = vc_prog_fs vc4"
  "vc_uniforms (heap_effect h l c vc4) = vc_uniforms vc4"
  "vc_max_index (heap_effect h l c vc4) = vc_max_index vc4"
  "vc_dirty (heap_effect h l c vc4) = vc_dirty vc4"
  "vc_shader_rec_count (heap_effect h l c vc4) = vc_shader_rec_count vc4"
  "vc_calls (heap_effect h l c vc4) = vc_calls vc4 @ c"
  by (simp_all add: heap_effect_def)

lemma heap_effect_twice [simp]:
  "heap_effect h' l' c' (heap_effect h l c vc4) = heap_effect h' l' (c @ c') vc4"
  by (simp add: heap_effect_def)

lemma no_submit_simps [simp]:
  "no_submit []" "no_submit (c @ c') \<longleftrightarrow> no_submit c \<and> no_submit c'"
  by (auto simp: no_submit_def)

lemma keeps_bos_trans:
  assumes "keeps_bos own h1 h2" "keeps_bos own h2 h3"
  shows "keeps_bos own h1 h3"
  unfolding keeps_bos_def
proof (intro ballI allI impI)
  fix q b assume q: "q \<in> own" and "h1 q = Some b"
  then obtain r where "h2 q = Some (b\<lparr>ub_ref := r\<rparr>)" using assms(1) by (auto simp: keeps_bos_def)
  then obtain r' where "h3 q = Some (b\<lparr>ub_ref := r, ub_ref := r'\<rparr>)"
    using assms(2) q unfolding keeps_bos_def by blast
  then show "\<exists>r. h3 q = Some (b\<lparr>ub_ref := r\<rparr>)" by auto
qed

lemma keeps_bos_fs:
  assumes "fs_ok vc4" "vc_prog_fs vc4 \<in> own" "keeps_bos own (vc_bos vc4) h"
  shows "fs_ok (heap_effect h l c vc4)"
  using assms by (fastforce simp: fs_ok_def keeps_bos_def split: option.splits)

lemma gl_ok_heap:
  assumes ok: "gl_ok N M rb rr rh cs rs ps own vc4" and h: "heap_ok ps own' h" "no_submit c"
    and "\<And>p. p \<in> set ps \<Longrightarrow> ub_handle (the (h p)) = ub_handle (the (vc_bos vc4 p))"
    and fs: "vc_prog_fs vc4 \<in> own'" "vc_uniforms vc4 \<in> own'" "fs_ok (heap_effect h l c vc4)"
  shows "gl_ok N M rb rr rh cs rs ps own' (heap_effect h l c vc4)"
proof -
  have "words (map (\<lambda>p. ub_handle (the (h p))) ps) = words (map (\<lambda>p. ub_handle (the (vc_bos vc4 p))) ps)"
    using assms(4) by (intro arg_cong [of _ _ words] map_cong) auto
  then show ?thesis
    using ok h fs unfolding gl_ok_def gl_cmds_def gl_recs_def gl_static_def bos_ok_def hs_fit_def
    by (auto simp: heap_effect_def no_submit_def)
qed

lemma unreference_effect:
  assumes "vc_bos vc4 p = Some b" "p \<noteq> 0"
  obtains l c where "vc4_bo_unreference p vc4 = Some (heap_effect
      ((vc_bos vc4)(p := if ub_ref b = 1 then None else Some (b\<lparr>ub_ref := ub_ref b - 1\<rparr>))) l c vc4)"
    "no_submit c"
proof (cases "ub_ref b = 1")
  case True
  show thesis
    by (rule that [of "remove1 p (vc_bo_list vc4)"
          "(if ub_map b \<noteq> 0 then [MUNMAP (ub_map b) (ub_size b)] else []) @ [FREE_BO (ub_handle b)]"])
      (use assms True in \<open>auto simp: vc4_bo_unreference_def vc4_bo_free_def vc4_call_def heap_effect_def
         no_submit_def Let_def\<close>)
next
  case False
  then have "ub_ref b - 1 \<noteq> 0" by simp
  then show thesis
    by (intro that [of "vc_bo_list vc4" "[]"])
      (use assms False in \<open>simp_all add: vc4_bo_unreference_def heap_effect_def Let_def\<close>)
qed

text \<open>Dropping the owner's reference, and dropping the job's.\<close>

lemma heap_okI:
  "distinct ps \<Longrightarrow> set ps \<subseteq> dom h \<Longrightarrow> own \<subseteq> dom h \<Longrightarrow>
     (\<And>p b. h p = Some b \<Longrightarrow> bo_ref_ok ps own p b) \<Longrightarrow> heap_ok ps own h"
  by (simp add: heap_ok_def)

lemma heap_okD:
  assumes "heap_ok ps own h"
  shows "distinct ps" "set ps \<subseteq> dom h" "own \<subseteq> dom h" "h p = Some b \<Longrightarrow> bo_ref_ok ps own p b"
  using assms by (simp_all add: heap_ok_def)

abbreviation drop_ref :: "u32 \<Rightarrow> user_bo \<Rightarrow> (u32 \<rightharpoonup> user_bo) \<Rightarrow> (u32 \<rightharpoonup> user_bo)" where
  "drop_ref p b h \<equiv> h(p := if ub_ref b = 1 then None else Some (b\<lparr>ub_ref := ub_ref b - 1\<rparr>))"

lemma heap_ok_drop_ref:
  assumes ok: "heap_ok ps own h" and b: "h p = Some b" and p: "p \<noteq> 0"
    and ref: "ub_ref b = 1 \<and> p \<notin> set ps' \<and> p \<notin> own' \<or>
      ub_ref b = 2 \<and> (p \<in> set ps' \<longrightarrow> p \<notin> own')"
    and sub: "distinct ps'" "set ps' \<subseteq> set ps" "own' \<subseteq> own"
    and other: "\<And>q. q \<noteq> p \<Longrightarrow> q \<in> set ps \<longleftrightarrow> q \<in> set ps'"
  shows "heap_ok ps' own' (drop_ref p b h)"
proof (rule heap_okI [OF sub(1)])
  have nd: "dom (drop_ref p b h) = (if ub_ref b = 1 then dom h - {p} else dom h)" using b by auto
  show "set ps' \<subseteq> dom (drop_ref p b h)" "own' \<subseteq> dom (drop_ref p b h)"
    using ref sub heap_okD(2,3) [OF ok] unfolding nd by auto
  fix q b' assume q: "drop_ref p b h q = Some b'"
  show "bo_ref_ok ps' own' q b'"
  proof (cases "q = p")
    case True
    then have "b' = b\<lparr>ub_ref := ub_ref b - 1\<rparr>" "ub_ref b = 2" using q ref by (auto split: if_splits)
    then show ?thesis using ref p True by (auto simp: bo_ref_ok_def)
  next
    case False
    then have "bo_ref_ok ps own q b'" using q heap_okD(4) [OF ok] by simp
    then show ?thesis using other [OF False] sub(3) by (auto simp: bo_ref_ok_def split: if_splits)
  qed
qed

lemma heap_ok_disown:
  assumes ok: "heap_ok ps own h" and "p \<in> own" and b: "h p = Some b"
  shows "heap_ok ps (own - {p}) (drop_ref p b h)"
proof -
  have "bo_ref_ok ps own p b" by (rule heap_okD(4) [OF ok b])
  then have "if p \<in> set ps then ub_ref b = 2 else ub_ref b = 1" "p \<noteq> 0"
    using assms(2) by (simp_all add: bo_ref_ok_def split: if_splits)
  then show ?thesis
    by (intro heap_ok_drop_ref [OF ok b]) (use heap_okD(1) [OF ok] in \<open>auto split: if_splits\<close>)
qed

lemma heap_ok_release:
  assumes ok: "heap_ok (p # ps) own h" and b: "h p = Some b"
  shows "heap_ok ps own (drop_ref p b h)" "keeps_bos own h (drop_ref p b h)"
proof -
  have "bo_ref_ok (p # ps) own p b" by (rule heap_okD(4) [OF ok b])
  then have *: "ub_ref b = 2 \<or> ub_ref b = 1 \<and> p \<notin> own" "p \<noteq> 0" by (simp_all add: bo_ref_ok_def)
  have ps: "p \<notin> set ps" "distinct ps" using heap_okD(1) [OF ok] by simp_all
  show "heap_ok ps own (drop_ref p b h)"
    by (rule heap_ok_drop_ref [OF ok b *(2)]) (use * ps in auto)
  show "keeps_bos own h (drop_ref p b h)"
    unfolding keeps_bos_def
  proof (intro ballI allI impI)
    fix q b' assume q: "q \<in> own" "h q = Some b'"
    show "\<exists>r. drop_ref p b h q = Some (b'\<lparr>ub_ref := r\<rparr>)"
    proof (cases "q = p")
      case True
      then show ?thesis using * q b by (intro exI [of _ "ub_ref b - 1"]) auto
    next
      case False
      then show ?thesis using q by (intro exI [of _ "ub_ref b'"]) simp
    qed
  qed
qed

lemma unreference_disown:
  assumes ok: "gl_ok N M rb rr rh cs rs ps own vc4" and p: "p \<in> own" "p \<noteq> vc_prog_fs vc4" "p \<noteq> vc_uniforms vc4"
  shows "returns (vc4_bo_unreference p vc4) (\<lambda>vc4'. gl_ok N M rb rr rh cs rs ps (own - {p}) vc4' \<and>
    vc_needs_flush vc4' = vc_needs_flush vc4 \<and> vc_framebuffer vc4' = vc_framebuffer vc4)"
proof -
  have h: "heap_ok ps own (vc_bos vc4)" and st: "gl_static own vc4"
    using ok by (simp_all add: gl_ok_def bos_ok_def)
  obtain b where b: "vc_bos vc4 p = Some b" using heap_okD(3) [OF h] p(1) by blast
  have pz: "p \<noteq> 0" using heap_okD(4) [OF h b] by (simp add: bo_ref_ok_def)
  obtain l c where 1: "vc4_bo_unreference p vc4 = Some (heap_effect (drop_ref p b (vc_bos vc4)) l c vc4)"
    "no_submit c"
    by (rule unreference_effect [OF b pz])
  have ps: "ub_ref b \<noteq> 1" if "p \<in> set ps"
    using heap_okD(4) [OF h b] that p(1) by (auto simp: bo_ref_ok_def)
  have "gl_ok N M rb rr rh cs rs ps (own - {p}) (heap_effect (drop_ref p b (vc_bos vc4)) l c vc4)"
  proof (rule gl_ok_heap [OF ok heap_ok_disown [OF h p(1) b] 1(2)])
    show "fs_ok (heap_effect (drop_ref p b (vc_bos vc4)) l c vc4)"
      using st p(2) by (simp add: gl_static_def fs_ok_def)
  qed (use st p b ps in \<open>auto simp: gl_static_def\<close>)
  then show ?thesis using 1(1) by simp
qed

lemma gl_ok_own_mono:
  assumes "gl_ok N M rb rr rh cs rs ps own' vc4" "own \<subseteq> own'" "vc_prog_fs vc4 \<in> own" "vc_uniforms vc4 \<in> own"
  shows "gl_ok N M rb rr rh cs rs ps own vc4"
proof -
  have h: "heap_ok ps own' (vc_bos vc4)" using assms(1) by (simp add: gl_ok_def bos_ok_def)
  have "heap_ok ps own (vc_bos vc4)"
  proof (rule heap_okI)
    show "bo_ref_ok ps own p b" if "vc_bos vc4 p = Some b" for p b
      using heap_okD(4) [OF h that] assms(2) by (auto simp: bo_ref_ok_def split: if_splits)
  qed (use heap_okD(1-3) [OF h] assms(2) in auto)
  then show ?thesis using assms unfolding gl_ok_def gl_static_def bos_ok_def by simp
qed

text \<open>What the library needs of an allocation: the structure is new, and the kernel creates and maps
  the buffer.\<close>

definition answers_ok :: "bo_answers \<Rightarrow> 'r vc4_context \<Rightarrow> bool" where
  "answers_ok a vc4 \<longleftrightarrow> an_malloc a \<noteq> 0 \<and> vc_bos vc4 (an_malloc a) = None \<and> an_create a \<and> an_mmap a \<and>
     an_offset a \<noteq> 0 \<and> 12 \<le> length (an_mem a)"

lemma heap_ok_alloc:
  assumes ok: "heap_ok ps own h" and p: "h p = None" "p \<noteq> 0" and "ub_ref b = 1"
  shows "heap_ok ps (insert p own) (h(p \<mapsto> b))"
proof (rule heap_okI [OF heap_okD(1) [OF ok]])
  have np: "p \<notin> set ps" using heap_okD(2) [OF ok] p(1) by auto
  fix q b' assume q: "(h(p \<mapsto> b)) q = Some b'"
  show "bo_ref_ok ps (insert p own) q b'"
  proof (cases "q = p")
    case True
    then show ?thesis using q np assms by (auto simp: bo_ref_ok_def)
  next
    case False
    then show ?thesis using q heap_okD(4) [OF ok, of q b'] by (auto simp: bo_ref_ok_def split: if_splits)
  qed
qed (use heap_okD(2,3) [OF ok] in auto)

lemma alloc_ok:
  assumes ok: "gl_ok N M rb rr rh cs rs ps own vc4" and p: "vc_bos vc4 p = None" "p \<noteq> 0" "ub_ref b = 1"
    and c: "no_submit c"
  shows "gl_ok N M rb rr rh cs rs ps (insert p own) (heap_effect ((vc_bos vc4)(p \<mapsto> b)) l c vc4)"
proof -
  have h: "heap_ok ps own (vc_bos vc4)" and st: "gl_static own vc4"
    using ok by (simp_all add: gl_ok_def bos_ok_def)
  have "vc_prog_fs vc4 \<noteq> p" using heap_okD(3) [OF h] st p(1) by (auto simp: gl_static_def)
  moreover have "p \<notin> set ps" using heap_okD(2) [OF h] p(1) by auto
  ultimately show ?thesis
    by (intro gl_ok_heap [OF ok heap_ok_alloc [OF h p] c])
      (use st in \<open>auto simp: gl_static_def fs_ok_def\<close>)
qed

lemma get_ibo_ok:
  assumes ok: "gl_ok N M rb rr rh cs rs ps own vc4" and a: "answers_ok a vc4"
  shows "returns (get_ibo a vc4) (\<lambda>(p, vc4'). p = an_malloc a \<and>
    gl_ok N M rb rr rh cs rs ps (insert p own) vc4' \<and> p \<notin> own \<and> vc_bcl vc4' = vc_bcl vc4 \<and>
    vc_needs_flush vc4' = vc_needs_flush vc4 \<and> vc_framebuffer vc4' = vc_framebuffer vc4 \<and>
    vc_prog_fs vc4' = vc_prog_fs vc4 \<and> vc_uniforms vc4' = vc_uniforms vc4 \<and>
    vc_shader_rec_count vc4' = vc_shader_rec_count vc4)"
proof -
  let ?p = "an_malloc a"
  have new: "?p \<notin> own" using ok a by (auto simp: answers_ok_def gl_ok_def bos_ok_def heap_ok_def)
  let ?ix = "[0, 1, 2, 3, 4, 5, 6, 7, 8, 9, 10, 11 :: u8]"
  obtain m where m: "store_bytes (an_mem a) 0 ?ix = Some m"
    using a store_bytes_defined [of "an_mem a" 0 ?ix] by (auto simp: answers_ok_def)
  let ?b = "\<lparr>ub_ref = 1, ub_size = ROUNDUP 12 4096, ub_handle = an_handle a, ub_map = an_offset a, ub_mem = m\<rparr>"
  let ?c = "[CREATE_BO (ROUNDUP 12 4096) 0, MMAP_BO (an_handle a)]"
  have "get_ibo a vc4 = Some (?p, heap_effect ((vc_bos vc4)(?p \<mapsto> ?b)) (vc_bo_list vc4 @ [?p]) ?c vc4)"
    using a m by (simp add: get_ibo_def answers_ok_def vc4_bo_alloc_def vc4_bo_map_def bo_store_def
        vc4_call_def heap_effect_def Let_def)
  moreover have "gl_ok N M rb rr rh cs rs ps (insert ?p own)
      (heap_effect ((vc_bos vc4)(?p \<mapsto> ?b)) (vc_bo_list vc4 @ [?p]) ?c vc4)"
    by (rule alloc_ok [OF ok]) (use a in \<open>auto simp: answers_ok_def no_submit_def\<close>)
  ultimately show ?thesis using new by simp
qed

section \<open>Draws\<close>

text \<open>What the kernel asks of a draw: the indices lie in the one page of the index buffer, the vertex
  numbers do not wrap around.\<close>

definition draw_fits :: "pipe_draw_info \<Rightarrow> bool" where
  "draw_fits info \<longleftrightarrow>
     (if di_index_size info = 0 then di_count info \<le> di_count info + di_start info
      else
        let index_size = ucast (di_index_size info); off = di_start info * index_size in
        (di_index_size info = 1 \<or> di_index_size info = 2) \<and> di_mode info < 16 \<and> off \<le> 4096 \<and>
        di_count info \<le> (4096 - off) div index_size)"

lemma mode_bits:
  "drop_bit 4 (m OR 0x10 :: u8) \<noteq> 0" "m < 16 \<Longrightarrow> drop_bit 4 (m :: u8) = 0"
proof -
  have "bit (drop_bit 4 (m OR 0x10)) 0" by (simp add: bit_drop_bit_eq bit_or_iff bit_numeral_iff)
  then show "drop_bit 4 (m OR 0x10 :: u8) \<noteq> 0" by auto
  assume "m < 16"
  then have "unat m div 16 = 0" by (simp add: word_less_nat_alt)
  then have "unat (drop_bit 4 m) = 0" by (simp add: drop_bit_eq_div unat_div)
  then show "drop_bit 4 m = 0" by (simp only: unat_eq_zero)
qed

lemma draw_fits_cmd:
  assumes "draw_fits info" "di_index_size info \<noteq> 0" "unat h < n" "k \<noteq> 0"
  shows "bin_cmd_ok (lib_sizes n) k (IndexedPrim h h' (di_mode info OR
      (if di_index_size info = 2 then VC4_INDEX_BUFFER_U16 else VC4_INDEX_BUFFER_U8))
      (di_count info) (di_start info * ucast (di_index_size info)) mx)"
  using assms mode_bits [of "di_mode info"] by (auto simp: draw_fits_def Let_def)

text \<open>A relocation is opened and the packet behind it is emitted.\<close>

lemma start_reloc_emit:
  assumes c1: "cl_emit [packet_code VC4_PACKET_GEM_HANDLES] cl = Some c1" "cl_fit N M r c1" "cl_contents c1 = C"
    and room: "length bs + 8 \<le> r"
  obtains c0 c2 where "cl_start_reloc cl = Some (c0, length C)" "cl_emit bs c0 = Some c2"
    "cl_fit (N + (length bs + 8)) M (r - (length bs + 8)) c2"
    "cl_contents c2 = C @ u32_bytes 0 @ u32_bytes 0 @ bs"
proof -
  have "length (u32_bytes 0 @ u32_bytes 0 @ bs) \<le> r" using room by simp
  from cl_emit_fit [OF c1(2) this] obtain c2 where
    c2: "cl_emit (u32_bytes 0 @ u32_bytes 0 @ bs) c1 = Some c2" "cl_fit (N + (length bs + 8)) M (r - (length bs + 8)) c2"
    "cl_contents c2 = C @ u32_bytes 0 @ u32_bytes 0 @ bs"
    using c1(3) by (auto elim!: returnsE simp: add.commute)
  obtain c0 where c0: "cl_emit (u32_bytes 0 @ u32_bytes 0) c1 = Some c0" "cl_emit bs c0 = Some c2"
    using c2(1) cl_emit_append [of "u32_bytes 0 @ u32_bytes 0" c1 bs] by (auto simp: Option.bind_eq_Some_conv)
  have "cl_next c1 = length C" using cl_contents_length [OF c1(2)] c1(3) by simp
  then have "cl_start_reloc cl = Some (c0, length C)"
    using c1(1) c0(1) by (simp add: cl_start_reloc_def cl_emits del: packet_code.simps)
  then show thesis using that c0(2) c2(2,3) by blast
qed

lemma emit_indexed_ok:
  assumes ok: "gl_ok N M rb rr rh cs rs ps own vc4" and room: "23 \<le> rb" "4 \<le> rh" "N + 23 < 2 ^ 32"
    and p: "p \<in> own" and fits: "draw_fits info" "di_index_size info \<noteq> 0"
    and cnt: "vc_shader_rec_count vc4 \<noteq> 0"
  shows "returns (emit_indexed p (di_index_size info) info vc4) (\<lambda>vc4'.
    (\<exists>cs' ps'. gl_ok (N + 23) M (rb - 23) rr (rh - 4) cs' rs ps' own vc4') \<and>
    (\<exists>vc2 bcl. same_but_bos vc4 vc2 \<and> vc4' = vc2\<lparr>vc_bcl := bcl\<rparr>))"
proof -
  let ?C = "cl_contents (vc_bcl vc4)" and ?is = "di_index_size info"
  let ?off = "di_start info * ucast ?is"
  let ?m = "di_mode info OR (if ?is = 2 then VC4_INDEX_BUFFER_U16 else VC4_INDEX_BUFFER_U8)"
  let ?G = "packet_code VC4_PACKET_GEM_HANDLES" and ?I = "packet_code VC4_PACKET_GL_INDEXED_PRIMITIVE"
  note G = ok [unfolded gl_ok_def]
  have r: "1 \<le> rb" using room(1) by simp
  have fit1: "cl_fit N M rb (vc_bcl vc4)" using G by simp
  obtain c1 where c1: "cl_emit [?G] (vc_bcl vc4) = Some c1" "cl_fit (N + 1) M (rb - 1) c1" "cl_contents c1 = ?C @ [?G]"
    using cl_emit_fit [OF fit1, of "[?G]"] r by (auto elim!: returnsE)
  let ?B = "u32_bytes 0 @ [?I, ?m] @ u32_bytes (di_count info)"
  obtain c0 c2 where c2: "cl_start_reloc (vc_bcl vc4) = Some (c0, length (?C @ [?G]))"
    "cl_emit ([?I, ?m] @ u32_bytes (di_count info)) c0 = Some c2"
    "cl_fit (N + 15) M (rb - 15) c2" "cl_contents c2 = (?C @ [?G]) @ u32_bytes 0 @ ?B"
    by (rule start_reloc_emit [OF c1, of "[?I, ?m] @ u32_bytes (di_count info)"])
      (use room(1) in \<open>simp_all add: add.commute [of N]\<close>)
  have bos: "bos_ok ps own vc4" "hs_fit N M rh vc4" using G by simp_all
  have r2: "N < 2 ^ 32" "4 \<le> rb - 15" "4 \<le> rb - 19" using room by simp_all
  obtain c3 vc2 ps' h where 3: "cl_reloc c2 (length (?C @ [?G])) p ?off vc4 = Some (c3, length (?C @ [?G]) + 4, vc2)"
    "bos_ok ps' own vc2" "hs_fit (N + 4) M (rh - 4) vc2" "same_but_bos vc4 vc2" "unat h < length ps'"
    "length ps \<le> length ps'" "cl_fit (N + 15 + 4) M (rb - 15 - 4) c3"
    "cl_contents c3 = (?C @ [?G]) @ u32_bytes h @ ?B @ u32_bytes ?off"
    using cl_reloc_ok [OF bos r2(1) room(2) bos_ok_own [OF bos(1) p] c2(3) r2(2) c2(4), of ?off]
    by (auto elim!: returnsE)
  let ?mx = "vc_max_index vc2" and ?cs = "cs @ [IndexedPrim h 0 ?m (di_count info) ?off (vc_max_index vc2)]"
  obtain c4 where c4: "cl_emit (u32_bytes ?mx) c3 = Some c4" "cl_fit (N + 23) M (rb - 23) c4"
    "cl_contents c4 = cl_contents c3 @ u32_bytes ?mx"
    using cl_emit_fit [OF 3(7), of "u32_bytes ?mx"] r2(3) by (auto elim!: returnsE simp: add.commute [of N])
  have "count_states cs \<noteq> 0" using G cnt by (simp add: gl_cmds_def unat_eq_zero)
  then have cmd: "bin_cmd_ok (lib_sizes (length ps')) (count_states cs) (IndexedPrim h 0 ?m (di_count info) ?off ?mx)"
    by (intro draw_fits_cmd [OF fits 3(5)])
  have "gl_ok (N + 23) M rb rr (rh - 4) cs rs ps' own vc2"
    by (rule gl_ok_mono [OF gl_ok_bos [OF ok 3(2,3,4,6)]]) simp_all
  then have "gl_ok (N + 23) M (rb - 23) rr (rh - 4) ?cs rs ps' own (vc2\<lparr>vc_bcl := c4\<rparr>)"
    using c4(2,3) 3(8) cmd same_but_bos_fields(1) [OF 3(4)] by (simp add: gl_defs del: bin_cmd_ok.simps)
  then show ?thesis using c2(1,2) 3(1,4) c4(1) by (auto simp: emit_indexed_def cl_emits Let_def)
qed

lemma draw_indexed_ok:
  assumes ok: "gl_ok N M rb rr rh cs rs ps own vc4" and room: "23 \<le> rb" "4 \<le> rh" "N + 23 < 2 ^ 32"
    and a: "answers_ok a vc4" and fits: "draw_fits info" "di_index_size info \<noteq> 0"
    and cnt: "vc_shader_rec_count vc4 \<noteq> 0"
  shows "returns (draw_indexed a info vc4) (\<lambda>vc4'. (\<exists>cs' ps'.
    gl_ok (N + 23) M (rb - 23) rr (rh - 4) cs' rs ps' own vc4') \<and>
    vc_needs_flush vc4' = vc_needs_flush vc4 \<and> vc_framebuffer vc4' = vc_framebuffer vc4)"
proof -
  let ?p = "an_malloc a" and ?own = "insert (an_malloc a) own"
  obtain vc1 where 1: "get_ibo a vc4 = Some (?p, vc1)" "gl_ok N M rb rr rh cs rs ps ?own vc1" "?p \<notin> own"
    "vc_bcl vc1 = vc_bcl vc4" "vc_needs_flush vc1 = vc_needs_flush vc4" "vc_framebuffer vc1 = vc_framebuffer vc4"
    "vc_prog_fs vc1 = vc_prog_fs vc4" "vc_uniforms vc1 = vc_uniforms vc4"
    "vc_shader_rec_count vc1 = vc_shader_rec_count vc4"
    using get_ibo_ok [OF ok a] by (auto elim!: returnsE)
  have "?p \<in> ?own" "vc_shader_rec_count vc1 \<noteq> 0" using cnt 1(9) by simp_all
  from emit_indexed_ok [OF 1(2) room this(1) fits this(2)] obtain cs' ps' vc2 bcl where
    2: "emit_indexed ?p (di_index_size info) info vc1 = Some (vc2\<lparr>vc_bcl := bcl\<rparr>)" "same_but_bos vc1 vc2"
    "gl_ok (N + 23) M (rb - 23) rr (rh - 4) cs' rs ps' ?own (vc2\<lparr>vc_bcl := bcl\<rparr>)"
    by (auto elim!: returnsE)
  note F = same_but_bos_fields [OF 2(2)]
  let ?vc3 = "vc2\<lparr>vc_bcl := bcl\<rparr>"
  have st: "vc_prog_fs vc4 \<in> own" "vc_uniforms vc4 \<in> own" using ok by (simp_all add: gl_ok_def gl_static_def)
  have eq: "draw_indexed a info vc4 = (if di_has_user_indices info then vc4_bo_unreference ?p ?vc3 else Some ?vc3)"
    using 1(1) 2(1) fits by (auto simp: draw_indexed_def draw_fits_def Let_def)
  have p: "?p \<noteq> vc_prog_fs vc4" "?p \<noteq> vc_uniforms vc4" "own = ?own - {?p}" using st 1(3) by auto
  show ?thesis
  proof (cases "di_has_user_indices info")
    case True
    have "returns (vc4_bo_unreference ?p ?vc3) (\<lambda>vc4'.
        gl_ok (N + 23) M (rb - 23) rr (rh - 4) cs' rs ps' (?own - {?p}) vc4' \<and>
        vc_needs_flush vc4' = vc_needs_flush ?vc3 \<and> vc_framebuffer vc4' = vc_framebuffer ?vc3)"
      by (rule unreference_disown [OF 2(3)]) (use p F 1(7,8) in simp_all)
    then show ?thesis using eq True p(3) F 1(5,6) by (auto elim!: returns_mono)
  next
    case False
    have "gl_ok (N + 23) M (rb - 23) rr (rh - 4) cs' rs ps' own ?vc3"
      by (rule gl_ok_own_mono [OF 2(3)]) (use st F 1(7,8) in auto)
    then show ?thesis using eq False F 1(5,6) by auto
  qed
qed

lemma draw_array_ok:
  assumes ok: "gl_ok N M rb rr rh cs rs ps own vc4" and "23 \<le> rb"
    and "draw_fits info" "di_index_size info = 0" "vc_shader_rec_count vc4 \<noteq> 0"
  shows "returns (draw_array info vc4) (\<lambda>vc4'. (\<exists>cs' ps'.
    gl_ok (N + 23) M (rb - 23) rr (rh - 4) cs' rs ps' own vc4') \<and>
    vc_needs_flush vc4' = vc_needs_flush vc4 \<and> vc_framebuffer vc4' = vc_framebuffer vc4)"
proof -
  have "returns (cl_emit (33 # di_mode info # u32_bytes (di_count info) @ u32_bytes (di_start info)) (vc_bcl vc4))
    (\<lambda>bcl. \<exists>cs'. gl_ok (N + 23) M (rb - 23) rr (rh - 4) cs' rs ps own (vc4\<lparr>vc_bcl := bcl\<rparr>))"
  proof (rule emit_rules(6) [OF ok])
    fix bcl cs' assume "gl_ok (N + 10) M (rb - 10) rr rh cs' rs ps own (vc4\<lparr>vc_bcl := bcl\<rparr>)"
    then have "gl_ok (N + 23) M (rb - 23) rr (rh - 4) cs' rs ps own (vc4\<lparr>vc_bcl := bcl\<rparr>)"
      by (rule gl_ok_mono) simp_all
    then show "\<exists>cs'. gl_ok (N + 23) M (rb - 23) rr (rh - 4) cs' rs ps own (vc4\<lparr>vc_bcl := bcl\<rparr>)" ..
  qed (use assms in \<open>simp_all add: draw_fits_def\<close>)
  then show ?thesis by (auto simp: draw_array_def cl_emits elim!: returns_mono)
qed

lemma init_fbo_ok:
  "gl_ok N M rb rr rh cs rs ps own vc4 \<Longrightarrow> gl_ok N M rb rr rh cs rs ps own (vc4_init_context_fbo vc4)"
  by (simp add: vc4_init_context_fbo_def gl_defs)

text \<open>The discipline the application keeps for a draw: its vertex buffer has not been destroyed.\<close>

definition draw_ok :: "u32 set \<Rightarrow> bo_answers \<Rightarrow> pipe_draw_info \<Rightarrow> 'r vc4_context \<Rightarrow> bool" where
  "draw_ok own a info vc4 \<longleftrightarrow> draw_fits info \<and> (di_index_size info \<noteq> 0 \<longrightarrow> answers_ok a vc4) \<and>
     (case vb_resource (vc_vertexbuf vc4) of None \<Rightarrow> False | Some rsc \<Rightarrow> rs_bo rsc \<in> own)"

lemma gl_ok_dirty_zero:
  "gl_ok N M rb rr rh cs rs ps own vc4 \<Longrightarrow> vc_shader_rec_count vc4 \<noteq> 0 \<Longrightarrow>
     gl_ok N M rb rr rh cs rs ps own (vc4\<lparr>vc_dirty := 0\<rparr>)"
  by (simp add: gl_defs)

lemma optional_nv_ok:
  assumes ok: "gl_ok N M 220 28 80 cs rs ps own vc4" and "N + 28 < 2 ^ 32" and d: "draw_ok own a info vc4"
  shows "returns (if vc_dirty vc4 AND VC4_DIRTY_VTXBUF \<noteq> 0 then vc4_emit_nv_shader_state vc4 else Some vc4)
    (\<lambda>vc4'. (\<exists>cs' rs' ps'. gl_ok (N + 28) M 215 0 68 cs' rs' ps' own vc4') \<and> vc_shader_rec_count vc4' \<noteq> 0 \<and>
      (vc_needs_flush vc4 \<longrightarrow> vc_needs_flush vc4') \<and> vc_framebuffer vc4' = vc_framebuffer vc4 \<and>
      dom (vc_bos vc4') = dom (vc_bos vc4))"
proof (cases "vc_dirty vc4 AND VC4_DIRTY_VTXBUF \<noteq> 0")
  case True
  obtain rsc where "vb_resource (vc_vertexbuf vc4) = Some rsc" "rs_bo rsc \<in> own"
    using d by (auto simp: draw_ok_def split: option.splits)
  from vc4_emit_nv_shader_state_ok [OF ok _ _ _ assms(2) this] True show ?thesis by simp
next
  case False
  have "gl_ok (N + 28) M 215 0 68 cs rs ps own vc4" by (rule gl_ok_mono [OF ok]) simp_all
  moreover have "vc_shader_rec_count vc4 \<noteq> 0" using ok False by (auto simp: gl_ok_def gl_static_def)
  ultimately show ?thesis using False by auto
qed

definition op_room :: nat where "op_room = 128"

lemma vc4_draw_vbo_ok:
  assumes ok: "gl_ok N M rb rr rh cs rs ps own vc4" and mem: "mem_ok mem"
    and le: "2 * N + 550 \<le> M" "M < 2 ^ 30" and d: "draw_ok own a info vc4"
  shows "returns (vc4_draw_vbo fl mem a info vc4) (\<lambda>vc4'. (\<exists>cs' rs' ps'.
    gl_ok (N + op_room) M 0 0 0 cs' rs' ps' own vc4') \<and> vc_needs_flush vc4' \<and>
    vc_framebuffer vc4' = vc_framebuffer vc4)"
proof -
  let ?vc0 = "vc4_init_context_fbo vc4"
  have ok0: "gl_ok N M rb rr rh cs rs ps own ?vc0" by (rule init_fbo_ok [OF ok])
  obtain vc1 where 1: "vc4_get_draw_cl_space mem ?vc0 = Some vc1" "gl_ok N M 275 28 80 cs rs ps own vc1"
    "same_draw ?vc0 vc1" "vc_tile_width vc1 \<noteq> 0" "vc_tile_height vc1 \<noteq> 0"
    using vc4_get_draw_cl_space_ok [OF ok0 mem le] by (auto elim!: returnsE simp: vc4_init_context_fbo_def)
  obtain vc2 cs2 where 2: "vc4_start_draw mem vc1 = Some vc2" "gl_ok (N + 19) M 256 28 80 cs2 rs ps own vc2"
    "same_draw vc1 vc2" "vc_needs_flush vc2"
    using vc4_start_draw_ok [OF 1(2) mem le 1(4,5)] by (auto elim!: returnsE)
  obtain vc3 where 3: "vc4_update_compiled_shaders (di_mode info) vc2 = Some vc3"
    "gl_ok (N + 19) M 256 28 80 cs2 rs ps own vc3" "same_draw vc2 vc3"
    using vc4_update_compiled_shaders_ok [OF 2(2)] by (auto elim!: returnsE)
  obtain vc5 cs5 where 5: "vc4_emit_state fl vc3 = Some vc5" "gl_ok (N + 55) M 220 28 80 cs5 rs ps own vc5"
    "same_draw vc3 vc5"
    using vc4_emit_state_ok [OF 3(2), of fl] by (auto elim!: returnsE simp: add.commute [of N])
  have "same_draw ?vc0 vc5" using 1(3) 2(3) 3(3) 5(3) same_draw_trans by blast
  then have same: "vc_vertexbuf vc5 = vc_vertexbuf vc4" "vc_framebuffer vc5 = vc_framebuffer vc4"
    "dom (vc_bos vc5) = dom (vc_bos vc4)"
    by (simp_all add: same_draw_def vc4_init_context_fbo_def)
  have nf: "vc_needs_flush vc5" using 2(4) 3(3) 5(3) by (simp add: same_draw_def)
  have d5: "draw_ok own a info vc5" using d same by (auto simp: draw_ok_def answers_ok_def domIff [symmetric])
  have n: "N + 55 + 28 < 2 ^ 32" "N + 83 + 23 < 2 ^ 32" using le by simp_all
  obtain vc6 cs6 rs6 ps6 where 6: "(if vc_dirty vc5 AND VC4_DIRTY_VTXBUF \<noteq> 0
      then vc4_emit_nv_shader_state vc5 else Some vc5) = Some vc6"
    "gl_ok (N + 83) M 215 0 68 cs6 rs6 ps6 own vc6" "vc_shader_rec_count vc6 \<noteq> 0" "vc_needs_flush vc6"
    "vc_framebuffer vc6 = vc_framebuffer vc4" "dom (vc_bos vc6) = dom (vc_bos vc5)"
    using optional_nv_ok [OF 5(2) n(1) d5] nf same(2) by (fastforce elim!: returnsE simp: add.commute [of N])
  let ?vc7 = "vc6\<lparr>vc_dirty := 0\<rparr>"
  have ok7: "gl_ok (N + 83) M 215 0 68 cs6 rs6 ps6 own ?vc7" by (rule gl_ok_dirty_zero [OF 6(2,3)])
  have d7: "draw_fits info" "di_index_size info \<noteq> 0 \<Longrightarrow> answers_ok a ?vc7"
    using d5 6(6) by (auto simp: draw_ok_def answers_ok_def domIff [symmetric])
  have "returns (if di_index_size info \<noteq> 0 then draw_indexed a info ?vc7 else draw_array info ?vc7) (\<lambda>vc4'.
    (\<exists>cs' ps'. gl_ok (N + 83 + 23) M (215 - 23) 0 (68 - 4) cs' rs6 ps' own vc4') \<and>
    vc_needs_flush vc4' = vc_needs_flush ?vc7 \<and> vc_framebuffer vc4' = vc_framebuffer ?vc7)"
    using draw_indexed_ok [OF ok7 _ _ n(2) d7(2) d7(1)] draw_array_ok [OF ok7 _ d7(1)] 6(3)
    by simp
  then have "returns (if di_index_size info \<noteq> 0 then draw_indexed a info ?vc7 else draw_array info ?vc7) (\<lambda>vc4'.
    (\<exists>cs' rs' ps'. gl_ok (N + op_room) M 0 0 0 cs' rs' ps' own vc4') \<and> vc_needs_flush vc4' \<and>
    vc_framebuffer vc4' = vc_framebuffer vc4)"
  proof (rule returns_mono, elim conjE exE)
    fix x cs' ps'
    assume "gl_ok (N + 83 + 23) M (215 - 23) 0 (68 - 4) cs' rs6 ps' own x"
    then have "gl_ok (N + op_room) M 0 0 0 cs' rs6 ps' own x" by (rule gl_ok_mono) (simp_all add: op_room_def)
    moreover assume "vc_needs_flush x = vc_needs_flush ?vc7" "vc_framebuffer x = vc_framebuffer ?vc7"
    ultimately show "(\<exists>cs' rs' ps'. gl_ok (N + op_room) M 0 0 0 cs' rs' ps' own x) \<and> vc_needs_flush x \<and>
      vc_framebuffer x = vc_framebuffer vc4"
      using 6(4,5) by auto
  qed
  then show ?thesis
    using 1(1) 2(1) 3(1) 5(1) 6(1) by (simp add: vc4_draw_vbo_def Let_def)
qed

section \<open>Jobs\<close>

lemma unreference_bos_ok:
  assumes "heap_ok ps own (vc_bos vc4)" "\<And>k. k < length ps \<Longrightarrow> get_unaligned_32 m (4 * (i + k)) = Some (ps ! k)"
  shows "\<exists>h l c. unreference_bos m [i..<i + length ps] vc4 = Some (heap_effect h l c vc4) \<and>
    heap_ok [] own h \<and> keeps_bos own (vc_bos vc4) h \<and> no_submit c"
  using assms
proof (induction ps arbitrary: i vc4)
  case Nil
  have "vc4 = heap_effect (vc_bos vc4) (vc_bo_list vc4) [] vc4" by (simp add: heap_effect_def)
  moreover have "keeps_bos own (vc_bos vc4) (vc_bos vc4)"
    using refs_only_refl [of "vc_bos vc4"] unfolding keeps_bos_def refs_only_def by blast
  ultimately show ?case using Nil by fastforce
next
  case (Cons p ps)
  obtain b where b: "vc_bos vc4 p = Some b" using heap_okD(2) [OF Cons.prems(1)] by auto
  have pz: "p \<noteq> 0" using heap_okD(4) [OF Cons.prems(1) b] by (simp add: bo_ref_ok_def)
  let ?h = "drop_ref p b (vc_bos vc4)"
  obtain l c where 1: "vc4_bo_unreference p vc4 = Some (heap_effect ?h l c vc4)" "no_submit c"
    by (rule unreference_effect [OF b pz])
  note rel = heap_ok_release [OF Cons.prems(1) b]
  have get: "get_unaligned_32 m (4 * (Suc i + k)) = Some (ps ! k)" if "k < length ps" for k
    using Cons.prems(2) [of "Suc k"] that by simp
  have hd: "get_unaligned_32 m (4 * i) = Some p" using Cons.prems(2) [of 0] by simp
  have "heap_ok ps own (vc_bos (heap_effect ?h l c vc4))" using rel(1) by simp
  from Cons.IH [OF this get] obtain h' l' c' where
    2: "unreference_bos m [Suc i..<Suc i + length ps] (heap_effect ?h l c vc4) =
      Some (heap_effect h' l' c' (heap_effect ?h l c vc4))"
    "heap_ok [] own h'" "keeps_bos own ?h h'" "no_submit c'"
    unfolding heap_effect_fields by blast
  have "[i..<i + length (p # ps)] = i # [Suc i..<Suc i + length ps]"
    by (simp add: upt_conv_Cons del: upt_Suc)
  then have "unreference_bos m [i..<i + length (p # ps)] vc4 = Some (heap_effect h' l' (c @ c') vc4)"
    using hd 1(1) 2(1) by simp
  then show ?case
    using 2(2,4) 1(2) keeps_bos_trans [OF rel(2) 2(3)] by (metis no_submit_simps(2))
qed

lemma vc4_job_reset_ok:
  assumes ok: "gl_ok N M rb rr rh cs rs ps own vc4" and N: "N < 2 ^ 32"
  shows "returns (vc4_job_reset vc4) (\<lambda>vc4'. gl_ok 0 M 0 0 0 [] [] [] own vc4' \<and> \<not> vc_needs_flush vc4' \<and>
    vc_framebuffer vc4' = vc_framebuffer vc4)"
proof -
  note G = ok [unfolded gl_ok_def]
  have bos: "bos_ok ps own vc4" "hs_fit N M rh vc4" using G by simp_all
  note cnt = bos_ok_count [OF bos N]
  have heap: "heap_ok ps own (vc_bos vc4)" using bos(1) by (simp add: bos_ok_def)
  have "get_unaligned_32 (cl_buf (vc_bo_pointers vc4)) (4 * (0 + k)) = Some (ps ! k)" if "k < length ps" for k
    using get_word [OF cnt(3) that] by simp
  from unreference_bos_ok [OF heap this] obtain h l c where
    1: "unreference_bos (cl_buf (vc_bo_pointers vc4)) [0..<length ps] vc4 = Some (heap_effect h l c vc4)"
    "heap_ok [] own h" "keeps_bos own (vc_bos vc4) h" "no_submit c"
    by auto
  have st: "fs_ok vc4" "vc_prog_fs vc4 \<in> own" using G by (simp_all add: gl_static_def)
  have fs: "fs_ok (heap_effect h l c vc4)" by (rule keeps_bos_fs [OF st 1(3)])
  have fit: "cl_fit 0 M 0 (vc4_reset_cl (vc_bcl vc4))" "cl_fit 0 M 0 (vc4_reset_cl (vc_shader_rec vc4))"
    "cl_fit 0 M 0 (vc4_reset_cl (vc_bo_handles vc4))" "cl_fit 0 M 0 (vc4_reset_cl (vc_bo_pointers vc4))"
    using G reset_fit by (auto simp: hs_fit_def)
  show ?thesis
    using cnt(1) 1(1,2,4) fs fit G
    by (auto simp: vc4_job_reset_def gl_ok_def gl_static_def gl_cmds_def gl_recs_def bos_ok_def hs_fit_def fs_ok_def
        heap_effect_def no_submit_def)
qed

text \<open>The job put together from the context is what the kernel is promised.\<close>

lemma submitted_job_good:
  assumes ok: "gl_ok N M rb rr rh cs rs ps own vc4" and N: "N < 2 ^ 31"
  shows "job_good \<lparr>job_args = submit_args vc4 cr cw zr zw, job_bin_cl = cl_contents (vc_bcl vc4),
    job_shader_rec = cl_contents (vc_shader_rec vc4), job_bo_handles = cl_contents (vc_bo_handles vc4)\<rparr>"
proof -
  note G = ok [unfolded gl_ok_def]
  have N': "N < 2 ^ 32" using N by simp
  have bos: "bos_ok ps own vc4" "hs_fit N M rh vc4" using G by simp_all
  have len: "unat (cl_offset (vc_bcl vc4)) = length (cl_contents (vc_bcl vc4))"
    "unat (cl_offset (vc_shader_rec vc4)) = length (cl_contents (vc_shader_rec vc4))"
    "length (cl_contents (vc_bcl vc4)) \<le> N"
    using G cl_offset_fit [OF _ N'] cl_contents_length by (auto simp: cl_fit_def)
  then show ?thesis
    using G bos_ok_count(1) [OF bos N'] N
    by (auto simp: job_good_def submit_args_def gl_cmds_def gl_recs_def intro!: exI [of _ cs] exI [of _ rs])
qed

text \<open>The discipline for a flush: the colour buffer has not been destroyed.\<close>

definition surface_ok :: "u32 set \<Rightarrow> vc4_surface option \<Rightarrow> bool" where
  "surface_ok own s \<longleftrightarrow> (case s of None \<Rightarrow> True | Some surf \<Rightarrow> rs_bo (sf_texture surf) \<in> own)"

lemma render_config_surface_ok:
  assumes ok: "gl_ok N M rb rr rh cs rs ps own vc4" and "N < 2 ^ 32" "4 \<le> rh" "surface_ok own s"
  shows "returns (vc4_submit_setup_rcl_render_config_surface s vc4) (\<lambda>(x, vc4').
    (\<exists>ps'. gl_ok (N + 4) M rb rr (rh - 4) cs rs ps' own vc4') \<and> same_but_bos vc4 vc4')"
proof (cases s)
  case None
  have "gl_ok (N + 4) M rb rr (rh - 4) cs rs ps own vc4" by (rule gl_ok_mono [OF ok]) simp_all
  then show ?thesis using None by (auto simp: vc4_submit_setup_rcl_render_config_surface_def)
next
  case (Some surf)
  have bos: "bos_ok ps own vc4" "hs_fit N M rh vc4" using ok by (simp_all add: gl_ok_def)
  have own: "rs_bo (sf_texture surf) \<in> dom (vc_bos vc4)"
    using assms(4) Some bos_ok_own [OF bos(1)] by (simp add: surface_ok_def)
  obtain h vc4' ps' where h: "vc4_gem_hindex (rs_bo (sf_texture surf)) vc4 = Some (h, vc4')"
    "bos_ok ps' own vc4'" "hs_fit (N + 4) M (rh - 4) vc4'" "same_but_bos vc4 vc4'" "length ps \<le> length ps'"
    using vc4_gem_hindex_ok [OF bos assms(2,3) own] by (auto elim!: returnsE)
  have "gl_ok (N + 4) M rb rr (rh - 4) cs rs ps' own vc4'" by (rule gl_ok_bos [OF ok h(2-5)]) simp
  then show ?thesis
    using Some h(1,4) by (auto simp: vc4_submit_setup_rcl_render_config_surface_def Let_def)
qed

lemma gl_ok_call:
  "gl_ok N M rb rr rh cs rs ps own vc4 \<Longrightarrow> job_good j \<Longrightarrow>
     gl_ok N M rb rr rh cs rs ps own (vc4_call (SUBMIT_CL j) vc4)"
  by (auto simp: gl_defs vc4_call_def)

lemma vc4_job_submit_ok:
  assumes ok: "gl_ok N M rb rr rh cs rs ps own vc4" and mem: "mem_ok mem" and le: "2 * N + 550 \<le> M" "M < 2 ^ 30"
    and flush: "vc_needs_flush vc4" and min: "vc_draw_min_x vc4 \<noteq> NOT 0" "vc_draw_min_y vc4 \<noteq> NOT 0"
    and cw: "surface_ok own (vc_color_write vc4)"
  shows "returns (vc4_job_submit mem vc4) (\<lambda>vc4'. gl_ok 0 M 0 0 0 [] [] [] own vc4' \<and> \<not> vc_needs_flush vc4' \<and>
    vc_framebuffer vc4' = vc_framebuffer vc4)"
proof -
  note G = ok [unfolded gl_ok_def]
  have fits: "cl_fit N M rb (vc_bcl vc4)" "cl_fit N M rr (vc_shader_rec vc4)"
    "cl_fit N M rh (vc_bo_handles vc4)" "cl_fit N M rh (vc_bo_pointers vc4)"
    using G by (simp_all add: hs_fit_def)
  obtain hs where hs: "cl_ensure_space mem (vc_bo_handles vc4) 16 = Some hs" "cl_fit N M 16 hs"
      "cl_contents hs = cl_contents (vc_bo_handles vc4)"
    using cl_ensure_space_fit [OF fits(3) mem, of 16] le by (auto elim!: returnsE)
  obtain pt where pt: "cl_ensure_space mem (vc_bo_pointers vc4) 16 = Some pt" "cl_fit N M 16 pt"
      "cl_contents pt = cl_contents (vc_bo_pointers vc4)"
    using cl_ensure_space_fit [OF fits(4) mem, of 16] le by (auto elim!: returnsE)
  let ?vc1 = "vc4\<lparr>vc_bo_handles := hs, vc_bo_pointers := pt\<rparr>"
  have ok1: "gl_ok N M rb rr 16 cs rs ps own ?vc1"
    using gl_ok_grow [OF ok fits(1) refl fits(2) refl hs(2,3) pt(2,3)] by simp
  obtain x vc2 ps' where 2: "vc4_submit_setup_rcl_render_config_surface (vc_color_write vc4) ?vc1 = Some (x, vc2)"
    "gl_ok (N + 4) M rb rr 12 cs rs ps' own vc2" "same_but_bos ?vc1 vc2"
    using render_config_surface_ok [OF ok1 _ _ cw] le by (fastforce elim!: returnsE)
  note F = same_but_bos_fields [OF 2(3)]
  have none: "vc_color_read vc4 = None" "vc_zs_read vc4 = None" "vc_zs_write vc4 = None"
    and tile: "vc_tile_width vc4 \<noteq> 0" "vc_tile_height vc4 \<noteq> 0"
    using G flush by (auto simp: gl_static_def)
  let ?n = "no_surface\<lparr>hindex := NOT 0\<rparr>"
  let ?j = "\<lparr>job_args = submit_args vc2 ?n x ?n ?n, job_bin_cl = cl_contents (vc_bcl vc2),
    job_shader_rec = cl_contents (vc_shader_rec vc2), job_bo_handles = cl_contents (vc_bo_handles vc2)\<rparr>"
  have "vc4_job_submit mem vc4 = vc4_job_reset (vc4_call (SUBMIT_CL ?j) vc2)"
    using hs(1) pt(1) 2(1) F none min tile
    by (simp add: vc4_job_submit_def vc4_submit_setup_rcl_surface_def)
  moreover have "job_good ?j" by (rule submitted_job_good [OF 2(2)]) (use le in simp)
  then have "gl_ok (N + 4) M rb rr 12 cs rs ps' own (vc4_call (SUBMIT_CL ?j) vc2)" by (rule gl_ok_call [OF 2(2)])
  from vc4_job_reset_ok [OF this] le have "returns (vc4_job_reset (vc4_call (SUBMIT_CL ?j) vc2))
    (\<lambda>vc4'. gl_ok 0 M 0 0 0 [] [] [] own vc4' \<and> \<not> vc_needs_flush vc4' \<and>
      vc_framebuffer vc4' = vc_framebuffer (vc4_call (SUBMIT_CL ?j) vc2))"
    by simp
  ultimately show ?thesis using F by (auto simp: vc4_call_def elim!: returns_mono)
qed

definition gl_inv :: "nat \<Rightarrow> nat \<Rightarrow> u32 set \<Rightarrow> 'r vc4_context \<Rightarrow> bool" where
  "gl_inv N M own vc4 \<longleftrightarrow> (\<exists>cs rs ps. gl_ok N M 0 0 0 cs rs ps own vc4) \<and>
     (\<not> vc_needs_flush vc4 \<longrightarrow> gl_ok 0 M 0 0 0 [] [] [] own vc4)"

lemma gl_inv_reset: "gl_ok 0 M 0 0 0 [] [] [] own vc4 \<Longrightarrow> gl_inv 0 M own vc4"
  by (auto simp: gl_inv_def)

lemma finish_bcl_ok:
  assumes ok: "gl_ok N M 0 0 0 cs rs ps own vc4" and mem: "mem_ok mem" and le: "2 * N + 1000 \<le> M" "M < 2 ^ 30"
  shows "returns (if 0 < cl_offset (vc_bcl vc4) then do {
      bcl \<leftarrow> cl_ensure_space mem (vc_bcl vc4) 8;
      bcl \<leftarrow> cl_u8 bcl (packet_code VC4_PACKET_INCREMENT_SEMAPHORE);
      cl_u8 bcl (packet_code VC4_PACKET_FLUSH) } else Some (vc_bcl vc4))
    (\<lambda>bcl. \<exists>cs'. gl_ok (N + 2) M 0 0 0 cs' rs ps own (vc4\<lparr>vc_bcl := bcl\<rparr>))"
proof (cases "0 < cl_offset (vc_bcl vc4)")
  case False
  have "gl_ok (N + 2) M 0 0 0 cs rs ps own vc4" by (rule gl_ok_mono [OF ok]) simp_all
  then show ?thesis using False by auto
next
  case True
  have fit: "cl_fit N M 0 (vc_bcl vc4)" using ok by (simp add: gl_ok_def)
  obtain b where b: "cl_ensure_space mem (vc_bcl vc4) 8 = Some b" "cl_fit N M 8 b"
      "cl_contents b = cl_contents (vc_bcl vc4)"
    using cl_ensure_space_fit [OF fit mem, of 8] le by (auto elim!: returnsE)
  have okb: "gl_ok N M 8 0 0 cs rs ps own (vc4\<lparr>vc_bcl := b\<rparr>)" using ok b(2,3) by (simp add: gl_defs)
  have "returns (cl_emit [7, 4] (vc_bcl (vc4\<lparr>vc_bcl := b\<rparr>)))
      (\<lambda>bcl. \<exists>cs'. gl_ok (N + 2) M 0 0 0 cs' rs ps own (vc4\<lparr>vc_bcl := bcl\<rparr>))"
  proof (rule emit_rules(5) [OF okb])
    fix bcl cs' assume *: "gl_ok (Suc (Suc N)) M (8 - 2) 0 0 cs' rs ps own (vc4\<lparr>vc_bcl := b, vc_bcl := bcl\<rparr>)"
    have "gl_ok (N + 2) M 0 0 0 cs' rs ps own (vc4\<lparr>vc_bcl := b, vc_bcl := bcl\<rparr>)"
      by (rule gl_ok_mono [OF *]) simp_all
    then show "\<exists>cs'. gl_ok (N + 2) M 0 0 0 cs' rs ps own (vc4\<lparr>vc_bcl := bcl\<rparr>)" by auto
  qed simp
  then show ?thesis using True b(1) by (simp add: cl_emits)
qed

lemma vc4_flush_ok:
  assumes inv: "gl_inv N M own vc4" and mem: "mem_ok mem" and le: "2 * N + 1000 \<le> M" "M < 2 ^ 30"
    and cb: "surface_ok own (fb_cbuf0 (vc_framebuffer vc4))"
  shows "returns (vc4_flush mem vc4) (\<lambda>vc4'. gl_inv 0 M own vc4' \<and> \<not> vc_needs_flush vc4' \<and>
    vc_framebuffer vc4' = vc_framebuffer vc4)"
proof -
  obtain cs rs ps where ok: "gl_ok N M 0 0 0 cs rs ps own vc4" using inv by (auto simp: gl_inv_def)
  let ?empty = "vc_draw_max_x vc4 \<le> vc_draw_min_x vc4 \<or> vc_draw_max_y vc4 \<le> vc_draw_min_y vc4"
  consider "\<not> vc_needs_flush vc4" | "vc_needs_flush vc4" "?empty" | "vc_needs_flush vc4" "\<not> ?empty" by blast
  then show ?thesis
  proof cases
    case 1
    then show ?thesis using inv gl_inv_reset by (auto simp: vc4_flush_def gl_inv_def)
  next
    case 2
    then show ?thesis
      using vc4_job_reset_ok [OF ok] le by (auto simp: vc4_flush_def elim!: returns_mono intro: gl_inv_reset)
  next
    case 3
    have min: "vc_draw_min_x vc4 \<noteq> NOT 0" "vc_draw_min_y vc4 \<noteq> NOT 0"
      using 3(2) by (auto simp: not_le)
    obtain bcl cs' where b: "(if 0 < cl_offset (vc_bcl vc4) then do {
            bcl \<leftarrow> cl_ensure_space mem (vc_bcl vc4) 8;
            bcl \<leftarrow> cl_u8 bcl (packet_code VC4_PACKET_INCREMENT_SEMAPHORE);
            cl_u8 bcl (packet_code VC4_PACKET_FLUSH) } else Some (vc_bcl vc4)) = Some bcl"
      "gl_ok (N + 2) M 0 0 0 cs' rs ps own (vc4\<lparr>vc_bcl := bcl\<rparr>)"
      using finish_bcl_ok [OF ok mem le] by (elim returnsE exE)
    have le': "2 * (N + 2) + 550 \<le> M" using le(1) by simp
    let ?vc = "vc4\<lparr>vc_bcl := bcl, vc_color_write := fb_cbuf0 (vc_framebuffer vc4)\<rparr>"
    have "returns (vc4_job_submit mem ?vc) (\<lambda>vc4'. gl_ok 0 M 0 0 0 [] [] [] own vc4' \<and> \<not> vc_needs_flush vc4' \<and>
        vc_framebuffer vc4' = vc_framebuffer ?vc)"
      by (rule vc4_job_submit_ok [OF _ mem le' le(2)]) (use b(2) 3(1) min cb in simp_all)
    then show ?thesis
      using 3 b(1) by (auto simp: vc4_flush_def Let_def elim!: returns_mono intro: gl_inv_reset)
  qed
qed

end
