(* ===== verification/Gl_Session.thy ===== *)
theory Gl_Session
  imports Gl_Jobs
begin

text \<open>
  Sessions of the graphics driver: an application creates a context and calls the functions of
  the \<^verbatim>\<open>pipe_context\<close> interface in any order. \<open>gl_step\<close> is one call, on the context and the set of
  buffer objects the application still owns; \<open>op_ok\<close> is the discipline it has to keep. Every run
  returns and every job it submits passes the kernel's validator.
\<close>

unbundle bit_operations_syntax

section \<open>Clearing\<close>

lemma gl_inv_mono: "gl_inv N M own vc4 \<Longrightarrow> N \<le> N' \<Longrightarrow> gl_inv N' M own vc4"
  unfolding gl_inv_def using gl_ok_mono by blast

lemma gl_inv_flushing: "gl_ok N M rb rr rh cs rs ps own vc4 \<Longrightarrow> vc_needs_flush vc4 \<Longrightarrow> gl_inv N M own vc4"
  unfolding gl_inv_def using gl_ok_mono [of N M rb rr rh cs rs ps own vc4 N M 0 0 0] by blast

lemma start_after_clear_ok:
  assumes ok: "gl_ok N M 0 0 0 cs rs ps own vc4" and mem: "mem_ok mem" and le: "2 * N + 1000 \<le> M" "M < 2 ^ 30"
    and tile: "vc_tile_width vc4 \<noteq> 0" "vc_tile_height vc4 \<noteq> 0"
  shows "returns (vc4_start_draw mem vc4) (\<lambda>vc4'. gl_inv (N + op_room) M own vc4')"
proof (cases "vc_needs_flush vc4")
  case True
  then show ?thesis
    using gl_inv_mono [OF gl_inv_flushing [OF ok True]] by (simp add: vc4_start_draw_def)
next
  case False
  have le': "2 * N + 550 \<le> M" using le(1) by simp
  have "returns (vc4_start_draw mem vc4) (\<lambda>vc4'. (\<exists>cs'. gl_ok (N + 19) M 256 28 80 cs' rs ps own vc4') \<and>
      same_draw vc4 vc4' \<and> vc_needs_flush vc4')"
    by (rule vc4_start_draw_ok [OF ok mem le' le(2) tile]) (use False in simp)
  then show ?thesis
  proof (rule returns_mono, elim conjE exE)
    fix vc4' cs' assume "gl_ok (N + 19) M 256 28 80 cs' rs ps own vc4'" "vc_needs_flush vc4'"
    from gl_inv_mono [OF gl_inv_flushing [OF this]] show "gl_inv (N + op_room) M own vc4'"
      by (simp add: op_room_def)
  qed
qed

lemma vc4_clear_ok:
  assumes inv: "gl_inv N M own vc4" and mem: "mem_ok mem" and le: "2 * N + 1000 \<le> M" "M < 2 ^ 30"
    and cb: "surface_ok own (fb_cbuf0 (vc_framebuffer vc4))"
  shows "returns (vc4_clear fl mem buffers color depth stencil vc4) (\<lambda>vc4'. gl_inv (N + op_room) M own vc4')"
proof -
  obtain vc1 where 1: "(if vc_draw_calls_queued vc4 \<noteq> 0 then vc4_flush mem vc4 else Some vc4) = Some vc1"
    "gl_inv N M own vc1"
  proof (cases "vc_draw_calls_queued vc4 = 0")
    case True
    then show ?thesis using that inv by simp
  next
    case False
    then show ?thesis
      using vc4_flush_ok [OF inv mem le cb] that by (auto elim!: returnsE intro: gl_inv_mono)
  qed
  obtain cs rs ps where ok: "gl_ok N M 0 0 0 cs rs ps own vc1" using 1(2) by (auto simp: gl_inv_def)
  define vc2 where "vc2 = (let vc4 = (if buffers AND PIPE_CLEAR_COLOR0 \<noteq> 0
       then vc1\<lparr>vc_clear_color := (pack_rgba fl color, pack_rgba fl color)\<rparr> else vc1)
     in if buffers AND PIPE_CLEAR_DEPTHSTENCIL \<noteq> 0 then
         (let vc4 = (if buffers AND PIPE_CLEAR_DEPTH \<noteq> 0
            then vc4\<lparr>vc_clear_depth := (if db_eq fl depth (db_of_u32 fl 1) then 0xffffff
               else db_to_u32 fl (db_add fl (db_mul fl depth (db_of_u32 fl 0xffffff))
                      (db_of_fl fl (fl_of_bits fl 0x3f000000))))\<rparr> else vc4)
          in if buffers AND PIPE_CLEAR_STENCIL \<noteq> 0 then vc4\<lparr>vc_clear_stencil := ucast stencil\<rparr> else vc4)
       else vc4)"
  have ok2: "gl_ok N M 0 0 0 cs rs ps own vc2" using ok by (simp add: vc2_def Let_def)
  let ?vc3 = "vc4_init_context_fbo vc2"
  let ?vc4 = "?vc3\<lparr>vc_draw_min_x := 0, vc_draw_min_y := 0, vc_draw_max_x := fb_width (vc_framebuffer ?vc3),
    vc_draw_max_y := fb_height (vc_framebuffer ?vc3), vc_cleared := vc_cleared ?vc3 OR buffers\<rparr>"
  have "gl_ok N M 0 0 0 cs rs ps own ?vc4" using init_fbo_ok [OF ok2] by simp
  from start_after_clear_ok [OF this mem le] have
    "returns (vc4_start_draw mem ?vc4) (\<lambda>vc4'. gl_inv (N + op_room) M own vc4')"
    by (simp add: vc4_init_context_fbo_def)
  moreover have "vc4_clear fl mem buffers color depth stencil vc4 = vc4_start_draw mem ?vc4"
    unfolding vc4_clear_def 1(1) vc2_def by (simp only: Let_def Option.bind.bind_lunit)
  ultimately show ?thesis by simp
qed

section \<open>Calls\<close>

datatype ('r, 'd) gl_op =
    SetFramebuffer pipe_framebuffer_state
  | SetViewport "'r pipe_viewport_state"
  | SetVertexBuffers pipe_vertex_buffer
  | SetDepthStencilAlpha pipe_zsa_state
  | ResourceCreate bool bo_answers pipe_resource
  | ResourceDestroy vc4_resource
  | ResourceMap bo_answers vc4_resource
  | Clear u32 "'r \<times> 'r \<times> 'r \<times> 'r" 'd u32
  | DrawVbo bo_answers pipe_draw_info
  | Flush

type_synonym 'r gl_state = "u32 set \<times> 'r vc4_context"

fun gl_step ::
    "('r, 'd) float_ops \<Rightarrow> (u32 \<Rightarrow> u8 list option) \<Rightarrow> ('r, 'd) gl_op \<Rightarrow> 'r gl_state \<Rightarrow> 'r gl_state option" where
  "gl_step fl mem (SetFramebuffer fb) (own, vc4) = Some (own, vc4_set_framebuffer_state fb vc4)"
| "gl_step fl mem (SetViewport vp) (own, vc4) = Some (own, vc4_set_viewport_state vp vc4)"
| "gl_step fl mem (SetVertexBuffers vb) (own, vc4) = Some (own, vc4_set_vertex_buffers vb vc4)"
| "gl_step fl mem (SetDepthStencilAlpha cso) (own, vc4) = Some (own, vc4_set_depth_stencil_alpha_state cso vc4)"
| "gl_step fl mem (ResourceCreate room a tmpl) (own, vc4) =
     (case vc4_resource_create room a tmpl vc4 of
        (None, vc4) \<Rightarrow> Some (own, vc4)
      | (Some rsc, vc4) \<Rightarrow> Some (insert (rs_bo rsc) own, vc4))"
| "gl_step fl mem (ResourceDestroy rsc) (own, vc4) = do {
     vc4 \<leftarrow> vc4_resource_destroy (Some rsc) vc4;
     Some (own - {rs_bo rsc}, vc4) }"
| "gl_step fl mem (ResourceMap a rsc) (own, vc4) = do {
     (m, vc4) \<leftarrow> vc4_resource_transfer_map a rsc vc4;
     Some (own, vc4) }"
| "gl_step fl mem (Clear buffers color depth stencil) (own, vc4) = do {
     vc4 \<leftarrow> vc4_clear fl mem buffers color depth stencil vc4;
     Some (own, vc4) }"
| "gl_step fl mem (DrawVbo a info) (own, vc4) = do {
     vc4 \<leftarrow> vc4_draw_vbo fl mem a info vc4;
     Some (own, vc4) }"
| "gl_step fl mem Flush (own, vc4) = do {
     vc4 \<leftarrow> vc4_flush mem vc4;
     Some (own, vc4) }"

text \<open>The discipline: resources are used before they are destroyed, the driver's own buffers are not
  destroyed, \<^verbatim>\<open>malloc\<close> returns no structure that is in use, and the memory of an index buffer can be
  had.\<close>

fun op_ok :: "('r, 'd) gl_op \<Rightarrow> 'r gl_state \<Rightarrow> bool" where
  "op_ok (SetFramebuffer fb) (own, vc4) \<longleftrightarrow> True"
| "op_ok (SetViewport vp) (own, vc4) \<longleftrightarrow> True"
| "op_ok (SetVertexBuffers vb) (own, vc4) \<longleftrightarrow> True"
| "op_ok (SetDepthStencilAlpha cso) (own, vc4) \<longleftrightarrow> True"
| "op_ok (ResourceCreate room a tmpl) (own, vc4) \<longleftrightarrow> vc_bos vc4 (an_malloc a) = None"
| "op_ok (ResourceDestroy rsc) (own, vc4) \<longleftrightarrow>
     rs_bo rsc \<in> own \<and> rs_bo rsc \<noteq> vc_prog_fs vc4 \<and> rs_bo rsc \<noteq> vc_uniforms vc4"
| "op_ok (ResourceMap a rsc) (own, vc4) \<longleftrightarrow> rs_bo rsc \<in> own"
| "op_ok (Clear buffers color depth stencil) (own, vc4) \<longleftrightarrow> surface_ok own (fb_cbuf0 (vc_framebuffer vc4))"
| "op_ok (DrawVbo a info) (own, vc4) \<longleftrightarrow> draw_ok own a info vc4"
| "op_ok Flush (own, vc4) \<longleftrightarrow> surface_ok own (fb_cbuf0 (vc_framebuffer vc4))"

fun gl_run ::
    "('r, 'd) float_ops \<Rightarrow> (u32 \<Rightarrow> u8 list option) \<Rightarrow> ('r, 'd) gl_op list \<Rightarrow> 'r gl_state \<Rightarrow> 'r gl_state option" where
  "gl_run fl mem [] s = Some s"
| "gl_run fl mem (op # ops) s = do { s \<leftarrow> gl_step fl mem op s; gl_run fl mem ops s }"

fun ops_ok ::
    "('r, 'd) float_ops \<Rightarrow> (u32 \<Rightarrow> u8 list option) \<Rightarrow> ('r, 'd) gl_op list \<Rightarrow> 'r gl_state \<Rightarrow> bool" where
  "ops_ok fl mem [] s \<longleftrightarrow> True"
| "ops_ok fl mem (op # ops) s \<longleftrightarrow>
     op_ok op s \<and> (case gl_step fl mem op s of None \<Rightarrow> True | Some s \<Rightarrow> ops_ok fl mem ops s)"

text \<open>A job holds at most two million draws and clears, so that its lists stay below 2 GB.\<close>

definition JOB_CALLS :: nat where "JOB_CALLS = 2000000"

fun frames_ok :: "nat \<Rightarrow> ('r, 'd) gl_op list \<Rightarrow> bool" where
  "frames_ok k [] \<longleftrightarrow> True"
| "frames_ok k (Flush # ops) \<longleftrightarrow> frames_ok 0 ops"
| "frames_ok k (Clear buffers color depth stencil # ops) \<longleftrightarrow> k < JOB_CALLS \<and> frames_ok (Suc k) ops"
| "frames_ok k (DrawVbo a info # ops) \<longleftrightarrow> k < JOB_CALLS \<and> frames_ok (Suc k) ops"
| "frames_ok k (op # ops) \<longleftrightarrow> frames_ok k ops"

definition LIST_MAX :: nat where "LIST_MAX = 2 ^ 29"

abbreviation session_inv :: "nat \<Rightarrow> 'r gl_state \<Rightarrow> bool" where
  "session_inv k s \<equiv> gl_inv (op_room * k) LIST_MAX (fst s) (snd s)"

section \<open>Every call keeps the invariant\<close>

lemma gl_inv_lift:
  assumes "gl_inv N M own vc4" "vc_needs_flush vc4' = vc_needs_flush vc4"
    and "\<And>N cs rs ps. gl_ok N M 0 0 0 cs rs ps own vc4 \<Longrightarrow> gl_ok N M 0 0 0 cs rs ps own' vc4'"
  shows "gl_inv N M own' vc4'"
  using assms unfolding gl_inv_def by blast

lemma gl_inv_dirty_or:
  assumes "gl_inv N M own vc4"
  shows "gl_inv N M own (vc4\<lparr>vc_dirty := vc_dirty vc4 OR x\<rparr>)"
  by (rule gl_inv_lift [OF assms]) (auto intro: gl_ok_dirty_or)

lemma set_state_inv:
  assumes "gl_inv N M own vc4"
  shows "gl_inv N M own (vc4_set_framebuffer_state fb vc4)" "gl_inv N M own (vc4_set_viewport_state vp vc4)"
    "gl_inv N M own (vc4_set_vertex_buffers vb vc4)" "gl_inv N M own (vc4_set_depth_stencil_alpha_state cso vc4)"
proof -
  have "gl_inv N M own (vc4\<lparr>vc_framebuffer := fb\<rparr>)" "gl_inv N M own (vc4\<lparr>vc_viewport := vp\<rparr>)"
    "gl_inv N M own (vc4\<lparr>vc_vertexbuf := vb\<rparr>)" "gl_inv N M own (vc4\<lparr>vc_zsa := z\<rparr>)" for z
    using assms by (simp_all add: gl_inv_def)
  then show "gl_inv N M own (vc4_set_framebuffer_state fb vc4)" "gl_inv N M own (vc4_set_viewport_state vp vc4)"
    "gl_inv N M own (vc4_set_vertex_buffers vb vc4)" "gl_inv N M own (vc4_set_depth_stencil_alpha_state cso vc4)"
    using gl_inv_dirty_or [of N M own "vc4\<lparr>vc_framebuffer := fb\<rparr>"]
      gl_inv_dirty_or [of N M own "vc4\<lparr>vc_viewport := vp\<rparr>"]
      gl_inv_dirty_or [of N M own "vc4\<lparr>vc_vertexbuf := vb\<rparr>"]
      gl_inv_dirty_or [of N M own "vc4\<lparr>vc_zsa := z\<rparr>" for z]
    by (simp_all add: vc4_set_framebuffer_state_def vc4_set_viewport_state_def
        vc4_set_vertex_buffers_def vc4_set_depth_stencil_alpha_state_def Let_def)
qed

lemma heap_effect_id: "vc4\<lparr>vc_calls := vc_calls vc4 @ c\<rparr> = heap_effect (vc_bos vc4) (vc_bo_list vc4) c vc4"
  by (simp add: heap_effect_def)

lemma gl_ok_calls:
  assumes ok: "gl_ok N M rb rr rh cs rs ps own vc4" and "no_submit c"
  shows "gl_ok N M rb rr rh cs rs ps own (vc4\<lparr>vc_calls := vc_calls vc4 @ c\<rparr>)"
  unfolding heap_effect_id
  by (rule gl_ok_heap [OF ok]) (use assms in \<open>auto simp: gl_ok_def gl_static_def bos_ok_def fs_ok_def\<close>)

lemma create_bo_calls [simp]: "no_submit [CREATE_BO x y]" "no_submit [MMAP_BO x]"
  by (simp_all add: no_submit_def)

text \<open>An allocation fails before or after asking the kernel, or adds one buffer object.\<close>

definition alloc_result :: "bo_answers \<Rightarrow> 'r vc4_context \<Rightarrow> u32 \<times> 'r vc4_context \<Rightarrow> bool" where
  "alloc_result a vc4 x \<longleftrightarrow>
     (\<exists>c. x = (0, vc4\<lparr>vc_calls := vc_calls vc4 @ c\<rparr>) \<and> no_submit c) \<or>
     (\<exists>b l c. x = (an_malloc a, heap_effect ((vc_bos vc4)(an_malloc a \<mapsto> b)) l c vc4) \<and>
        an_malloc a \<noteq> 0 \<and> ub_ref b = 1 \<and> ub_map b = 0 \<and> no_submit c)"

lemma alloc_resultI:
  "alloc_result a vc4 (0, vc4)"
  "no_submit c \<Longrightarrow> alloc_result a vc4 (0, vc4\<lparr>vc_calls := vc_calls vc4 @ c\<rparr>)"
  "an_malloc a \<noteq> 0 \<Longrightarrow> ub_ref b = 1 \<Longrightarrow> ub_map b = 0 \<Longrightarrow> no_submit c \<Longrightarrow> alloc_result a vc4
     (an_malloc a, vc4\<lparr>vc_calls := vc_calls vc4 @ c, vc_bos := (vc_bos vc4)(an_malloc a \<mapsto> b), vc_bo_list := l\<rparr>)"
proof -
  have "vc4 = vc4\<lparr>vc_calls := vc_calls vc4 @ []\<rparr>" by simp
  then show "alloc_result a vc4 (0, vc4)" unfolding alloc_result_def using no_submit_simps(1) by metis
  assume "an_malloc a \<noteq> 0" "ub_ref b = 1" "ub_map b = 0" "no_submit c"
  then show "alloc_result a vc4 (an_malloc a, vc4\<lparr>vc_calls := vc_calls vc4 @ c,
      vc_bos := (vc_bos vc4)(an_malloc a \<mapsto> b), vc_bo_list := l\<rparr>)"
    unfolding alloc_result_def heap_effect_def
    by (intro disjI2 exI [of _ b] exI [of _ l] exI [of _ c]) simp
qed (auto simp: alloc_result_def)

lemma vc4_bo_alloc_result: "alloc_result a vc4 (vc4_bo_alloc a sz vc4)"
  by (auto simp: vc4_bo_alloc_def vc4_call_def Let_def no_submit_def intro!: alloc_resultI)

lemma vc4_bo_alloc_fb_result: "alloc_result a vc4 (vc4_bo_alloc_fb a vc4)"
  by (auto simp: vc4_bo_alloc_fb_def vc4_call_def Let_def no_submit_def intro!: alloc_resultI)

lemma vc4_resource_create_result:
  assumes eq: "vc4_resource_create room a tmpl vc4 = (rsc, vc4')"
  shows "alloc_result a vc4 (case rsc of None \<Rightarrow> 0 | Some r \<Rightarrow> rs_bo r, vc4')" "rsc = Some r \<Longrightarrow> rs_bo r \<noteq> 0"
proof -
  let ?sl = "vc4_setup_slices tmpl"
  obtain p vc1 where x: "(if rs_bind tmpl AND PIPE_BIND_DISPLAY_TARGET \<noteq> 0 then vc4_bo_alloc_fb a vc4
    else vc4_bo_alloc a (sl_offset ?sl + sl_size ?sl) vc4) = (p, vc1)" by fastforce
  then have "alloc_result a vc4 (p, vc1)"
    using vc4_bo_alloc_result [of a vc4 "sl_offset ?sl + sl_size ?sl"] vc4_bo_alloc_fb_result [of a vc4]
    by (simp split: if_splits)
  moreover have "vc4_resource_create room a tmpl vc4 = (if \<not> room then (None, vc4) else if p = 0 then (None, vc1)
      else (Some (pipe_resource.extend tmpl (vc4_resource.fields p ?sl)), vc1))"
    using x by (simp only: vc4_resource_create_def Let_def prod.case)
  ultimately show "alloc_result a vc4 (case rsc of None \<Rightarrow> 0 | Some r \<Rightarrow> rs_bo r, vc4')" "rsc = Some r \<Longrightarrow> rs_bo r \<noteq> 0"
    using eq alloc_resultI(1) [of a vc4]
    by (auto simp: pipe_resource.defs vc4_resource.defs split: if_splits)
qed

lemma vc4_resource_create_cases:
  assumes eq: "vc4_resource_create room a tmpl vc4 = (rsc, vc4')"
  obtains (fail) c where "rsc = None" "vc4' = vc4\<lparr>vc_calls := vc_calls vc4 @ c\<rparr>" "no_submit c"
  | (new) r b l c where "rsc = Some r" "rs_bo r = an_malloc a" "an_malloc a \<noteq> 0" "ub_ref b = 1" "no_submit c"
      "vc4' = heap_effect ((vc_bos vc4)(an_malloc a \<mapsto> b)) l c vc4" "ub_map b = 0"
  using vc4_resource_create_result [OF eq] by (cases rsc) (auto simp: alloc_result_def)

lemma vc4_resource_create_ok:
  assumes inv: "gl_inv N M own vc4" and new: "vc_bos vc4 (an_malloc a) = None"
    and eq: "vc4_resource_create room a tmpl vc4 = (rsc, vc4')"
  shows "gl_inv N M (case rsc of None \<Rightarrow> own | Some r \<Rightarrow> insert (rs_bo r) own) vc4'"
  using eq
proof (cases rule: vc4_resource_create_cases)
  case (fail c)
  have "gl_inv N M own (vc4\<lparr>vc_calls := vc_calls vc4 @ c\<rparr>)"
    by (rule gl_inv_lift [OF inv]) (auto intro: gl_ok_calls [OF _ fail(3)])
  then show ?thesis using fail by simp
next
  case (new r b l c)
  have "gl_inv N M (insert (an_malloc a) own) (heap_effect ((vc_bos vc4)(an_malloc a \<mapsto> b)) l c vc4)"
    by (rule gl_inv_lift [OF inv]) (auto intro: alloc_ok [OF _ assms(2) new(3,4,5)])
  then show ?thesis using new by simp
qed

lemma vc4_resource_destroy_ok:
  assumes inv: "gl_inv N M own vc4" and p: "rs_bo rsc \<in> own" "rs_bo rsc \<noteq> vc_prog_fs vc4" "rs_bo rsc \<noteq> vc_uniforms vc4"
  shows "returns (vc4_resource_destroy (Some rsc) vc4) (\<lambda>vc4'. gl_inv N M (own - {rs_bo rsc}) vc4')"
proof -
  obtain cs rs ps where ok: "gl_ok N M 0 0 0 cs rs ps own vc4" using inv by (auto simp: gl_inv_def)
  obtain vc4' where 1: "vc4_bo_unreference (rs_bo rsc) vc4 = Some vc4'" "vc_needs_flush vc4' = vc_needs_flush vc4"
    using unreference_disown [OF ok p] by (auto elim!: returnsE)
  have "gl_inv N M (own - {rs_bo rsc}) vc4'"
    by (rule gl_inv_lift [OF inv 1(2)]) (use unreference_disown [OF _ p] 1(1) in \<open>auto elim!: returnsE\<close>)
  then show ?thesis using 1(1) by (simp add: vc4_resource_destroy_def)
qed

lemma vc4_resource_map_ok:
  assumes inv: "gl_inv N M own vc4" and p: "rs_bo rsc \<in> own"
  shows "returns (vc4_resource_transfer_map a rsc vc4) (\<lambda>(m, vc4'). gl_inv N M own vc4')"
proof -
  obtain cs rs ps where ok: "gl_ok N M 0 0 0 cs rs ps own vc4" using inv by (auto simp: gl_inv_def)
  let ?p = "rs_bo rsc"
  have heap: "heap_ok ps own (vc_bos vc4)" and fs: "fs_ok vc4"
    using ok by (simp_all add: gl_ok_def bos_ok_def gl_static_def)
  obtain b where b: "vc_bos vc4 ?p = Some b" using heap_okD(3) [OF heap] p by blast
  have pz: "?p \<noteq> 0" using heap_okD(4) [OF heap b] by (simp add: bo_ref_ok_def)
  let ?vc1 = "vc4\<lparr>vc_calls := vc_calls vc4 @ [MMAP_BO (ub_handle b)]\<rparr>"
  let ?vc2 = "?vc1\<lparr>vc_bos := (vc_bos ?vc1)(?p \<mapsto> b\<lparr>ub_map := an_offset a, ub_mem := an_mem a\<rparr>)\<rparr>"
  have 1: "gl_inv N M own ?vc1" by (rule gl_inv_lift [OF inv]) (auto intro: gl_ok_calls)
  have 2: "gl_inv N M own ?vc2" if "ub_map b = 0"
  proof (rule gl_inv_lift [OF 1])
    fix N cs rs ps assume "gl_ok N M 0 0 0 cs rs ps own ?vc1"
    then show "gl_ok N M 0 0 0 cs rs ps own ?vc2"
      by (rule gl_ok_bo_upd [where b = b]) (use b that fs in \<open>auto simp: fs_ok_def\<close>)
  qed simp
  show ?thesis
    using b pz inv 1 2
    by (auto simp: vc4_resource_transfer_map_def vc4_bo_map_def vc4_call_def Let_def)
qed

lemma gl_step_ok:
  assumes inv: "session_inv k s" and ok: "op_ok op s" "frames_ok k (op # ops)" and k: "k \<le> JOB_CALLS"
    and mem: "mem_ok mem"
  shows "returns (gl_step fl mem op s) (\<lambda>s'. \<exists>k'. session_inv k' s' \<and> frames_ok k' ops \<and> k' \<le> JOB_CALLS)"
proof -
  obtain own vc4 where s: "s = (own, vc4)" by (cases s)
  have I: "gl_inv (op_room * k) LIST_MAX own vc4" using inv s by simp
  have le: "2 * (op_room * k) + 1000 \<le> LIST_MAX" "2 * (op_room * k) + 550 \<le> LIST_MAX" "LIST_MAX < 2 ^ 30"
    using k by (simp_all add: op_room_def LIST_MAX_def JOB_CALLS_def)
  have suc: "op_room * k + op_room = op_room * Suc k" by simp
  show ?thesis
  proof (cases op)
    case (DrawVbo a info)
    obtain cs rs ps where g: "gl_ok (op_room * k) LIST_MAX 0 0 0 cs rs ps own vc4"
      using I by (auto simp: gl_inv_def)
    have "draw_ok own a info vc4" using ok(1) s DrawVbo by simp
    from vc4_draw_vbo_ok [OF g mem le(2,3) this, of fl]
    have "returns (vc4_draw_vbo fl mem a info vc4) (\<lambda>vc4'. gl_inv (op_room * Suc k) LIST_MAX own vc4')"
      by (rule returns_mono) (auto simp: suc simp del: mult_Suc_right intro: gl_inv_flushing)
    then show ?thesis
      using ok(2) s DrawVbo by (auto simp del: mult_Suc_right elim!: returns_mono intro!: exI [of _ "Suc k"])
  next
    case (Clear buffers color depth stencil)
    have "surface_ok own (fb_cbuf0 (vc_framebuffer vc4))" using ok(1) s Clear by simp
    from vc4_clear_ok [OF I mem le(1,3) this, of fl buffers color depth stencil]
    show ?thesis
      using ok(2) s Clear unfolding suc
      by (auto simp del: mult_Suc_right elim!: returns_mono intro!: exI [of _ "Suc k"])
  next
    case Flush
    have "surface_ok own (fb_cbuf0 (vc_framebuffer vc4))" using ok(1) s Flush by simp
    from vc4_flush_ok [OF I mem le(1,3) this] show ?thesis
      using ok(2) s Flush by (auto elim!: returns_mono intro!: exI [of _ 0])
  next
    case (ResourceCreate room a tmpl)
    obtain rsc vc4' where c: "vc4_resource_create room a tmpl vc4 = (rsc, vc4')" by fastforce
    have "vc_bos vc4 (an_malloc a) = None" using ok(1) s ResourceCreate by simp
    from vc4_resource_create_ok [OF I this c] show ?thesis
      using ok(2) s ResourceCreate c k by (auto split: option.splits)
  next
    case (ResourceDestroy rsc)
    then show ?thesis using vc4_resource_destroy_ok [OF I, of rsc] ok s k by (auto elim!: returns_mono)
  next
    case (ResourceMap a rsc)
    then show ?thesis using vc4_resource_map_ok [OF I, of rsc a] ok s k by (auto elim!: returns_mono)
  next
    case (SetDepthStencilAlpha cso)
    then show ?thesis using ok(2) s k set_state_inv(4) [OF I, of cso] by auto
  qed (use ok(2) s k set_state_inv(1-3) [OF I] in auto)
qed

lemma gl_run_ok:
  assumes "session_inv k s" "ops_ok fl mem ops s" "frames_ok k ops" "k \<le> JOB_CALLS" "mem_ok mem"
  shows "returns (gl_run fl mem ops s) (\<lambda>s'. \<exists>k'. session_inv k' s')"
  using assms
proof (induction ops arbitrary: k s)
  case (Cons op ops)
  obtain s' k' where 1: "gl_step fl mem op s = Some s'" "session_inv k' s'" "frames_ok k' ops" "k' \<le> JOB_CALLS"
    using gl_step_ok [OF Cons.prems(1) _ Cons.prems(3-5), where fl = fl] Cons.prems(2)
    by (auto simp del: split_paired_All split_paired_Ex elim!: returnsE)
  then show ?case using Cons.IH [OF 1(2) _ 1(3,4) Cons.prems(5)] Cons.prems(2) by simp
qed auto

section \<open>Contexts before the shader is made\<close>

text \<open>A new context has nothing to submit; it becomes usable once \<^verbatim>\<open>vc4_create_fs\<close> has made the
  shader program and the buffer of uniforms.\<close>

definition gl_idle :: "nat \<Rightarrow> u32 set \<Rightarrow> 'r vc4_context \<Rightarrow> bool" where
  "gl_idle M own vc4 \<longleftrightarrow>
     cl_fit 0 M 0 (vc_bcl vc4) \<and> cl_fit 0 M 0 (vc_shader_rec vc4) \<and> hs_fit 0 M 0 vc4 \<and>
     heap_ok [] own (vc_bos vc4) \<and> vc_shader_rec_count vc4 = 0 \<and>
     vc_dirty vc4 AND VC4_DIRTY_VTXBUF \<noteq> 0 \<and> \<not> vc_needs_flush vc4 \<and>
     vc_color_read vc4 = None \<and> vc_zs_read vc4 = None \<and> vc_zs_write vc4 = None \<and> no_submit (vc_calls vc4)"

lemma cl_fit_empty: "cl_fit 0 M r cl \<Longrightarrow> cl_contents cl = []"
  by (simp add: cl_fit_def cl_contents_def)

lemma gl_idle_ready:
  assumes "gl_idle M own vc4" "vc_prog_fs vc4 \<in> own" "vc_uniforms vc4 \<in> own" "fs_ok vc4"
  shows "gl_inv N M own vc4"
proof -
  have "gl_ok 0 M 0 0 0 [] [] [] own vc4"
    using assms by (auto simp: gl_idle_def gl_ok_def gl_static_def gl_cmds_def gl_recs_def bos_ok_def hs_fit_def
        no_submit_def intro: cl_fit_empty)
  then show ?thesis unfolding gl_inv_def using gl_ok_mono by blast
qed

lemma vc4_context_create_idle:
  assumes mem: "mem_ok mem"
  shows "returns (vc4_context_create room fl mem) (\<lambda>r.
    case r of None \<Rightarrow> \<not> room | Some vc4 \<Rightarrow> room \<and> gl_idle LIST_MAX {} vc4 \<and> vc_bos vc4 = Map.empty \<and> vc_bo_list vc4 = [])"
proof (cases room)
  case True
  have fit: "cl_fit 0 LIST_MAX 0 vc4_init_cl" by (simp add: cl_fit_def vc4_init_cl_def)
  have le: "2 * 0 + 2 * unat (8 :: u32) \<le> LIST_MAX" "LIST_MAX < 2 ^ 30" by (simp_all add: LIST_MAX_def)
  obtain ps where ps: "cl_ensure_space mem vc4_init_cl 8 = Some ps" "cl_fit 0 LIST_MAX 8 ps"
    using cl_ensure_space_fit [OF fit mem le] by (auto elim!: returnsE)
  have "vc4_reset_cl vc4_init_cl = vc4_init_cl" "cl_offset vc4_init_cl = 0"
    by (simp_all add: vc4_reset_cl_def vc4_init_cl_def cl_offset_def)
  moreover have "heap_ok [] {} Map.empty" by (simp add: heap_ok_def)
  moreover have "(NOT 0 :: u32) AND VC4_DIRTY_VTXBUF \<noteq> 0" by simp
  ultimately show ?thesis
    using True fit ps cl_fit_mono [OF ps(2), of 0 LIST_MAX 0]
    by (simp add: vc4_context_create_def vc4_job_init_def vc4_job_reset_def zero_context_def Let_def
        gl_idle_def hs_fit_def)
qed (simp add: vc4_context_create_def)

lemma gl_idle_heap:
  assumes "gl_idle M own vc4" "heap_ok [] own' h" "no_submit c"
  shows "gl_idle M own' (heap_effect h l c vc4)"
  using assms by (simp add: gl_idle_def hs_fit_def heap_effect_def)

lemma gl_idle_resource_create:
  assumes idle: "gl_idle M own vc4" and new: "vc_bos vc4 (an_malloc a) = None"
    and eq: "vc4_resource_create room a tmpl vc4 = (rsc, vc4')"
  shows "gl_idle M (case rsc of None \<Rightarrow> own | Some r \<Rightarrow> insert (rs_bo r) own) vc4'"
  using eq
proof (cases rule: vc4_resource_create_cases)
  case (fail c)
  then show ?thesis using idle by (simp add: gl_idle_def hs_fit_def)
next
  case (new r b l c)
  have "heap_ok [] own (vc_bos vc4)" using idle by (simp add: gl_idle_def)
  from gl_idle_heap [OF idle heap_ok_alloc [OF this assms(2) new(3,4)] new(5)] show ?thesis
    using new by simp
qed

text \<open>What \<^verbatim>\<open>vc4_create_fs\<close> needs: the two structures are new and different, and a buffer that is mapped
  holds the program.\<close>

definition fs_answers_ok :: "bo_answers \<Rightarrow> bo_answers \<Rightarrow> 'r vc4_context \<Rightarrow> bool" where
  "fs_answers_ok a1 a2 vc4 \<longleftrightarrow> vc_bos vc4 (an_malloc a1) = None \<and> vc_bos vc4 (an_malloc a2) = None \<and>
     an_malloc a1 \<noteq> an_malloc a2 \<and> 88 \<le> length (an_mem a1)"

lemma fs_ins_length [simp]: "length fs_ins = 22" "length (concat (map u32_bytes fs_ins)) = 88"
  by (simp_all add: fs_ins_def)

lemma vc4_create_fs_ok:
  assumes idle: "gl_idle M own vc4" and a: "fs_answers_ok a1 a2 vc4"
  shows "returns (vc4_create_fs a1 a2 vc4) (\<lambda>(ok, vc4'). ok \<longrightarrow>
    gl_inv N M (insert (vc_uniforms vc4') (insert (vc_prog_fs vc4') own)) vc4' \<and>
    vc_prog_fs vc4' = an_malloc a1 \<and> vc_uniforms vc4' = an_malloc a2 \<and>
    vc_bo_list vc4' = vc_bo_list vc4 @ [an_malloc a1, an_malloc a2] \<and>
    dom (vc_bos vc4') = insert (an_malloc a2) (insert (an_malloc a1) (dom (vc_bos vc4))) \<and>
    vc_framebuffer vc4' = vc_framebuffer vc4 \<and> \<not> vc_needs_flush vc4')"
proof (cases "an_malloc a1 \<noteq> 0 \<and> an_create a1 \<and> an_mmap a1 \<and> an_offset a1 \<noteq> 0 \<and> an_malloc a2 \<noteq> 0 \<and> an_create a2")
  case True
  let ?p = "an_malloc a1" and ?q = "an_malloc a2" and ?s = "ROUNDUP 88 4096 :: u32"
  obtain m where m: "store_bytes (an_mem a1) 0 (concat (map u32_bytes fs_ins)) = Some m" "length m = length (an_mem a1)"
    using a store_bytes_defined [of "an_mem a1" 0 "concat (map u32_bytes fs_ins)"] store_bytes_length
    by (fastforce simp: fs_answers_ok_def)
  let ?b = "\<lparr>ub_ref = 1, ub_size = ?s, ub_handle = an_handle a1, ub_map = an_offset a1, ub_mem = m\<rparr>"
  let ?b' = "\<lparr>ub_ref = 1, ub_size = 0x1000, ub_handle = an_handle a2, ub_map = 0, ub_mem = []\<rparr>"
  let ?h = "(vc_bos vc4)(?p \<mapsto> ?b, ?q \<mapsto> ?b')" and ?l = "vc_bo_list vc4 @ [?p, ?q]"
  let ?c = "[CREATE_BO ?s 0, MMAP_BO (an_handle a1), CREATE_BO 0x1000 0]"
  let ?vc = "(heap_effect ?h ?l ?c vc4)\<lparr>vc_prog_fs := ?p, vc_uniforms := ?q\<rparr>"
  have "ROUNDUP (0x1000 :: u32) 4096 = 0x1000" by (simp add: ROUNDUP_def ROUNDDOWN_def)
  then have eq: "vc4_create_fs a1 a2 vc4 = Some (True, ?vc)"
    using True a m(1) by (auto simp: vc4_create_fs_def vc4_bo_alloc_def vc4_bo_map_def bo_store_def vc4_call_def
        heap_effect_def fs_answers_ok_def Let_def)
  have "heap_ok [] own (vc_bos vc4)" using idle by (simp add: gl_idle_def)
  then have "heap_ok [] (insert ?q (insert ?p own)) ?h"
    by (intro heap_ok_alloc) (use True a in \<open>auto simp: fs_answers_ok_def\<close>)
  from gl_idle_heap [OF idle this, of ?c ?l] have i: "gl_idle M (insert ?q (insert ?p own)) ?vc"
    by (simp add: gl_idle_def hs_fit_def no_submit_def)
  have "fs_ok ?vc" using True a m(2) by (auto simp: fs_ok_def fs_answers_ok_def)
  from gl_idle_ready [OF i _ _ this] have "gl_inv N M (insert ?q (insert ?p own)) ?vc" by simp
  then show ?thesis using idle by (simp add: eq gl_idle_def heap_effect_def)
next
  case False
  obtain m where m: "store_bytes (an_mem a1) 0 (concat (map u32_bytes fs_ins)) = Some m"
    using a store_bytes_defined [of "an_mem a1" 0 "concat (map u32_bytes fs_ins)"] by (auto simp: fs_answers_ok_def)
  then show ?thesis
    using False a by (auto simp: vc4_create_fs_def vc4_bo_alloc_def vc4_bo_map_def bo_store_def vc4_call_def Let_def)
qed

section \<open>Sessions\<close>

text \<open>An application starts with a new context and its shader; a failure of either ends it.\<close>

definition gl_start ::
    "('r, 'd) float_ops \<Rightarrow> (u32 \<Rightarrow> u8 list option) \<Rightarrow> bo_answers \<Rightarrow> bo_answers \<Rightarrow> 'r gl_state option" where
  "gl_start fl mem a1 a2 = do {
     r \<leftarrow> vc4_context_create True fl mem;
     vc4 \<leftarrow> r;
     (ok, vc4) \<leftarrow> vc4_create_fs a1 a2 vc4;
     if ok then Some ({vc_prog_fs vc4, vc_uniforms vc4}, vc4) else None }"

lemma gl_start_inv:
  assumes mem: "mem_ok mem" and a: "an_malloc a1 \<noteq> an_malloc a2" "88 \<le> length (an_mem a1)"
    and s: "gl_start fl mem a1 a2 = Some s"
  shows "session_inv 0 s"
proof -
  obtain vc0 where 0: "vc4_context_create True fl mem = Some (Some vc0)" "gl_idle LIST_MAX {} vc0"
    "vc_bos vc0 = Map.empty"
    using vc4_context_create_idle [OF mem, of True fl] by (auto elim!: returnsE split: option.splits)
  have "fs_answers_ok a1 a2 vc0" using a 0(3) by (simp add: fs_answers_ok_def)
  from vc4_create_fs_ok [OF 0(2) this, of 0] show ?thesis
    using s 0(1) by (auto simp: gl_start_def insert_commute elim!: returnsE split: if_splits)
qed

text \<open>The state in which the kernel calls the validator for a job: its arguments are those of the ioctl,
  the handles have been looked up, the array of shader states has the declared size, and every
  buffer has at least one page.\<close>

definition kernel_ready :: "'f vc4_dev \<Rightarrow> vc4_exec_info \<Rightarrow> user_job \<Rightarrow> bool" where
  "kernel_ready dev exec j \<longleftrightarrow>
     job_ok dev exec \<and> args exec = job_args j \<and> shader_state_count exec = 0 \<and>
     shader_state_size exec = shader_rec_count (job_args j) \<and>
     bo_count exec = bo_handle_count (job_args j) \<and>
     list_all (\<lambda>i. 4096 \<le> bo_size (handle_bo_map dev ! i)) (bo exec)"

lemma gl_inv_jobs: "gl_inv N M own vc4 \<Longrightarrow> SUBMIT_CL j \<in> set (vc_calls vc4) \<Longrightarrow> job_good j"
  by (auto simp: gl_inv_def gl_ok_def gl_static_def)

lemma job_good_accepted:
  assumes j: "job_good j" and k: "kernel_ready dev exec j" and v: "length (job_bin_cl j) \<le> length v"
  shows "returns (vc4_validate_bin_cl dev v (job_bin_cl j @ rest) exec) (\<lambda>(r, exec', v').
    r = Ok \<and> shader_state_count exec' = shader_rec_count (job_args j))"
proof -
  obtain cs where cs: "job_bin_cl j = bin_cmds_bytes cs" "length (bin_cmds_bytes cs) < 2 ^ 31"
    "unat (bin_cl_size (job_args j)) = length (bin_cmds_bytes cs)"
    "bin_cmds_ok (lib_sizes (unat (bo_handle_count (job_args j)))) 0 cs"
    "count_states cs = unat (shader_rec_count (job_args j))"
    using j unfolding job_good_def by blast
  note K = k [unfolded kernel_ready_def]
  have len: "length (bo exec) = unat (bo_handle_count (job_args j))" using K by (auto simp: job_ok_def)
  have "bin_cmds_ok (bo_sizes dev exec) 0 cs"
    by (rule bin_cmds_ok_more [OF cs(4)]) (use K len in \<open>simp_all add: list_all_length\<close>)
  then have "returns (vc4_validate_bin_cl dev v (bin_cmds_bytes cs @ rest) exec) (\<lambda>(r, exec', v').
      r = Ok \<and> unat (shader_state_count exec') = count_states cs)"
    by (intro bin_cmds_accepted) (use K cs v in simp_all)
  then show ?thesis unfolding cs(1) by (rule returns_mono) (use cs(5) in \<open>auto simp: word_unat_eq_iff\<close>)
qed


end
