(* ===== verification/Gl_Frame.thy ===== *)
theory Gl_Frame
  imports Gl_Vc4
begin

text \<open>
  What drawing leaves alone: the operations of the driver that draw, clear and submit never change
  the pipeline state the application has set, and they keep the list of buffer objects in step
  with the heap. Destroying a context relies on the list.
\<close>

definition settings ::
    "'r vc4_context \<Rightarrow> u32 \<times> u32 \<times> pipe_framebuffer_state \<times> 'r pipe_viewport_state \<times> pipe_vertex_buffer \<times>
      vc4_zsa_state" where
  "settings vc4 = (vc_prog_fs vc4, vc_uniforms vc4, vc_framebuffer vc4, vc_viewport vc4, vc_vertexbuf vc4,
     vc_zsa vc4)"

definition bo_list_ok :: "'r vc4_context \<Rightarrow> bool" where
  "bo_list_ok vc4 \<longleftrightarrow> distinct (vc_bo_list vc4) \<and> set (vc_bo_list vc4) = dom (vc_bos vc4)"

definition keeps :: "'r vc4_context \<Rightarrow> 'r vc4_context \<Rightarrow> bool" where
  "keeps vc4 vc4' \<longleftrightarrow> settings vc4' = settings vc4 \<and> (bo_list_ok vc4 \<longrightarrow> bo_list_ok vc4')"

named_theorems keeps_dests \<open>what a defined outcome of an operation keeps\<close>

lemma keeps_refl [simp, intro]: "keeps vc4 vc4"
  by (simp add: keeps_def)

lemma keeps_trans [trans]: "keeps a b \<Longrightarrow> keeps b c \<Longrightarrow> keeps a c"
  by (simp add: keeps_def)

lemma frame_fields [simp]:
  "settings (vc4\<lparr>vc_bcl := a\<rparr>) = settings vc4" "bo_list_ok (vc4\<lparr>vc_bcl := a\<rparr>) = bo_list_ok vc4"
  "settings (vc4\<lparr>vc_shader_rec := a\<rparr>) = settings vc4" "bo_list_ok (vc4\<lparr>vc_shader_rec := a\<rparr>) = bo_list_ok vc4"
  "settings (vc4\<lparr>vc_bo_handles := a\<rparr>) = settings vc4" "bo_list_ok (vc4\<lparr>vc_bo_handles := a\<rparr>) = bo_list_ok vc4"
  "settings (vc4\<lparr>vc_bo_pointers := a\<rparr>) = settings vc4" "bo_list_ok (vc4\<lparr>vc_bo_pointers := a\<rparr>) = bo_list_ok vc4"
  "settings (vc4\<lparr>vc_shader_rec_count := x\<rparr>) = settings vc4" "bo_list_ok (vc4\<lparr>vc_shader_rec_count := x\<rparr>) = bo_list_ok vc4"
  "settings (vc4\<lparr>vc_color_write := b\<rparr>) = settings vc4" "bo_list_ok (vc4\<lparr>vc_color_write := b\<rparr>) = bo_list_ok vc4"
  "settings (vc4\<lparr>vc_draw_min_x := x\<rparr>) = settings vc4" "bo_list_ok (vc4\<lparr>vc_draw_min_x := x\<rparr>) = bo_list_ok vc4"
  "settings (vc4\<lparr>vc_draw_min_y := x\<rparr>) = settings vc4" "bo_list_ok (vc4\<lparr>vc_draw_min_y := x\<rparr>) = bo_list_ok vc4"
  "settings (vc4\<lparr>vc_draw_max_x := x\<rparr>) = settings vc4" "bo_list_ok (vc4\<lparr>vc_draw_max_x := x\<rparr>) = bo_list_ok vc4"
  "settings (vc4\<lparr>vc_draw_max_y := x\<rparr>) = settings vc4" "bo_list_ok (vc4\<lparr>vc_draw_max_y := x\<rparr>) = bo_list_ok vc4"
  "settings (vc4\<lparr>vc_draw_width := x\<rparr>) = settings vc4" "bo_list_ok (vc4\<lparr>vc_draw_width := x\<rparr>) = bo_list_ok vc4"
  "settings (vc4\<lparr>vc_draw_height := x\<rparr>) = settings vc4" "bo_list_ok (vc4\<lparr>vc_draw_height := x\<rparr>) = bo_list_ok vc4"
  "settings (vc4\<lparr>vc_draw_tiles_x := x\<rparr>) = settings vc4" "bo_list_ok (vc4\<lparr>vc_draw_tiles_x := x\<rparr>) = bo_list_ok vc4"
  "settings (vc4\<lparr>vc_draw_tiles_y := x\<rparr>) = settings vc4" "bo_list_ok (vc4\<lparr>vc_draw_tiles_y := x\<rparr>) = bo_list_ok vc4"
  "settings (vc4\<lparr>vc_tile_width := x\<rparr>) = settings vc4" "bo_list_ok (vc4\<lparr>vc_tile_width := x\<rparr>) = bo_list_ok vc4"
  "settings (vc4\<lparr>vc_tile_height := x\<rparr>) = settings vc4" "bo_list_ok (vc4\<lparr>vc_tile_height := x\<rparr>) = bo_list_ok vc4"
  "settings (vc4\<lparr>vc_dirty := x\<rparr>) = settings vc4" "bo_list_ok (vc4\<lparr>vc_dirty := x\<rparr>) = bo_list_ok vc4"
  "settings (vc4\<lparr>vc_cleared := x\<rparr>) = settings vc4" "bo_list_ok (vc4\<lparr>vc_cleared := x\<rparr>) = bo_list_ok vc4"
  "settings (vc4\<lparr>vc_resolve := x\<rparr>) = settings vc4" "bo_list_ok (vc4\<lparr>vc_resolve := x\<rparr>) = bo_list_ok vc4"
  "settings (vc4\<lparr>vc_clear_color := c\<rparr>) = settings vc4" "bo_list_ok (vc4\<lparr>vc_clear_color := c\<rparr>) = bo_list_ok vc4"
  "settings (vc4\<lparr>vc_clear_depth := x\<rparr>) = settings vc4" "bo_list_ok (vc4\<lparr>vc_clear_depth := x\<rparr>) = bo_list_ok vc4"
  "settings (vc4\<lparr>vc_clear_stencil := d\<rparr>) = settings vc4" "bo_list_ok (vc4\<lparr>vc_clear_stencil := d\<rparr>) = bo_list_ok vc4"
  "settings (vc4\<lparr>vc_needs_flush := e\<rparr>) = settings vc4" "bo_list_ok (vc4\<lparr>vc_needs_flush := e\<rparr>) = bo_list_ok vc4"
  "settings (vc4\<lparr>vc_draw_calls_queued := x\<rparr>) = settings vc4" "bo_list_ok (vc4\<lparr>vc_draw_calls_queued := x\<rparr>) = bo_list_ok vc4"
  "settings (vc4\<lparr>vc_calls := f\<rparr>) = settings vc4" "bo_list_ok (vc4\<lparr>vc_calls := f\<rparr>) = bo_list_ok vc4"
  "settings (vc4\<lparr>vc_bos := h\<rparr>) = settings vc4" "settings (vc4\<lparr>vc_bo_list := l\<rparr>) = settings vc4"
  by (simp_all add: settings_def bo_list_ok_def)

lemma bo_list_ok_upd [simp]:
  "vc_bos vc4 = h \<Longrightarrow> h p \<noteq> None \<Longrightarrow> bo_list_ok (vc4\<lparr>vc_bos := h(p \<mapsto> b)\<rparr>) \<longleftrightarrow> bo_list_ok vc4"
  by (auto simp: bo_list_ok_def insert_absorb domI)

section \<open>Buffer objects\<close>

lemma keeps_remove:
  assumes "vc_bos vc4 p = Some b"
  shows "keeps vc4 (vc4\<lparr>vc_bo_list := remove1 p (vc_bo_list vc4), vc_calls := c, vc_bos := (vc_bos vc4)(p := None)\<rparr>)"
  by (auto simp: keeps_def bo_list_ok_def)

lemma vc4_bo_free_eq:
  "vc_bos vc4 p = Some b \<Longrightarrow> p \<noteq> 0 \<Longrightarrow>
     \<exists>c. vc4_bo_free p vc4 = Some (vc4\<lparr>vc_calls := c, vc_bos := (vc_bos vc4)(p := None)\<rparr>)"
  by (auto simp: vc4_bo_free_def vc4_call_def Let_def)

lemma vc4_bo_unreference_keeps [keeps_dests]:
  assumes "vc4_bo_unreference p vc4 = Some vc4'"
  shows "keeps vc4 vc4'"
proof (cases "vc_bos vc4 p")
  case None
  then show ?thesis using assms by (simp add: vc4_bo_unreference_def split: if_splits)
next
  case (Some b)
  let ?vc = "vc4\<lparr>vc_bos := (vc_bos vc4)(p \<mapsto> b\<lparr>ub_ref := ub_ref b - 1\<rparr>), vc_bo_list := remove1 p (vc_bo_list vc4)\<rparr>"
  have "vc_bos ?vc p = Some (b\<lparr>ub_ref := ub_ref b - 1\<rparr>)" by simp
  from vc4_bo_free_eq [OF this] show ?thesis
    using assms Some keeps_remove [OF Some]
    by (auto simp: keeps_def vc4_bo_unreference_def Let_def split: if_splits)
qed

lemma bo_store_keeps [keeps_dests]: "bo_store p i bs vc4 = Some vc4' \<Longrightarrow> keeps vc4 vc4'"
  by (auto simp: keeps_def bo_store_def Option.bind_eq_Some_conv)

lemma vc4_bo_map_keeps [keeps_dests]: "vc4_bo_map a p vc4 = Some (m, vc4') \<Longrightarrow> keeps vc4 vc4'"
  by (auto simp: keeps_def vc4_bo_map_def vc4_call_def Let_def Option.bind_eq_Some_conv split: if_splits)

lemma vc4_gem_hindex_keeps [keeps_dests]: "vc4_gem_hindex p vc4 = Some (h, vc4') \<Longrightarrow> keeps vc4 vc4'"
  by (auto simp: keeps_def vc4_gem_hindex_def vc4_bo_reference_def Let_def Option.bind_eq_Some_conv split: if_splits)

lemma cl_reloc_keeps [keeps_dests]: "cl_reloc cl r p off vc4 = Some (cl', r', vc4') \<Longrightarrow> keeps vc4 vc4'"
  by (auto simp: cl_reloc_def Option.bind_eq_Some_conv dest: keeps_dests)

text \<open>An allocation at a new address adds to the heap and to the list.\<close>

lemma vc4_bo_alloc_keeps:
  assumes "vc_bos vc4 (an_malloc a) = None"
  shows "vc4_bo_alloc a sz vc4 = (p, vc4') \<Longrightarrow> keeps vc4 vc4'" "vc4_bo_alloc_fb a vc4 = (p, vc4') \<Longrightarrow> keeps vc4 vc4'"
  using assms by (auto simp: keeps_def settings_def bo_list_ok_def vc4_bo_alloc_def vc4_bo_alloc_fb_def vc4_call_def
      Let_def split: if_splits)

lemma vc4_resource_create_keeps:
  assumes "vc_bos vc4 (an_malloc a) = None" "vc4_resource_create room a tmpl vc4 = (rsc, vc4')"
  shows "keeps vc4 vc4'"
  using assms vc4_bo_alloc_keeps [OF assms(1)]
  by (auto simp: vc4_resource_create_def Let_def split: if_splits prod.splits)

section \<open>Emission\<close>

lemma vc4_emit_nv_shader_state_keeps [keeps_dests]: "vc4_emit_nv_shader_state vc4 = Some vc4' \<Longrightarrow> keeps vc4 vc4'"
  by (auto simp: vc4_emit_nv_shader_state_def Let_def keeps_def Option.bind_eq_Some_conv cl_start_shader_reloc_def
      dest!: keeps_dests)

lemma emit_clip_window_keeps [keeps_dests]: "emit_clip_window fl vc4 = Some vc4' \<Longrightarrow> keeps vc4 vc4'"
  by (auto simp: keeps_def emit_clip_window_def Let_def Option.bind_eq_Some_conv split: prod.splits)

lemma emit_config_bits_keeps [keeps_dests]: "emit_config_bits vc4 = Some vc4' \<Longrightarrow> keeps vc4 vc4'"
  by (auto simp: keeps_def emit_config_bits_def Let_def Option.bind_eq_Some_conv split: prod.splits)

lemma emit_viewport_keeps [keeps_dests]: "emit_viewport fl vc4 = Some vc4' \<Longrightarrow> keeps vc4 vc4'"
  by (auto simp: keeps_def emit_viewport_def Let_def Option.bind_eq_Some_conv split: prod.splits)

lemma vc4_emit_state_keeps [keeps_dests]: "vc4_emit_state fl vc4 = Some vc4' \<Longrightarrow> keeps vc4 vc4'"
  unfolding vc4_emit_state_def
  by (auto simp: Option.bind_eq_Some_conv keeps_def split: if_splits dest!: keeps_dests)

lemma vc4_get_draw_cl_space_keeps [keeps_dests]: "vc4_get_draw_cl_space mem vc4 = Some vc4' \<Longrightarrow> keeps vc4 vc4'"
  by (auto simp: vc4_get_draw_cl_space_def keeps_def Option.bind_eq_Some_conv)

lemma vc4_start_draw_keeps [keeps_dests]: "vc4_start_draw mem vc4 = Some vc4' \<Longrightarrow> keeps vc4 vc4'"
  unfolding vc4_start_draw_def
  by (auto simp: keeps_def Option.bind_eq_Some_conv split: if_splits dest!: keeps_dests)

lemma vc4_update_compiled_shaders_keeps [keeps_dests]:
  "vc4_update_compiled_shaders m vc4 = Some vc4' \<Longrightarrow> keeps vc4 vc4'"
  unfolding vc4_update_compiled_shaders_def vc4_update_compiled_fs_def
  by (auto simp: Option.bind_eq_Some_conv keeps_def split: if_splits dest!: keeps_dests)

lemma draw_array_keeps [keeps_dests]: "draw_array info vc4 = Some vc4' \<Longrightarrow> keeps vc4 vc4'"
  by (auto simp: draw_array_def keeps_def Option.bind_eq_Some_conv)

lemma init_fbo_frame [simp]:
  "settings (vc4_init_context_fbo vc4) = settings vc4" "bo_list_ok (vc4_init_context_fbo vc4) = bo_list_ok vc4"
  by (simp_all add: vc4_init_context_fbo_def)

lemma vc4_draw_vbo_keeps [keeps_dests]:
  assumes "vc4_draw_vbo fl mem a info vc4 = Some vc4'" "di_index_size info = 0"
  shows "keeps vc4 vc4'"
  using assms unfolding vc4_draw_vbo_def Let_def
  by (auto simp: Option.bind_eq_Some_conv keeps_def split: if_splits dest!: keeps_dests)

section \<open>Jobs\<close>

lemma unreference_bos_keeps [keeps_dests]: "unreference_bos m is vc4 = Some vc4' \<Longrightarrow> keeps vc4 vc4'"
proof (induction m "is" vc4 rule: unreference_bos.induct)
  case (2 m i "is" vc4)
  then obtain p vc1 where "vc4_bo_unreference p vc4 = Some vc1" "unreference_bos m is vc1 = Some vc4'"
    "get_unaligned_32 m (4 * i) = Some p"
    by (auto simp: Option.bind_eq_Some_conv)
  with "2.IH" show ?case using keeps_trans vc4_bo_unreference_keeps by blast
qed simp

lemma vc4_job_reset_keeps [keeps_dests]: "vc4_job_reset vc4 = Some vc4' \<Longrightarrow> keeps vc4 vc4'"
  by (auto simp: vc4_job_reset_def keeps_def Option.bind_eq_Some_conv dest!: keeps_dests)

lemma setup_rcl_surface_keeps [keeps_dests]:
  "vc4_submit_setup_rcl_surface s d vc4 = Some (x, vc4') \<Longrightarrow> keeps vc4 vc4'"
  "vc4_submit_setup_rcl_render_config_surface s vc4 = Some (x, vc4') \<Longrightarrow> keeps vc4 vc4'"
  by (auto simp: vc4_submit_setup_rcl_surface_def vc4_submit_setup_rcl_render_config_surface_def Let_def
      keeps_def Option.bind_eq_Some_conv split: option.splits dest!: keeps_dests)

lemma vc4_job_submit_keeps [keeps_dests]: "vc4_job_submit mem vc4 = Some vc4' \<Longrightarrow> keeps vc4 vc4'"
  by (auto simp: vc4_job_submit_def vc4_call_def Let_def keeps_def Option.bind_eq_Some_conv split: if_splits
      dest!: keeps_dests)

lemma vc4_flush_keeps [keeps_dests]: "vc4_flush mem vc4 = Some vc4' \<Longrightarrow> keeps vc4 vc4'"
  by (auto simp: vc4_flush_def Let_def keeps_def Option.bind_eq_Some_conv split: if_splits dest!: keeps_dests)

lemma vc4_clear_keeps [keeps_dests]:
  assumes "vc4_clear fl mem buffers color depth stencil vc4 = Some vc4'"
  shows "keeps vc4 vc4'"
  using assms unfolding vc4_clear_def Let_def
  by (auto simp: keeps_def Option.bind_eq_Some_conv split: if_splits dest!: keeps_dests)

section \<open>The whole heap is released\<close>

text \<open>With the list in step with the heap, destroying a context frees every buffer object.\<close>

lemma free_bos_all:
  assumes "distinct l" "set l = dom (vc_bos vc4)" "0 \<notin> dom (vc_bos vc4)"
  shows "returns (free_bos l vc4) (\<lambda>vc4'. vc_bos vc4' = Map.empty \<and> settings vc4' = settings vc4)"
  using assms
proof (induction l arbitrary: vc4)
  case (Cons p ps)
  obtain b where "vc_bos vc4 p = Some b" using Cons.prems(2) by auto
  then have b: "vc_bos (vc4\<lparr>vc_bo_list := ps\<rparr>) p = Some b" by simp
  have "p \<noteq> 0" using Cons.prems by auto
  from vc4_bo_free_eq [OF b this] obtain c where
    c: "vc4_bo_free p (vc4\<lparr>vc_bo_list := ps\<rparr>) =
      Some (vc4\<lparr>vc_bo_list := ps, vc_calls := c, vc_bos := (vc_bos vc4)(p := None)\<rparr>)"
    by auto
  let ?vc = "vc4\<lparr>vc_bo_list := ps, vc_calls := c, vc_bos := (vc_bos vc4)(p := None)\<rparr>"
  have "dom (vc_bos ?vc) = dom (vc_bos vc4) - {p}" by auto
  then have "set ps = dom (vc_bos ?vc)" "0 \<notin> dom (vc_bos ?vc)" using Cons.prems by auto
  from Cons.IH [OF _ this] show ?case using c Cons.prems(1) by simp
next
  case Nil
  then have "dom (vc_bos vc4) = {}" by simp
  then show ?case by simp
qed

end
