(* ===== verification/Gl_Api.thy ===== *)
theory Gl_Api
  imports Gl_Vc4
begin

text \<open>
  The OpenGL ES interface of the graphics library: \<^verbatim>\<open>gl_context.c\<close>, \<^verbatim>\<open>gl.c\<close> and \<^verbatim>\<open>egl.c\<close> under
  \<^verbatim>\<open>libs-user-ucore/libgl/src\<close>, on top of the driver of theory \<open>Gl_Vc4\<close>. The functions take and
  return the current context. Signed parameters (\<^verbatim>\<open>GLint\<close>, \<^verbatim>\<open>GLsizei\<close>) are words read with
  \<open>sint\<close>; the arrays of the application are reached through a function from addresses to
  floating-point numbers, which is undefined where nothing is mapped.
\<close>

unbundle bit_operations_syntax

section \<open>State\<close>

text \<open>Of the description of the screen, the fields the library uses.\<close>

record fb_var_screeninfo =
  fv_xres :: u32
  fv_yres :: u32
  fv_xres_virtual :: u32
  fv_yres_virtual :: u32
  fv_yoffset :: u32
  fv_bits_per_pixel :: u32

record gl_screen =
  sc_fb_fd :: u32
  sc_gpu_fd :: u32
  sc_screen_size :: u32
  sc_double_buffer_offset :: u32
  sc_var :: fb_var_screeninfo
  sc_color_buf :: "vc4_resource option"
  sc_zs_buf :: "vc4_resource option"

record ('r, 'd) pipe_clear_state =
  cs_color :: "'r \<times> 'r \<times> 'r \<times> 'r"
  cs_depth :: 'd
  cs_stencil :: u32

record pipe_vertex_array_state =
  va_size :: u8
  va_stride :: u16
  va_enabled :: bool
  va_pointer :: u32

record ('r, 'd) gl_context =
  gc_screen :: gl_screen
  gc_pipe :: "'r vc4_context"
  gc_viewport :: "'r pipe_viewport_state"
  gc_framebuffer :: pipe_framebuffer_state
  gc_clear_state :: "('r, 'd) pipe_clear_state"
  gc_vertex_pointer_state :: pipe_vertex_array_state
  gc_color_pointer_state :: pipe_vertex_array_state
  gc_depth_stencil :: pipe_zsa_state
  gc_current_color :: "'r \<times> 'r \<times> 'r \<times> 'r"
  gc_last_error :: u32

abbreviation (input) "GL_DEPTH_BUFFER_BIT \<equiv> 0x100 :: u32"
abbreviation (input) "GL_STENCIL_BUFFER_BIT \<equiv> 0x400 :: u32"
abbreviation (input) "GL_COLOR_BUFFER_BIT \<equiv> 0x4000 :: u32"
abbreviation (input) "GL_TRIANGLE_FAN \<equiv> 6 :: u32"
abbreviation (input) "GL_NEVER \<equiv> 0x200 :: u32"
abbreviation (input) "GL_ALWAYS \<equiv> 0x207 :: u32"
abbreviation (input) "GL_DEPTH_TEST \<equiv> 0xB71 :: u32"
abbreviation (input) "GL_VERTEX_ARRAY \<equiv> 0x8074 :: u32"
abbreviation (input) "GL_COLOR_ARRAY \<equiv> 0x8076 :: u32"
abbreviation (input) "GL_NO_ERROR \<equiv> 0 :: u32"
abbreviation (input) "GL_INVALID_ENUM \<equiv> 0x500 :: u32"
abbreviation (input) "GL_INVALID_VALUE \<equiv> 0x501 :: u32"
abbreviation (input) "GL_OUT_OF_MEMORY \<equiv> 0x505 :: u32"
abbreviation (input) "GL_FLOAT \<equiv> 0x1406 :: u32"
abbreviation (input) "PIPE_CLEAR_COLOR \<equiv> 0x3FC :: u32"
abbreviation (input) "PIPE_BIND_DEPTH_STENCIL \<equiv> 0x1 :: u32"
abbreviation (input) "PIPE_BIND_RENDER_TARGET \<equiv> 0x2 :: u32"
abbreviation (input) "PIPE_BIND_VERTEX_BUFFER \<equiv> 0x10 :: u32"
abbreviation (input) float_half :: u32 where "float_half \<equiv> 0x3f000000"
abbreviation (input) float_one :: u32 where "float_one \<equiv> 0x3f800000"

section \<open>Viewport\<close>

text \<open>The macro \<^verbatim>\<open>CLAMP\<close> at its two uses: a signed number between 0 and an unsigned bound, and a float
  between the doubles 0 and 1.\<close>

definition clamp_int :: "u32 \<Rightarrow> u32 \<Rightarrow> u32" where
  "clamp_int x hi = (if sint x < 0 then 0 else if hi < x then hi else x)"

definition clamp_unit :: "('r, 'd) float_ops \<Rightarrow> 'r \<Rightarrow> 'r" where
  "clamp_unit fl x =
     (let d = db_of_fl fl x in
      fl_of_db fl (if db_less fl d (db_of_u32 fl 0) then db_of_u32 fl 0
                   else if db_less fl (db_of_u32 fl 1) d then db_of_u32 fl 1 else d))"

definition set_viewport_no_notify ::
    "('r, 'd) float_ops \<Rightarrow> u32 \<Rightarrow> u32 \<Rightarrow> u32 \<Rightarrow> u32 \<Rightarrow> ('r, 'd) gl_context \<Rightarrow> ('r, 'd) gl_context" where
  "set_viewport_no_notify fl x y w h ctx =
     (let fb = gc_framebuffer ctx;
          x = clamp_int x (fb_width fb);
          y = clamp_int y (fb_height fb);
          w = (if fb_width fb < w then fb_width fb else w);
          h = (if fb_height fb < h then fb_height fb else h);
          half_width = fl_mul fl (fl_of_bits fl float_half) (fl_of_s32 fl w);
          half_height = fl_mul fl (fl_of_bits fl float_half) (fl_of_s32 fl h);
          (sx, sy, sz) = vp_scale (gc_viewport ctx);
          (tx, ty, tz) = vp_translate (gc_viewport ctx)
      in ctx\<lparr>gc_viewport := \<lparr>vp_scale = (half_width, half_height, sz),
           vp_translate = (fl_add fl half_width (fl_of_s32 fl x), fl_add fl half_height (fl_of_s32 fl y), tz)\<rparr>\<rparr>)"

definition set_depth_range_no_notify ::
    "('r, 'd) float_ops \<Rightarrow> 'r \<Rightarrow> 'r \<Rightarrow> ('r, 'd) gl_context \<Rightarrow> ('r, 'd) gl_context" where
  "set_depth_range_no_notify fl n f ctx =
     (let f = clamp_unit fl f;
          n = clamp_unit fl n;
          half = db_of_fl fl (fl_of_bits fl float_half);
          (sx, sy, sz) = vp_scale (gc_viewport ctx);
          (tx, ty, tz) = vp_translate (gc_viewport ctx)
      in ctx\<lparr>gc_viewport := \<lparr>vp_scale = (sx, sy, fl_of_db fl (db_mul fl half (db_of_fl fl (fl_sub fl f n)))),
           vp_translate = (tx, ty, fl_of_db fl (db_mul fl half (db_of_fl fl (fl_add fl n f))))\<rparr>\<rparr>)"

section \<open>Contexts\<close>

definition gl_context_init :: "('r, 'd) float_ops \<Rightarrow> u32 \<Rightarrow> 'r vc4_context \<Rightarrow> ('r, 'd) gl_context" where
  "gl_context_init fl fd pipe =
     (let z = fl_of_bits fl 0; array = \<lparr>va_size = 0, va_stride = 0, va_enabled = False, va_pointer = 0\<rparr> in
      \<lparr>gc_screen = \<lparr>sc_fb_fd = 0, sc_gpu_fd = fd, sc_screen_size = 0, sc_double_buffer_offset = 0,
         sc_var = \<lparr>fv_xres = 0, fv_yres = 0, fv_xres_virtual = 0, fv_yres_virtual = 0, fv_yoffset = 0,
           fv_bits_per_pixel = 0\<rparr>,
         sc_color_buf = None, sc_zs_buf = None\<rparr>,
       gc_pipe = pipe, gc_viewport = \<lparr>vp_scale = (z, z, z), vp_translate = (z, z, z)\<rparr>,
       gc_framebuffer = \<lparr>fb_width = 0, fb_height = 0, fb_nr_cbufs = 0, fb_cbuf0 = None, fb_cbuf1 = None,
         fb_zsbuf = None\<rparr>,
       gc_clear_state = \<lparr>cs_color = (z, z, z, z), cs_depth = db_of_u32 fl 0, cs_stencil = 0\<rparr>,
       gc_vertex_pointer_state = array, gc_color_pointer_state = array,
       gc_depth_stencil = \<lparr>depth_enabled = False, depth_writemask = False, depth_func = 0,
         stencil_enabled = False\<rparr>,
       gc_current_color = (z, z, z, z), gc_last_error = GL_NO_ERROR\<rparr>)"

text \<open>The answers to \<^verbatim>\<open>malloc\<close> and \<^verbatim>\<open>open\<close> are arguments; the inner \<open>None\<close> is the null pointer.\<close>

definition gl_context_create ::
    "('r, 'd) float_ops \<Rightarrow> (u32 \<Rightarrow> u8 list option) \<Rightarrow> bool \<Rightarrow> u32 \<Rightarrow> bool \<Rightarrow> ('r, 'd) gl_context option option" where
  "gl_context_create fl mem room fd pipe_room =
     (if \<not> room \<or> fd = 0 then Some None
      else do {
        r \<leftarrow> vc4_context_create pipe_room fl mem;
        Some (map_option (gl_context_init fl fd) r) })"

text \<open>The surfaces are freed before the driver flushes; they are values here, and the flush of a
  pending job fails on the colour buffer, which is gone already.\<close>

definition gl_context_destroy ::
    "(u32 \<Rightarrow> u8 list option) \<Rightarrow> ('r, 'd) gl_context option \<Rightarrow> 'r vc4_context option option" where
  "gl_context_destroy mem ctx =
     (case ctx of
        None \<Rightarrow> Some None
      | Some ctx \<Rightarrow> do {
          pipe \<leftarrow> vc4_resource_destroy (sc_color_buf (gc_screen ctx)) (gc_pipe ctx);
          pipe \<leftarrow> vc4_resource_destroy (sc_zs_buf (gc_screen ctx)) pipe;
          pipe \<leftarrow> vc4_context_destroy mem pipe;
          Some (Some pipe) })"

text \<open>What the calls of \<^verbatim>\<open>gl_create_window\<close> answer: \<^verbatim>\<open>open\<close>, the ioctl, and the allocations for the two
  textures and the three surfaces.\<close>

record window_answers =
  wa_fd :: u32
  wa_info :: "rc \<times> fb_var_screeninfo"
  wa_color :: "bool \<times> bo_answers"
  wa_surfaces :: "bool \<times> bool \<times> bool"
  wa_zs :: "bool \<times> bo_answers"

text \<open>A view of the whole screen; a texture of one pixel per point of it.\<close>

definition window_surface ::
    "bool \<Rightarrow> fb_var_screeninfo \<Rightarrow> u32 \<Rightarrow> u32 \<Rightarrow> vc4_resource \<Rightarrow> vc4_surface option" where
  "window_surface room var cpp off texture =
     vc4_create_surface room texture \<lparr>sf_texture = texture, sf_cpp = cpp, sf_width = fv_xres var,
       sf_height = fv_yres var, sf_offset = off\<rparr>"

definition create_z_and_framebuffer ::
    "window_answers \<Rightarrow> fb_var_screeninfo \<Rightarrow> vc4_surface \<Rightarrow> vc4_surface \<Rightarrow> ('r, 'd) gl_context
      \<Rightarrow> (rc \<times> ('r, 'd) gl_context) option" where
  "create_z_and_framebuffer wa var c0 c1 ctx =
     (let (zs_buf, pipe) = vc4_resource_create (fst (wa_zs wa)) (snd (wa_zs wa))
            \<lparr>rs_cpp = 4, rs_width0 = fv_xres var, rs_height0 = fv_yres var, rs_bind = PIPE_BIND_DEPTH_STENCIL\<rparr>
            (gc_pipe ctx);
          ctx = ctx\<lparr>gc_screen := (gc_screen ctx)\<lparr>sc_zs_buf := zs_buf\<rparr>, gc_pipe := pipe\<rparr>
      in case zs_buf of
           None \<Rightarrow> Some (Err E_NOMEM, ctx)
         | Some zb \<Rightarrow> do {
             zs \<leftarrow> window_surface (snd (snd (wa_surfaces wa))) var 4 0 zb;
             let fb = \<lparr>fb_width = fv_xres var, fb_height = fv_yres var, fb_nr_cbufs = 2, fb_cbuf0 = Some c0,
               fb_cbuf1 = Some c1, fb_zsbuf = Some zs\<rparr>;
             Some (Ok, ctx\<lparr>gc_framebuffer := fb, gc_pipe := vc4_set_framebuffer_state fb (gc_pipe ctx)\<rparr>) })"

definition gl_create_window ::
    "window_answers \<Rightarrow> ('r, 'd) gl_context \<Rightarrow> (rc \<times> ('r, 'd) gl_context) option" where
  "gl_create_window wa ctx =
     (if wa_fd wa = 0 then Some (Err E_NODEV, ctx)
      else
        let (ret, var) = wa_info wa; ctx = ctx\<lparr>gc_screen := (gc_screen ctx)\<lparr>sc_var := var\<rparr>\<rparr> in
        if ret \<noteq> Ok then Some (ret, ctx)
        else
          let cpp = ucast (ucast (drop_bit 3 (fv_bits_per_pixel var)) :: u8) :: u32;
              dbo = fv_xres var * fv_yres var * cpp;
              (color_buf, pipe) = vc4_resource_create (fst (wa_color wa)) (snd (wa_color wa))
                \<lparr>rs_cpp = cpp, rs_width0 = fv_xres_virtual var, rs_height0 = fv_yres_virtual var,
                 rs_bind = PIPE_BIND_RENDER_TARGET OR PIPE_BIND_DISPLAY_TARGET\<rparr> (gc_pipe ctx);
              ctx = ctx\<lparr>gc_screen := (gc_screen ctx)\<lparr>sc_fb_fd := wa_fd wa,
                  sc_screen_size := fv_xres_virtual var * fv_yres_virtual var * cpp,
                  sc_double_buffer_offset := dbo, sc_color_buf := color_buf\<rparr>, gc_pipe := pipe\<rparr>
          in case color_buf of
               None \<Rightarrow> Some (Err E_NOMEM, ctx)
             | Some cb \<Rightarrow> do {
                 c0 \<leftarrow> window_surface (fst (wa_surfaces wa)) var cpp dbo cb;
                 c1 \<leftarrow> window_surface (fst (snd (wa_surfaces wa))) var cpp 0 cb;
                 create_z_and_framebuffer wa var c0 c1 ctx })"

definition gl_current_color :: "'r \<Rightarrow> 'r \<Rightarrow> 'r \<Rightarrow> 'r \<Rightarrow> ('r, 'd) gl_context \<Rightarrow> ('r, 'd) gl_context" where
  "gl_current_color red green blue alpha ctx = ctx\<lparr>gc_current_color := (red, green, blue, alpha)\<rparr>"

definition gl_depth_stencil_alpha :: "('r, 'd) gl_context \<Rightarrow> ('r, 'd) gl_context" where
  "gl_depth_stencil_alpha ctx =
     ctx\<lparr>gc_pipe := vc4_set_depth_stencil_alpha_state (gc_depth_stencil ctx) (gc_pipe ctx)\<rparr>"

text \<open>The colour of the clear state is already 0 when the code hands it to \<^verbatim>\<open>memset\<close>.\<close>

definition default_values :: "('r, 'd) float_ops \<Rightarrow> ('r, 'd) gl_context \<Rightarrow> ('r, 'd) gl_context" where
  "default_values fl ctx =
     (let one = fl_of_bits fl float_one;
          z = fl_of_bits fl 0;
          ctx = gl_current_color one one one one ctx;
          ctx = ctx\<lparr>gc_clear_state := \<lparr>cs_color = (z, z, z, z), cs_depth = db_of_u32 fl 1, cs_stencil = 0\<rparr>\<rparr>;
          ctx = gl_depth_stencil_alpha (ctx\<lparr>gc_depth_stencil := (gc_depth_stencil ctx)\<lparr>depth_enabled := False,
            depth_writemask := True, depth_func := PIPE_FUNC_LESS\<rparr>\<rparr>);
          ctx = set_viewport_no_notify fl 0 0 (fb_width (gc_framebuffer ctx)) (fb_height (gc_framebuffer ctx)) ctx;
          ctx = set_depth_range_no_notify fl z one ctx
      in ctx\<lparr>gc_pipe := vc4_set_viewport_state (gc_viewport ctx) (gc_pipe ctx)\<rparr>)"

definition gl_default_state ::
    "('r, 'd) float_ops \<Rightarrow> bo_answers \<Rightarrow> bo_answers \<Rightarrow> ('r, 'd) gl_context
      \<Rightarrow> (rc \<times> ('r, 'd) gl_context) option" where
  "gl_default_state fl a1 a2 ctx = do {
     let ctx = default_values fl ctx;
     (ok, pipe) \<leftarrow> vc4_create_fs a1 a2 (gc_pipe ctx);
     Some (if ok then Ok else Err E_NOMEM, ctx\<lparr>gc_pipe := pipe\<rparr>) }"

text \<open>The argument is the answer of the ioctl that moves the display.\<close>

definition gl_swap_buffers :: "rc \<Rightarrow> ('r, 'd) gl_context \<Rightarrow> (rc \<times> ('r, 'd) gl_context) option" where
  "gl_swap_buffers ret ctx = do {
     let fb = gc_framebuffer ctx;
     c0 \<leftarrow> fb_cbuf0 fb;
     let ctx = ctx\<lparr>gc_screen := (gc_screen ctx)\<lparr>sc_var := (sc_var (gc_screen ctx))\<lparr>fv_yoffset := sf_offset c0\<rparr>\<rparr>\<rparr>;
     if ret \<noteq> Ok then Some (ret, ctx)
     else
       let fb = fb\<lparr>fb_cbuf0 := fb_cbuf1 fb, fb_cbuf1 := Some c0\<rparr> in
       Some (ret, ctx\<lparr>gc_framebuffer := fb, gc_pipe := vc4_set_framebuffer_state fb (gc_pipe ctx)\<rparr>) }"

section \<open>Errors and state\<close>

definition gl_error :: "u32 \<Rightarrow> ('r, 'd) gl_context \<Rightarrow> ('r, 'd) gl_context" where
  "gl_error error ctx = (if gc_last_error ctx = GL_NO_ERROR then ctx\<lparr>gc_last_error := error\<rparr> else ctx)"

definition gl_get_error :: "('r, 'd) gl_context \<Rightarrow> u32 \<times> ('r, 'd) gl_context" where
  "gl_get_error ctx = (gc_last_error ctx, ctx\<lparr>gc_last_error := GL_NO_ERROR\<rparr>)"

definition gl_clear ::
    "('r, 'd) float_ops \<Rightarrow> (u32 \<Rightarrow> u8 list option) \<Rightarrow> u32 \<Rightarrow> ('r, 'd) gl_context \<Rightarrow> ('r, 'd) gl_context option" where
  "gl_clear fl mem buffers ctx = do {
     let cs = gc_clear_state ctx;
     pipe \<leftarrow> vc4_clear fl mem buffers (cs_color cs) (cs_depth cs) (cs_stencil cs) (gc_pipe ctx);
     Some (ctx\<lparr>gc_pipe := pipe\<rparr>) }"

definition gl_flush :: "(u32 \<Rightarrow> u8 list option) \<Rightarrow> ('r, 'd) gl_context \<Rightarrow> ('r, 'd) gl_context option" where
  "gl_flush mem ctx = do { pipe \<leftarrow> vc4_flush mem (gc_pipe ctx); Some (ctx\<lparr>gc_pipe := pipe\<rparr>) }"

text \<open>\<^verbatim>\<open>enabled\<close> of the depth state is a field of one bit.\<close>

definition gl_set_enable :: "u32 \<Rightarrow> u8 \<Rightarrow> ('r, 'd) gl_context \<Rightarrow> ('r, 'd) gl_context" where
  "gl_set_enable cap state ctx =
     (if cap = GL_DEPTH_TEST
      then gl_depth_stencil_alpha (ctx\<lparr>gc_depth_stencil := (gc_depth_stencil ctx)\<lparr>depth_enabled := state AND 1 \<noteq> 0\<rparr>\<rparr>)
      else gl_error GL_INVALID_ENUM ctx)"

definition gl_client_state :: "u32 \<Rightarrow> u8 \<Rightarrow> ('r, 'd) gl_context \<Rightarrow> ('r, 'd) gl_context" where
  "gl_client_state array state ctx =
     (if array = GL_VERTEX_ARRAY
      then ctx\<lparr>gc_vertex_pointer_state := (gc_vertex_pointer_state ctx)\<lparr>va_enabled := state \<noteq> 0\<rparr>\<rparr>
      else if array = GL_COLOR_ARRAY
      then ctx\<lparr>gc_color_pointer_state := (gc_color_pointer_state ctx)\<lparr>va_enabled := state \<noteq> 0\<rparr>\<rparr>
      else gl_error GL_INVALID_ENUM ctx)"

text \<open>The code updates the array state in place; here it is returned.\<close>

definition gl_pointer_array ::
    "pipe_vertex_array_state \<Rightarrow> int \<Rightarrow> int \<Rightarrow> u32 \<Rightarrow> u32 \<Rightarrow> u32 \<Rightarrow> u32 \<Rightarrow> ('r, 'd) gl_context
      \<Rightarrow> pipe_vertex_array_state \<times> ('r, 'd) gl_context" where
  "gl_pointer_array state sizeMin sizeMax sz type stride pointer ctx =
     (if sint sz < sizeMin \<or> sizeMax < sint sz then (state, gl_error GL_INVALID_VALUE ctx)
      else if type \<noteq> GL_FLOAT then (state, gl_error GL_INVALID_ENUM ctx)
      else if sint stride < 0 then (state, gl_error GL_INVALID_VALUE ctx)
      else (state\<lparr>va_size := ucast sz, va_stride := ucast stride, va_pointer := pointer\<rparr>, ctx))"

definition gl_depth_range :: "('r, 'd) float_ops \<Rightarrow> 'r \<Rightarrow> 'r \<Rightarrow> ('r, 'd) gl_context \<Rightarrow> ('r, 'd) gl_context" where
  "gl_depth_range fl n f ctx =
     (let ctx = set_depth_range_no_notify fl n f ctx
      in ctx\<lparr>gc_pipe := vc4_set_viewport_state (gc_viewport ctx) (gc_pipe ctx)\<rparr>)"

definition gl_viewport ::
    "('r, 'd) float_ops \<Rightarrow> u32 \<Rightarrow> u32 \<Rightarrow> u32 \<Rightarrow> u32 \<Rightarrow> ('r, 'd) gl_context \<Rightarrow> ('r, 'd) gl_context" where
  "gl_viewport fl x y w h ctx =
     (let ctx = set_viewport_no_notify fl x y w h ctx
      in ctx\<lparr>gc_pipe := vc4_set_viewport_state (gc_viewport ctx) (gc_pipe ctx)\<rparr>)"

section \<open>Drawing\<close>

definition pipe_buffer_create ::
    "bool \<Rightarrow> bo_answers \<Rightarrow> u32 \<Rightarrow> u32 \<Rightarrow> 'r vc4_context \<Rightarrow> vc4_resource option \<times> 'r vc4_context" where
  "pipe_buffer_create room a bnd sz pipe =
     vc4_resource_create room a \<lparr>rs_cpp = 1, rs_width0 = sz, rs_height0 = 1, rs_bind = bnd\<rparr> pipe"

text \<open>What a draw meets: whether there is room for the resource, the answers for its buffer, and the
  memory of the application.\<close>

record 'r draw_env =
  de_room :: bool
  de_answers :: bo_answers
  de_mem :: "u32 \<Rightarrow> 'r option"

definition array_stride :: "pipe_vertex_array_state \<Rightarrow> u32" where
  "array_stride va = (if va_stride va \<noteq> 0 then ucast (va_stride va) div 4 else ucast (va_size va))"

definition vertex_color ::
    "(u32 \<Rightarrow> 'r option) \<Rightarrow> u32 \<Rightarrow> nat \<Rightarrow> ('r, 'd) gl_context \<Rightarrow> ('r \<times> 'r \<times> 'r) option" where
  "vertex_color m first i ctx =
     (let va = gc_color_pointer_state ctx in
      if va_enabled va then do {
        let color = va_pointer va + 4 * (first * array_stride va) + 4 * (of_nat i * array_stride va);
        r \<leftarrow> m color;
        g \<leftarrow> m (color + 4);
        b \<leftarrow> m (color + 8);
        Some (r, g, b) }
      else (case gc_current_color ctx of (r, g, b, a) \<Rightarrow> Some (r, g, b)))"

text \<open>One \<^verbatim>\<open>struct nv_shaded_vertex\<close>, 24 bytes.\<close>

definition vertex_bytes ::
    "('r, 'd) float_ops \<Rightarrow> (u32 \<Rightarrow> 'r option) \<Rightarrow> u32 \<Rightarrow> nat \<Rightarrow> ('r, 'd) gl_context \<Rightarrow> u8 list option" where
  "vertex_bytes fl m first i ctx = do {
     let va = gc_vertex_pointer_state ctx;
     let pointer = va_pointer va + 4 * (first * array_stride va) + 4 * (of_nat i * array_stride va);
     let (sx, sy, sz) = vp_scale (gc_viewport ctx);
     let (tx, ty, tz) = vp_translate (gc_viewport ctx);
     let sixteen = fl_of_bits fl float_16;
     p0 \<leftarrow> m pointer;
     p1 \<leftarrow> m (pointer + 4);
     (r, g, b) \<leftarrow> vertex_color m first i ctx;
     z \<leftarrow> (if va_size va = 3 then do {
            p2 \<leftarrow> m (pointer + 8);
            Some (fl_add fl (fl_mul fl p2 sz) tz) }
          else Some (fl_of_bits fl 0));
     Some (u16_bytes (fl_to_s16 fl (fl_mul fl (fl_mul fl p0 sx) sixteen)) @
       u16_bytes (fl_to_s16 fl (fl_mul fl (fl_mul fl p1 (fl_neg fl sy)) sixteen)) @
       concat (map u32_bytes [fl_bits fl z, float_one, fl_bits fl r, fl_bits fl g, fl_bits fl b])) }"

fun write_vertices ::
    "(nat \<Rightarrow> u8 list option) \<Rightarrow> u32 \<Rightarrow> nat list \<Rightarrow> 'r vc4_context \<Rightarrow> 'r vc4_context option" where
  "write_vertices vb p [] pipe = Some pipe"
| "write_vertices vb p (i # is) pipe = do {
     bs \<leftarrow> vb i;
     pipe \<leftarrow> bo_store p (24 * i) bs pipe;
     write_vertices vb p is pipe }"

text \<open>The second half of \<^verbatim>\<open>gl_draw_arrays\<close>: fill the mapped buffer, draw, and give it back.\<close>

definition draw_vertex_buffer ::
    "('r, 'd) float_ops \<Rightarrow> (u32 \<Rightarrow> u8 list option) \<Rightarrow> 'r draw_env \<Rightarrow> u32 \<Rightarrow> u32 \<Rightarrow> u32 \<Rightarrow> ('r, 'd) gl_context
      \<Rightarrow> vc4_resource \<Rightarrow> 'r vc4_context \<Rightarrow> 'r vc4_context option" where
  "draw_vertex_buffer fl mem env mode first count ctx rsc pipe = do {
     pipe \<leftarrow> write_vertices (\<lambda>i. vertex_bytes fl (de_mem env) first i ctx) (rs_bo rsc) [0..<nat (sint count)] pipe;
     let pipe = vc4_set_vertex_buffers \<lparr>vb_stride = 24, vb_buffer_offset = 0, vb_resource = Some rsc\<rparr> pipe;
     pipe \<leftarrow> vc4_draw_vbo fl mem (de_answers env) \<lparr>di_index_size = 0, di_mode = ucast mode,
       di_has_user_indices = False, di_start = 0, di_count = count\<rparr> pipe;
     vc4_resource_destroy (Some rsc) pipe }"

definition gl_draw_arrays ::
    "('r, 'd) float_ops \<Rightarrow> (u32 \<Rightarrow> u8 list option) \<Rightarrow> 'r draw_env \<Rightarrow> u32 \<Rightarrow> u32 \<Rightarrow> u32 \<Rightarrow> ('r, 'd) gl_context
      \<Rightarrow> ('r, 'd) gl_context option" where
  "gl_draw_arrays fl mem env mode first count ctx =
     (if \<not> va_enabled (gc_vertex_pointer_state ctx) then Some ctx
      else
        let (rsc, pipe) = pipe_buffer_create (de_room env) (de_answers env) PIPE_BIND_VERTEX_BUFFER
              (24 * count) (gc_pipe ctx)
        in case rsc of
             None \<Rightarrow> Some (gl_error GL_OUT_OF_MEMORY (ctx\<lparr>gc_pipe := pipe\<rparr>))
           | Some rsc \<Rightarrow> do {
               (buffer, pipe) \<leftarrow> vc4_resource_transfer_map (de_answers env) rsc pipe;
               pipe \<leftarrow> draw_vertex_buffer fl mem env mode first count ctx rsc pipe;
               Some (ctx\<lparr>gc_pipe := pipe\<rparr>) })"

section \<open>The functions of the interface\<close>

definition glClearColor :: "'r \<Rightarrow> 'r \<Rightarrow> 'r \<Rightarrow> 'r \<Rightarrow> ('r, 'd) gl_context \<Rightarrow> ('r, 'd) gl_context" where
  "glClearColor red green blue alpha ctx =
     ctx\<lparr>gc_clear_state := (gc_clear_state ctx)\<lparr>cs_color := (red, green, blue, alpha)\<rparr>\<rparr>"

definition glClearDepthf :: "('r, 'd) float_ops \<Rightarrow> 'r \<Rightarrow> ('r, 'd) gl_context \<Rightarrow> ('r, 'd) gl_context" where
  "glClearDepthf fl depth ctx = ctx\<lparr>gc_clear_state := (gc_clear_state ctx)\<lparr>cs_depth := db_of_fl fl depth\<rparr>\<rparr>"

definition glClearStencil :: "u32 \<Rightarrow> ('r, 'd) gl_context \<Rightarrow> ('r, 'd) gl_context" where
  "glClearStencil s ctx = ctx\<lparr>gc_clear_state := (gc_clear_state ctx)\<lparr>cs_stencil := s\<rparr>\<rparr>"

definition glColor4f :: "'r \<Rightarrow> 'r \<Rightarrow> 'r \<Rightarrow> 'r \<Rightarrow> ('r, 'd) gl_context \<Rightarrow> ('r, 'd) gl_context" where
  "glColor4f red green blue alpha ctx = gl_current_color red green blue alpha ctx"

definition glClear ::
    "('r, 'd) float_ops \<Rightarrow> (u32 \<Rightarrow> u8 list option) \<Rightarrow> u32 \<Rightarrow> ('r, 'd) gl_context \<Rightarrow> ('r, 'd) gl_context option" where
  "glClear fl mem m ctx =
     (if m AND NOT (GL_COLOR_BUFFER_BIT OR GL_DEPTH_BUFFER_BIT OR GL_STENCIL_BUFFER_BIT) \<noteq> 0
      then Some (gl_error GL_INVALID_VALUE ctx)
      else
        let m = (if \<not> depth_writemask (gc_depth_stencil ctx) then m AND NOT PIPE_CLEAR_DEPTH else m);
            buffers = (if m AND GL_COLOR_BUFFER_BIT \<noteq> 0 then 0 OR PIPE_CLEAR_COLOR else 0);
            buffers = (if m AND GL_DEPTH_BUFFER_BIT \<noteq> 0 then buffers OR PIPE_CLEAR_DEPTH else buffers);
            buffers = (if m AND GL_STENCIL_BUFFER_BIT \<noteq> 0 then buffers OR PIPE_CLEAR_STENCIL else buffers)
        in gl_clear fl mem buffers ctx)"

definition glColorPointer :: "u32 \<Rightarrow> u32 \<Rightarrow> u32 \<Rightarrow> u32 \<Rightarrow> ('r, 'd) gl_context \<Rightarrow> ('r, 'd) gl_context" where
  "glColorPointer sz type stride pointer ctx =
     (let (va, ctx) = gl_pointer_array (gc_color_pointer_state ctx) 4 4 sz type stride pointer ctx
      in ctx\<lparr>gc_color_pointer_state := va\<rparr>)"

definition glDepthRangef :: "('r, 'd) float_ops \<Rightarrow> 'r \<Rightarrow> 'r \<Rightarrow> ('r, 'd) gl_context \<Rightarrow> ('r, 'd) gl_context" where
  "glDepthRangef fl n f ctx = gl_depth_range fl n f ctx"

text \<open>The field \<^verbatim>\<open>func\<close> has three bits, \<^verbatim>\<open>writemask\<close> one.\<close>

definition glDepthFunc :: "u32 \<Rightarrow> ('r, 'd) gl_context \<Rightarrow> ('r, 'd) gl_context" where
  "glDepthFunc func ctx =
     (if func < GL_NEVER \<or> GL_ALWAYS < func then gl_error GL_INVALID_ENUM ctx
      else gl_depth_stencil_alpha (ctx\<lparr>gc_depth_stencil := (gc_depth_stencil ctx)\<lparr>depth_func := ucast (func AND 7)\<rparr>\<rparr>))"

definition glDepthMask :: "u8 \<Rightarrow> ('r, 'd) gl_context \<Rightarrow> ('r, 'd) gl_context" where
  "glDepthMask flag ctx =
     gl_depth_stencil_alpha (ctx\<lparr>gc_depth_stencil := (gc_depth_stencil ctx)\<lparr>depth_writemask := flag AND 1 \<noteq> 0\<rparr>\<rparr>)"

definition glDisable :: "u32 \<Rightarrow> ('r, 'd) gl_context \<Rightarrow> ('r, 'd) gl_context" where
  "glDisable cap ctx = gl_set_enable cap 0 ctx"

definition glDisableClientState :: "u32 \<Rightarrow> ('r, 'd) gl_context \<Rightarrow> ('r, 'd) gl_context" where
  "glDisableClientState array ctx = gl_client_state array 0 ctx"

text \<open>The test \<^verbatim>\<open>mode < GL_POINTS\<close> compares an unsigned number with 0.\<close>

definition glDrawArrays ::
    "('r, 'd) float_ops \<Rightarrow> (u32 \<Rightarrow> u8 list option) \<Rightarrow> 'r draw_env \<Rightarrow> u32 \<Rightarrow> u32 \<Rightarrow> u32 \<Rightarrow> ('r, 'd) gl_context
      \<Rightarrow> ('r, 'd) gl_context option" where
  "glDrawArrays fl mem env mode first count ctx =
     (if GL_TRIANGLE_FAN < mode then Some (gl_error GL_INVALID_ENUM ctx)
      else if sint count < 0 then Some (gl_error GL_INVALID_VALUE ctx)
      else gl_draw_arrays fl mem env mode first count ctx)"

definition glDrawElements :: "u32 \<Rightarrow> u32 \<Rightarrow> u32 \<Rightarrow> u32 \<Rightarrow> ('r, 'd) gl_context \<Rightarrow> ('r, 'd) gl_context" where
  "glDrawElements mode count type indices ctx = ctx"

definition glEnable :: "u32 \<Rightarrow> ('r, 'd) gl_context \<Rightarrow> ('r, 'd) gl_context" where
  "glEnable cap ctx = gl_set_enable cap 1 ctx"

definition glEnableClientState :: "u32 \<Rightarrow> ('r, 'd) gl_context \<Rightarrow> ('r, 'd) gl_context" where
  "glEnableClientState array ctx = gl_client_state array 1 ctx"

definition glFlush :: "(u32 \<Rightarrow> u8 list option) \<Rightarrow> ('r, 'd) gl_context \<Rightarrow> ('r, 'd) gl_context option" where
  "glFlush mem ctx = gl_flush mem ctx"

definition glGetError :: "('r, 'd) gl_context \<Rightarrow> u32 \<times> ('r, 'd) gl_context" where
  "glGetError ctx = gl_get_error ctx"

definition glVertexPointer :: "u32 \<Rightarrow> u32 \<Rightarrow> u32 \<Rightarrow> u32 \<Rightarrow> ('r, 'd) gl_context \<Rightarrow> ('r, 'd) gl_context" where
  "glVertexPointer sz type stride pointer ctx =
     (let (va, ctx) = gl_pointer_array (gc_vertex_pointer_state ctx) 2 3 sz type stride pointer ctx
      in ctx\<lparr>gc_vertex_pointer_state := va\<rparr>)"

definition glViewport ::
    "('r, 'd) float_ops \<Rightarrow> u32 \<Rightarrow> u32 \<Rightarrow> u32 \<Rightarrow> u32 \<Rightarrow> ('r, 'd) gl_context \<Rightarrow> ('r, 'd) gl_context" where
  "glViewport fl x y w h ctx =
     (if sint w < 0 \<or> sint h < 0 then gl_error GL_INVALID_VALUE ctx else gl_viewport fl x y w h ctx)"

section \<open>EGL\<close>

text \<open>The contexts of a process live at addresses, with the address of the current one; 0 is both the
  null pointer and \<^verbatim>\<open>EGL_NO_CONTEXT\<close>.\<close>

record ('r, 'd) egl_state =
  egl_contexts :: "u32 \<rightharpoonup> ('r, 'd) gl_context"
  egl_current :: u32

record egl_answers =
  ea_context :: u32
  ea_gpu_fd :: u32
  ea_pipe :: bool
  ea_window :: window_answers
  ea_fs :: bo_answers
  ea_uniforms :: bo_answers

definition eglGetDisplay :: "u32 \<Rightarrow> u32" where
  "eglGetDisplay display_id = 1"

text \<open>A context that fails half-way stays allocated, but nobody has its address.\<close>

definition eglCreateContext ::
    "('r, 'd) float_ops \<Rightarrow> (u32 \<Rightarrow> u8 list option) \<Rightarrow> egl_answers \<Rightarrow> u32 \<Rightarrow> ('r, 'd) egl_state
      \<Rightarrow> (u32 \<times> ('r, 'd) egl_state) option" where
  "eglCreateContext fl mem ea dpy st =
     (if dpy = 0 then Some (0, st)
      else do {
        r \<leftarrow> gl_context_create fl mem (ea_context ea \<noteq> 0) (ea_gpu_fd ea) (ea_pipe ea);
        case r of
          None \<Rightarrow> Some (0, st)
        | Some ctx \<Rightarrow> do {
            (ret, ctx) \<leftarrow> gl_create_window (ea_window ea) ctx;
            if ret \<noteq> Ok then Some (0, st)
            else do {
              (ret, ctx) \<leftarrow> gl_default_state fl (ea_fs ea) (ea_uniforms ea) ctx;
              if ret \<noteq> Ok then Some (0, st)
              else Some (ea_context ea, st\<lparr>egl_contexts := (egl_contexts st)(ea_context ea \<mapsto> ctx)\<rparr>) } } })"

definition eglMakeCurrent :: "u32 \<Rightarrow> u32 \<Rightarrow> ('r, 'd) egl_state \<Rightarrow> bool \<times> ('r, 'd) egl_state" where
  "eglMakeCurrent dpy ctx st = (if dpy = 0 \<or> ctx = 0 then (False, st) else (True, st\<lparr>egl_current := ctx\<rparr>))"

definition eglDestroyContext ::
    "(u32 \<Rightarrow> u8 list option) \<Rightarrow> u32 \<Rightarrow> u32 \<Rightarrow> ('r, 'd) egl_state \<Rightarrow> (bool \<times> ('r, 'd) egl_state) option" where
  "eglDestroyContext mem dpy ctx st =
     (if ctx = 0 then Some (False, st)
      else do {
        c \<leftarrow> egl_contexts st ctx;
        pipe \<leftarrow> gl_context_destroy mem (Some c);
        Some (True, st\<lparr>egl_contexts := (egl_contexts st)(ctx := None)\<rparr>) })"

definition eglSwapBuffers :: "rc \<Rightarrow> u32 \<Rightarrow> ('r, 'd) egl_state \<Rightarrow> (bool \<times> ('r, 'd) egl_state) option" where
  "eglSwapBuffers ret dpy st = do {
     ctx \<leftarrow> egl_contexts st (egl_current st);
     (r, ctx) \<leftarrow> gl_swap_buffers ret ctx;
     Some (r = Ok, st\<lparr>egl_contexts := (egl_contexts st)(egl_current st \<mapsto> ctx)\<rparr>) }"

end
