(* ===== verification/Gl_Program.thy ===== *)
theory Gl_Program
  imports Gl_Session Gl_Frame Gl_Api
begin

text \<open>
  Programs on the OpenGL ES interface. A program creates a context, calls the functions of the
  interface in any order and destroys the context. The interface itself keeps the discipline
  the driver asks for (theory \<open>Gl_Session\<close>): a program cannot make the library submit a job that
  the kernel's validator rejects.
\<close>

unbundle bit_operations_syntax

section \<open>Calls\<close>

datatype 'r gl_call =
    GlClearColor 'r 'r 'r 'r
  | GlClearDepthf 'r
  | GlClearStencil u32
  | GlColor4f 'r 'r 'r 'r
  | GlClear u32
  | GlColorPointer u32 u32 u32 u32
  | GlDepthRangef 'r 'r
  | GlDepthFunc u32
  | GlDepthMask u8
  | GlDisable u32
  | GlDisableClientState u32
  | GlDrawArrays "'r draw_env" u32 u32 u32
  | GlDrawElements u32 u32 u32 u32
  | GlEnable u32
  | GlEnableClientState u32
  | GlFlush
  | GlGetError
  | GlVertexPointer u32 u32 u32 u32
  | GlViewport u32 u32 u32 u32
  | SwapBuffers rc

fun gl_call_run ::
    "('r, 'd) float_ops \<Rightarrow> (u32 \<Rightarrow> u8 list option) \<Rightarrow> 'r gl_call \<Rightarrow> ('r, 'd) gl_context \<Rightarrow> ('r, 'd) gl_context option" where
  "gl_call_run fl mem (GlClearColor r g b a) ctx = Some (glClearColor r g b a ctx)"
| "gl_call_run fl mem (GlClearDepthf d) ctx = Some (glClearDepthf fl d ctx)"
| "gl_call_run fl mem (GlClearStencil s) ctx = Some (glClearStencil s ctx)"
| "gl_call_run fl mem (GlColor4f r g b a) ctx = Some (glColor4f r g b a ctx)"
| "gl_call_run fl mem (GlClear m) ctx = glClear fl mem m ctx"
| "gl_call_run fl mem (GlColorPointer sz type stride p) ctx = Some (glColorPointer sz type stride p ctx)"
| "gl_call_run fl mem (GlDepthRangef n f) ctx = Some (glDepthRangef fl n f ctx)"
| "gl_call_run fl mem (GlDepthFunc func) ctx = Some (glDepthFunc func ctx)"
| "gl_call_run fl mem (GlDepthMask flag) ctx = Some (glDepthMask flag ctx)"
| "gl_call_run fl mem (GlDisable cap) ctx = Some (glDisable cap ctx)"
| "gl_call_run fl mem (GlDisableClientState array) ctx = Some (glDisableClientState array ctx)"
| "gl_call_run fl mem (GlDrawArrays env mode first count) ctx = glDrawArrays fl mem env mode first count ctx"
| "gl_call_run fl mem (GlDrawElements mode count type indices) ctx = Some (glDrawElements mode count type indices ctx)"
| "gl_call_run fl mem (GlEnable cap) ctx = Some (glEnable cap ctx)"
| "gl_call_run fl mem (GlEnableClientState array) ctx = Some (glEnableClientState array ctx)"
| "gl_call_run fl mem GlFlush ctx = glFlush mem ctx"
| "gl_call_run fl mem GlGetError ctx = Some (snd (glGetError ctx))"
| "gl_call_run fl mem (GlVertexPointer sz type stride p) ctx = Some (glVertexPointer sz type stride p ctx)"
| "gl_call_run fl mem (GlViewport x y w h) ctx = Some (glViewport fl x y w h ctx)"
| "gl_call_run fl mem (SwapBuffers ret) ctx = map_option snd (gl_swap_buffers ret ctx)"

text \<open>What a draw needs of its surroundings: a new address for the buffer, memory for all vertices
  behind its mapping, and vertices that can be read.\<close>

definition draw_env_ok ::
    "('r, 'd) float_ops \<Rightarrow> 'r draw_env \<Rightarrow> u32 \<Rightarrow> u32 \<Rightarrow> ('r, 'd) gl_context \<Rightarrow> bool" where
  "draw_env_ok fl env first count ctx \<longleftrightarrow>
     (let a = de_answers env in
      vc_bos (gc_pipe ctx) (an_malloc a) = None \<and> an_mmap a \<and> an_offset a \<noteq> 0 \<and>
      24 * unat count \<le> length (an_mem a) \<and>
      list_all (\<lambda>i. vertex_bytes fl (de_mem env) first i ctx \<noteq> None) [0..<unat count])"

fun call_ok :: "('r, 'd) float_ops \<Rightarrow> 'r gl_call \<Rightarrow> ('r, 'd) gl_context \<Rightarrow> bool" where
  "call_ok fl (GlDrawArrays env mode first count) ctx \<longleftrightarrow>
     va_enabled (gc_vertex_pointer_state ctx) \<and> mode \<le> GL_TRIANGLE_FAN \<and> 0 \<le> sint count \<longrightarrow>
       draw_env_ok fl env first count ctx"
| "call_ok fl c ctx \<longleftrightarrow> True"

fun gl_calls_run ::
    "('r, 'd) float_ops \<Rightarrow> (u32 \<Rightarrow> u8 list option) \<Rightarrow> 'r gl_call list \<Rightarrow> ('r, 'd) gl_context
      \<Rightarrow> ('r, 'd) gl_context option" where
  "gl_calls_run fl mem [] ctx = Some ctx"
| "gl_calls_run fl mem (c # cs) ctx = do { ctx \<leftarrow> gl_call_run fl mem c ctx; gl_calls_run fl mem cs ctx }"

fun calls_ok ::
    "('r, 'd) float_ops \<Rightarrow> (u32 \<Rightarrow> u8 list option) \<Rightarrow> 'r gl_call list \<Rightarrow> ('r, 'd) gl_context \<Rightarrow> bool" where
  "calls_ok fl mem [] ctx \<longleftrightarrow> True"
| "calls_ok fl mem (c # cs) ctx \<longleftrightarrow>
     call_ok fl c ctx \<and> (case gl_call_run fl mem c ctx of None \<Rightarrow> True | Some ctx \<Rightarrow> calls_ok fl mem cs ctx)"

text \<open>The clears and draws of a frame, that is up to the next \<^verbatim>\<open>glFlush\<close>.\<close>

fun frame_ok :: "nat \<Rightarrow> 'r gl_call list \<Rightarrow> bool" where
  "frame_ok k [] \<longleftrightarrow> True"
| "frame_ok k (GlFlush # cs) \<longleftrightarrow> frame_ok 0 cs"
| "frame_ok k (GlClear m # cs) \<longleftrightarrow> k < JOB_CALLS \<and> frame_ok (Suc k) cs"
| "frame_ok k (GlDrawArrays env mode first count # cs) \<longleftrightarrow> k < JOB_CALLS \<and> frame_ok (Suc k) cs"
| "frame_ok k (c # cs) \<longleftrightarrow> frame_ok k cs"

section \<open>The invariant\<close>

definition screen_ok :: "u32 set \<Rightarrow> ('r, 'd) gl_context \<Rightarrow> bool" where
  "screen_ok own ctx \<longleftrightarrow>
     (case (sc_color_buf (gc_screen ctx), sc_zs_buf (gc_screen ctx), fb_cbuf0 (gc_framebuffer ctx),
        fb_cbuf1 (gc_framebuffer ctx)) of
      (Some cb, Some zb, Some c0, Some c1) \<Rightarrow>
        rs_bo cb \<in> own \<and> rs_bo zb \<in> own \<and> rs_bo cb \<noteq> rs_bo zb \<and>
        rs_bo (sf_texture c0) = rs_bo cb \<and> rs_bo (sf_texture c1) = rs_bo cb \<and>
        vc_prog_fs (gc_pipe ctx) \<notin> {rs_bo cb, rs_bo zb} \<and> vc_uniforms (gc_pipe ctx) \<notin> {rs_bo cb, rs_bo zb}
    | _ \<Rightarrow> False)"

definition api_inv :: "nat \<Rightarrow> u32 set \<Rightarrow> ('r, 'd) gl_context \<Rightarrow> bool" where
  "api_inv k own ctx \<longleftrightarrow>
     gl_inv (op_room * k) LIST_MAX own (gc_pipe ctx) \<and> screen_ok own ctx \<and>
     vc_framebuffer (gc_pipe ctx) = gc_framebuffer ctx \<and> bo_list_ok (gc_pipe ctx)"

lemma screen_ok_cong:
  assumes "gc_screen ctx' = gc_screen ctx" "gc_framebuffer ctx' = gc_framebuffer ctx"
    "vc_prog_fs (gc_pipe ctx') = vc_prog_fs (gc_pipe ctx)" "vc_uniforms (gc_pipe ctx') = vc_uniforms (gc_pipe ctx)"
  shows "screen_ok own ctx' \<longleftrightarrow> screen_ok own ctx"
  unfolding screen_ok_def assms by (rule refl)

lemma screen_ok_surface:
  assumes "screen_ok own ctx"
  shows "surface_ok own (fb_cbuf0 (gc_framebuffer ctx))"
  using assms by (auto simp: screen_ok_def surface_ok_def split: option.splits)

lemma api_inv_cong:
  assumes "api_inv k own ctx" "gc_screen ctx' = gc_screen ctx" "gc_framebuffer ctx' = gc_framebuffer ctx"
    "gl_inv (op_room * k') LIST_MAX own (gc_pipe ctx')" "bo_list_ok (gc_pipe ctx')"
    "vc_prog_fs (gc_pipe ctx') = vc_prog_fs (gc_pipe ctx)" "vc_uniforms (gc_pipe ctx') = vc_uniforms (gc_pipe ctx)"
    "vc_framebuffer (gc_pipe ctx') = vc_framebuffer (gc_pipe ctx)"
  shows "api_inv k' own ctx'"
  using assms screen_ok_cong [of ctx' ctx own] by (simp add: api_inv_def)

text \<open>What an operation of the driver leaves to the library.\<close>

definition same_target :: "'r vc4_context \<Rightarrow> 'r vc4_context \<Rightarrow> bool" where
  "same_target vc4 vc4' \<longleftrightarrow>
     vc_prog_fs vc4' = vc_prog_fs vc4 \<and> vc_uniforms vc4' = vc_uniforms vc4 \<and>
     vc_framebuffer vc4' = vc_framebuffer vc4 \<and> vc_viewport vc4' = vc_viewport vc4 \<and> vc_zsa vc4' = vc_zsa vc4 \<and>
     (bo_list_ok vc4 \<longrightarrow> bo_list_ok vc4')"

lemma keeps_target: "keeps vc4 vc4' \<Longrightarrow> same_target vc4 vc4'"
  by (simp add: keeps_def settings_def same_target_def)

lemma target_trans: "same_target a b \<Longrightarrow> same_target b c \<Longrightarrow> same_target a c"
  by (simp add: same_target_def)

lemma set_vertex_buffers_target: "same_target vc4 (vc4_set_vertex_buffers vb vc4)"
  by (simp add: same_target_def vc4_set_vertex_buffers_def bo_list_ok_def Let_def)

lemma api_inv_target:
  assumes "api_inv k own ctx" "same_target (gc_pipe ctx) pipe" "gl_inv (op_room * k') LIST_MAX own pipe"
  shows "api_inv k' own (ctx\<lparr>gc_pipe := pipe\<rparr>)"
  by (rule api_inv_cong [OF assms(1)]) (use assms in \<open>simp_all add: api_inv_def same_target_def\<close>)

section \<open>Every call keeps the invariant\<close>

lemma state_setters_frame [simp]:
  "bo_list_ok (vc4_set_viewport_state vp vc4) = bo_list_ok vc4"
  "bo_list_ok (vc4_set_depth_stencil_alpha_state cso vc4) = bo_list_ok vc4"
  "bo_list_ok (vc4_set_vertex_buffers vb vc4) = bo_list_ok vc4"
  "bo_list_ok (vc4_set_framebuffer_state fb vc4) = bo_list_ok vc4"
  by (simp_all add: vc4_set_viewport_state_def vc4_set_depth_stencil_alpha_state_def vc4_set_vertex_buffers_def
      vc4_set_framebuffer_state_def bo_list_ok_def Let_def)

lemma state_setters_fields [simp]:
  "vc_prog_fs (vc4_set_viewport_state vp vc4) = vc_prog_fs vc4"
  "vc_uniforms (vc4_set_viewport_state vp vc4) = vc_uniforms vc4"
  "vc_framebuffer (vc4_set_viewport_state vp vc4) = vc_framebuffer vc4"
  "vc_prog_fs (vc4_set_depth_stencil_alpha_state cso vc4) = vc_prog_fs vc4"
  "vc_uniforms (vc4_set_depth_stencil_alpha_state cso vc4) = vc_uniforms vc4"
  "vc_framebuffer (vc4_set_depth_stencil_alpha_state cso vc4) = vc_framebuffer vc4"
  "vc_prog_fs (vc4_set_framebuffer_state fb vc4) = vc_prog_fs vc4"
  "vc_uniforms (vc4_set_framebuffer_state fb vc4) = vc_uniforms vc4"
  "vc_framebuffer (vc4_set_framebuffer_state fb vc4) = fb"
  by (simp_all add: vc4_set_viewport_state_def vc4_set_depth_stencil_alpha_state_def
      vc4_set_framebuffer_state_def Let_def)

text \<open>Calls that change the state of the library, and calls that pass new state on to the driver.\<close>

lemma api_inv_local:
  assumes "api_inv k own ctx" "gc_screen ctx' = gc_screen ctx" "gc_framebuffer ctx' = gc_framebuffer ctx"
    "gc_pipe ctx' = gc_pipe ctx"
  shows "api_inv k own ctx'"
  by (rule api_inv_cong [OF assms(1-3)]) (use assms in \<open>simp_all add: api_inv_def\<close>)

lemma api_inv_setters:
  assumes "api_inv k own ctx" "gc_screen ctx' = gc_screen ctx" "gc_framebuffer ctx' = gc_framebuffer ctx"
    and "gc_pipe ctx' = vc4_set_viewport_state vp (gc_pipe ctx) \<or>
      gc_pipe ctx' = vc4_set_depth_stencil_alpha_state cso (gc_pipe ctx)"
  shows "api_inv k own ctx'"
  by (rule api_inv_cong [OF assms(1-3)])
    (use assms set_state_inv(2,4) [of _ _ _ "gc_pipe ctx"] in \<open>auto simp: api_inv_def\<close>)

lemma gl_error_fields [simp]:
  "gc_screen (gl_error e ctx) = gc_screen ctx" "gc_framebuffer (gl_error e ctx) = gc_framebuffer ctx"
  "gc_pipe (gl_error e ctx) = gc_pipe ctx"
  by (simp_all add: gl_error_def)

lemma gl_pointer_array_fields:
  assumes "gl_pointer_array va lo hi sz type stride p ctx = (va', ctx')"
  shows "gc_screen ctx' = gc_screen ctx" "gc_framebuffer ctx' = gc_framebuffer ctx" "gc_pipe ctx' = gc_pipe ctx"
  using assms by (auto simp: gl_pointer_array_def split: if_splits)

lemma set_no_notify_fields [simp]:
  "gc_screen (set_viewport_no_notify fl x y w h ctx) = gc_screen ctx"
  "gc_framebuffer (set_viewport_no_notify fl x y w h ctx) = gc_framebuffer ctx"
  "gc_pipe (set_viewport_no_notify fl x y w h ctx) = gc_pipe ctx"
  "gc_screen (set_depth_range_no_notify fl n f ctx) = gc_screen ctx"
  "gc_framebuffer (set_depth_range_no_notify fl n f ctx) = gc_framebuffer ctx"
  "gc_pipe (set_depth_range_no_notify fl n f ctx) = gc_pipe ctx"
  by (simp_all add: set_viewport_no_notify_def set_depth_range_no_notify_def Let_def split: prod.splits)

lemma local_calls_inv:
  assumes "api_inv k own ctx"
  shows "api_inv k own (glClearColor r g b a ctx)" "api_inv k own (glClearDepthf fl d ctx)"
    "api_inv k own (glClearStencil s ctx)" "api_inv k own (glColor4f r g b a ctx)"
    "api_inv k own (glColorPointer sz type stride p ctx)" "api_inv k own (glVertexPointer sz type stride p ctx)"
    "api_inv k own (glDisableClientState array ctx)" "api_inv k own (glEnableClientState array ctx)"
    "api_inv k own (snd (glGetError ctx))" "api_inv k own (gl_error e ctx)"
  by (rule api_inv_local [OF assms];
      simp add: glClearColor_def glClearDepthf_def glClearStencil_def glColor4f_def gl_current_color_def
        glColorPointer_def glVertexPointer_def glDisableClientState_def glEnableClientState_def gl_client_state_def
        glGetError_def gl_get_error_def gl_pointer_array_fields Let_def split: prod.splits)+

lemma setter_calls_inv:
  assumes "api_inv k own ctx"
  shows "api_inv k own (glDepthRangef fl n f ctx)" "api_inv k own (glViewport fl x y w h ctx)"
    "api_inv k own (glDepthFunc func ctx)" "api_inv k own (glDepthMask flag ctx)"
    "api_inv k own (glDisable cap ctx)" "api_inv k own (glEnable cap ctx)"
  using assms local_calls_inv(10) [OF assms]
  by (auto simp: glDepthRangef_def gl_depth_range_def glViewport_def gl_viewport_def glDepthFunc_def glDepthMask_def
      glDisable_def glEnable_def gl_set_enable_def gl_depth_stencil_alpha_def Let_def
      intro!: api_inv_setters [OF assms])

lemma gl_swap_buffers_inv:
  assumes "api_inv k own ctx"
  shows "returns (gl_swap_buffers ret ctx) (\<lambda>(r, ctx'). r = ret \<and> api_inv k own ctx')"
  using assms set_state_inv(1) [of "op_room * k" LIST_MAX own "gc_pipe ctx"]
  by (auto simp: gl_swap_buffers_def api_inv_def screen_ok_def Let_def split: option.splits)

lemma glFlush_inv:
  assumes inv: "api_inv k own ctx" and mem: "mem_ok mem" and k: "k \<le> JOB_CALLS"
  shows "returns (glFlush mem ctx) (\<lambda>ctx'. api_inv 0 own ctx' \<and> \<not> vc_needs_flush (gc_pipe ctx'))"
proof -
  have le: "2 * (op_room * k) + 1000 \<le> LIST_MAX" "LIST_MAX < 2 ^ 30"
    using k by (simp_all add: op_room_def LIST_MAX_def JOB_CALLS_def)
  have I: "gl_inv (op_room * k) LIST_MAX own (gc_pipe ctx)" "surface_ok own (fb_cbuf0 (vc_framebuffer (gc_pipe ctx)))"
    using inv screen_ok_surface by (auto simp: api_inv_def)
  obtain pipe where p: "vc4_flush mem (gc_pipe ctx) = Some pipe" "gl_inv 0 LIST_MAX own pipe" "\<not> vc_needs_flush pipe"
    using vc4_flush_ok [OF I(1) mem le I(2)] by (auto elim!: returnsE)
  have "api_inv 0 own (ctx\<lparr>gc_pipe := pipe\<rparr>)"
    using api_inv_target [OF inv keeps_target [OF vc4_flush_keeps [OF p(1)]], of 0] p(2) by simp
  then show ?thesis using p by (simp add: glFlush_def gl_flush_def)
qed

lemma api_inv_mono: "api_inv k own ctx \<Longrightarrow> k \<le> k' \<Longrightarrow> api_inv k' own ctx"
  unfolding api_inv_def using gl_inv_mono mult_le_mono2 by blast

lemma glClear_inv:
  assumes inv: "api_inv k own ctx" and mem: "mem_ok mem" and k: "k < JOB_CALLS"
  shows "returns (glClear fl mem m ctx) (api_inv (Suc k) own)"
proof -
  have le: "2 * (op_room * k) + 1000 \<le> LIST_MAX" "LIST_MAX < 2 ^ 30"
    using k by (simp_all add: op_room_def LIST_MAX_def JOB_CALLS_def)
  have I: "gl_inv (op_room * k) LIST_MAX own (gc_pipe ctx)" "surface_ok own (fb_cbuf0 (vc_framebuffer (gc_pipe ctx)))"
    using inv screen_ok_surface by (auto simp: api_inv_def)
  have "returns (gl_clear fl mem buffers ctx) (api_inv (Suc k) own)" for buffers
  proof -
    let ?cs = "gc_clear_state ctx"
    obtain pipe where p: "vc4_clear fl mem buffers (cs_color ?cs) (cs_depth ?cs) (cs_stencil ?cs) (gc_pipe ctx) = Some pipe"
      "gl_inv (op_room * k + op_room) LIST_MAX own pipe"
      using vc4_clear_ok [OF I(1) mem le I(2), of fl buffers "cs_color ?cs" "cs_depth ?cs" "cs_stencil ?cs"] by (auto elim!: returnsE)
    have "api_inv (Suc k) own (ctx\<lparr>gc_pipe := pipe\<rparr>)"
      by (rule api_inv_target [OF inv keeps_target [OF vc4_clear_keeps [OF p(1)]]]) (use p(2) in \<open>simp add: add.commute\<close>)
    then show ?thesis using p(1) by (auto simp: gl_clear_def Let_def)
  qed
  then show ?thesis
    using api_inv_mono [OF local_calls_inv(10) [OF inv], of "Suc k"] by (simp add: glClear_def Let_def)
qed

section \<open>Drawing\<close>

lemma gl_inv_own:
  assumes "gl_inv N M own vc4"
  shows "own \<subseteq> dom (vc_bos vc4)" "vc_prog_fs vc4 \<in> own" "vc_uniforms vc4 \<in> own" "0 \<notin> dom (vc_bos vc4)"
proof -
  obtain cs rs ps where ok: "gl_ok N M 0 0 0 cs rs ps own vc4" using assms by (auto simp: gl_inv_def)
  have heap: "heap_ok ps own (vc_bos vc4)" using ok by (simp add: gl_ok_def bos_ok_def)
  show "own \<subseteq> dom (vc_bos vc4)" using heap by (simp add: heap_ok_def)
  show "0 \<notin> dom (vc_bos vc4)" using heap by (auto simp: heap_ok_def bo_ref_ok_def)
  show "vc_prog_fs vc4 \<in> own" "vc_uniforms vc4 \<in> own" using ok by (simp_all add: gl_ok_def gl_static_def)
qed

lemma vertex_bytes_length: "vertex_bytes fl m first i ctx = Some bs \<Longrightarrow> length bs = 24"
  by (auto simp: vertex_bytes_def Let_def Option.bind_eq_Some_conv u16_bytes_def u32_bytes_def split: prod.splits)

lemma bo_store_inv:
  assumes inv: "gl_inv N M own vc4" and b: "vc_bos vc4 p = Some b" "ub_map b \<noteq> 0" "i + length bs \<le> length (ub_mem b)"
  shows "returns (bo_store p i bs vc4) (\<lambda>vc4'. gl_inv N M own vc4' \<and>
    (\<exists>m. length m = length (ub_mem b) \<and> vc_bos vc4' p = Some (b\<lparr>ub_mem := m\<rparr>)))"
proof -
  obtain cs rs ps where ok: "gl_ok N M 0 0 0 cs rs ps own vc4" using inv by (auto simp: gl_inv_def)
  obtain m where m: "length m = length (ub_mem b)"
    "bo_store p i bs vc4 = Some (vc4\<lparr>vc_bos := (vc_bos vc4)(p \<mapsto> b\<lparr>ub_mem := m\<rparr>)\<rparr>)"
    using bo_store_ok [OF ok b] by (auto elim!: returnsE)
  have "gl_inv N M own (vc4\<lparr>vc_bos := (vc_bos vc4)(p \<mapsto> b\<lparr>ub_mem := m\<rparr>)\<rparr>)"
    by (rule gl_inv_lift [OF inv]) (use bo_store_ok [OF _ b] m(2) in \<open>auto elim!: returnsE\<close>)
  then show ?thesis using m by auto
qed

lemma write_vertices_ok:
  assumes "gl_inv N M own vc4" "vc_bos vc4 p = Some b" "ub_map b \<noteq> 0"
    and "\<And>i. i \<in> set is \<Longrightarrow> \<exists>bs. vb i = Some bs \<and> 24 * i + length bs \<le> length (ub_mem b)"
  shows "returns (write_vertices vb p is vc4) (\<lambda>vc4'. gl_inv N M own vc4' \<and> keeps vc4 vc4')"
  using assms
proof (induction "is" arbitrary: vc4 b)
  case (Cons i "is")
  obtain bs where bs: "vb i = Some bs" "24 * i + length bs \<le> length (ub_mem b)" using Cons.prems(4) by auto
  obtain vc1 m where 1: "bo_store p (24 * i) bs vc4 = Some vc1" "gl_inv N M own vc1" "length m = length (ub_mem b)"
    "vc_bos vc1 p = Some (b\<lparr>ub_mem := m\<rparr>)"
    using bo_store_inv [OF Cons.prems(1-3) bs(2)] by (auto elim!: returnsE)
  have "returns (write_vertices vb p is vc1) (\<lambda>vc4'. gl_inv N M own vc4' \<and> keeps vc1 vc4')"
    by (rule Cons.IH [OF 1(2,4)]) (use Cons.prems(3,4) 1(3) in auto)
  then show ?case
    using bs(1) 1(1) keeps_trans [OF bo_store_keeps [OF 1(1)]] by (auto elim!: returns_mono)
qed simp

lemma nat_sint_le: "nat (sint (x :: u32)) \<le> unat x"
proof -
  have "- (2 ^ 31) \<le> uint x" by (rule order_trans [OF _ uint_ge_0]) simp
  then have "sint x \<le> uint x"
    using signed_take_bit_int_less_eq_self_iff [of 31 "uint x"] by (simp add: sint_uint)
  then show ?thesis using nat_mono [of "sint x" "uint x"] by simp
qed

lemma vertex_buffer_ready:
  assumes inv: "gl_inv N M own vc4" and new: "vc_bos vc4 (an_malloc a) = None" and a: "an_mmap a" "an_offset a \<noteq> 0"
    and eq: "vc4_resource_create room a tmpl vc4 = (Some rsc, vc1)"
  shows "returns (vc4_resource_transfer_map a rsc vc1) (\<lambda>(m, vc2).
    gl_inv N M (insert (rs_bo rsc) own) vc2 \<and> keeps vc4 vc2 \<and> rs_bo rsc = an_malloc a \<and>
    (\<exists>b. vc_bos vc2 (rs_bo rsc) = Some b \<and> ub_map b \<noteq> 0 \<and> ub_mem b = an_mem a))"
  using eq
proof (cases rule: vc4_resource_create_cases)
  case (new r b l c)
  have 1: "gl_inv N M (insert (rs_bo rsc) own) vc1" using vc4_resource_create_ok [OF inv assms(2) eq] by simp
  obtain m vc2 where 2: "vc4_resource_transfer_map a rsc vc1 = Some (m, vc2)"
    "gl_inv N M (insert (rs_bo rsc) own) vc2"
    using vc4_resource_map_ok [OF 1, of rsc a] by (auto elim!: returnsE)
  have "vc_bos vc1 (rs_bo rsc) = Some b" using new by (simp add: heap_effect_def)
  then have "vc_bos vc2 (rs_bo rsc) = Some (b\<lparr>ub_map := an_offset a, ub_mem := an_mem a\<rparr>)"
    using 2(1) new a by (auto simp: vc4_resource_transfer_map_def vc4_bo_map_def vc4_call_def Let_def)
  moreover have "keeps vc1 vc2" using 2(1) vc4_bo_map_keeps by (simp add: vc4_resource_transfer_map_def)
  ultimately show ?thesis
    using 2 new a(2) keeps_trans [OF vc4_resource_create_keeps [OF assms(2) eq]] by auto
qed simp

lemma draw_vertex_buffer_ok:
  assumes inv: "gl_inv N LIST_MAX (insert p own) vc4" and p: "p \<notin> own" "vc_prog_fs vc4 \<in> own" "vc_uniforms vc4 \<in> own"
    and r: "rs_bo r = p" and mem: "mem_ok mem" and le: "2 * N + 550 \<le> LIST_MAX" "LIST_MAX < 2 ^ 30"
    and b: "vc_bos vc4 p = Some b" "ub_map b \<noteq> 0" "24 * unat count \<le> length (ub_mem b)"
    and vb: "list_all (\<lambda>i. vertex_bytes fl (de_mem env) first i ctx \<noteq> None) [0..<unat count]"
  shows "returns (draw_vertex_buffer fl mem env mode first count ctx r vc4)
    (\<lambda>vc4'. gl_inv (N + op_room) LIST_MAX own vc4' \<and> same_target vc4 vc4')"
proof -
  let ?vb = "\<lparr>vb_stride = 24, vb_buffer_offset = 0, vb_resource = Some r\<rparr>"
  let ?info = "\<lparr>di_index_size = 0, di_mode = ucast mode, di_has_user_indices = False, di_start = 0, di_count = count\<rparr>"
  have vb': "\<exists>bs. vertex_bytes fl (de_mem env) first i ctx = Some bs \<and> 24 * i + length bs \<le> length (ub_mem b)"
    if "i \<in> set [0..<nat (sint count)]" for i
  proof -
    have i: "i < unat count" using that nat_sint_le [of count] by simp
    then obtain bs where bs: "vertex_bytes fl (de_mem env) first i ctx = Some bs" using vb by (fastforce simp: list_all_iff)
    have "24 * i + 24 \<le> 24 * unat count" using i by simp
    then show ?thesis using bs vertex_bytes_length [OF bs] b(3) by auto
  qed
  obtain vc1 where 1: "write_vertices (\<lambda>i. vertex_bytes fl (de_mem env) first i ctx) p [0..<nat (sint count)] vc4 = Some vc1"
    "gl_inv N LIST_MAX (insert p own) vc1" "keeps vc4 vc1"
    by (rule returnsE [OF write_vertices_ok [OF inv b(1,2), of "[0..<nat (sint count)]"]])
      (use vb' in \<open>blast+\<close>)
  let ?vc2 = "vc4_set_vertex_buffers ?vb vc1"
  have t2: "same_target vc4 ?vc2"
    by (rule target_trans [OF keeps_target [OF 1(3)] set_vertex_buffers_target])
  obtain cs rs ps where 2: "gl_ok N LIST_MAX 0 0 0 cs rs ps (insert p own) ?vc2"
    using set_state_inv(3) [OF 1(2), of ?vb] by (auto simp: gl_inv_def)
  have "draw_ok (insert p own) (de_answers env) ?info ?vc2"
    using r by (simp add: draw_ok_def draw_fits_def vc4_set_vertex_buffers_def Let_def)
  from vc4_draw_vbo_ok [OF 2 mem le this, of fl] obtain vc3 where
    3: "vc4_draw_vbo fl mem (de_answers env) ?info ?vc2 = Some vc3" "gl_inv (N + op_room) LIST_MAX (insert p own) vc3"
    by (auto elim!: returnsE intro: gl_inv_flushing)
  have t3: "same_target vc4 vc3"
    by (rule target_trans [OF t2 keeps_target [OF vc4_draw_vbo_keeps [OF 3(1)]]]) simp
  have "p \<noteq> vc_prog_fs vc3" "p \<noteq> vc_uniforms vc3" using t3 p by (auto simp: same_target_def)
  then obtain vc5 where 5: "vc4_resource_destroy (Some r) vc3 = Some vc5" "gl_inv (N + op_room) LIST_MAX own vc5"
    using vc4_resource_destroy_ok [OF 3(2), of r] r p(1) by (auto elim!: returnsE)
  have "keeps vc3 vc5" using 5(1) vc4_bo_unreference_keeps by (simp add: vc4_resource_destroy_def)
  from target_trans [OF t3 keeps_target [OF this]] show ?thesis using 1(1) 3(1) 5 r by (simp add: draw_vertex_buffer_def Let_def)
qed

lemma gl_draw_arrays_inv:
  assumes inv: "api_inv k own ctx" and mem: "mem_ok mem" and k: "k < JOB_CALLS"
    and env: "va_enabled (gc_vertex_pointer_state ctx) \<Longrightarrow> draw_env_ok fl env first count ctx"
  shows "returns (gl_draw_arrays fl mem env mode first count ctx) (api_inv (Suc k) own)"
proof (cases "va_enabled (gc_vertex_pointer_state ctx)")
  case True
  let ?vc = "gc_pipe ctx" and ?a = "de_answers env" and ?N = "op_room * k" and ?own = "insert (an_malloc (de_answers env)) own"
  have le: "2 * ?N + 550 \<le> LIST_MAX" "LIST_MAX < 2 ^ 30"
    using k by (simp_all add: op_room_def LIST_MAX_def JOB_CALLS_def)
  have I: "gl_inv ?N LIST_MAX own ?vc" using inv by (simp add: api_inv_def)
  note E = env [OF True, unfolded draw_env_ok_def Let_def]
  obtain rsc vc1 where c: "pipe_buffer_create (de_room env) ?a PIPE_BIND_VERTEX_BUFFER (24 * count) ?vc = (rsc, vc1)"
    by fastforce
  note c' = c [unfolded pipe_buffer_create_def]
  show ?thesis
  proof (cases rsc)
    case None
    have "keeps ?vc vc1" by (rule vc4_resource_create_keeps [OF _ c']) (use E in simp)
    from keeps_target [OF this] have "api_inv k own (ctx\<lparr>gc_pipe := vc1\<rparr>)"
      by (rule api_inv_target [OF inv]) (use vc4_resource_create_ok [OF I _ c'] E None in simp)
    from api_inv_mono [OF local_calls_inv(10) [OF this], of "Suc k"] show ?thesis
      using True None c by (simp add: gl_draw_arrays_def)
  next
    case (Some r)
    obtain m vc2 b where 2: "vc4_resource_transfer_map ?a r vc1 = Some (m, vc2)" "gl_inv ?N LIST_MAX ?own vc2"
      "keeps ?vc vc2" "rs_bo r = an_malloc ?a" "vc_bos vc2 (rs_bo r) = Some b" "ub_map b \<noteq> 0" "ub_mem b = an_mem ?a"
      using vertex_buffer_ready [OF I _ _ _ c' [unfolded Some]] E by (auto elim!: returnsE)
    have own: "an_malloc ?a \<notin> own" "vc_prog_fs vc2 \<in> own" "vc_uniforms vc2 \<in> own"
      using gl_inv_own [OF I] E keeps_target [OF 2(3)] by (auto simp: same_target_def)
    obtain vc3 where 3: "draw_vertex_buffer fl mem env mode first count ctx r vc2 = Some vc3"
      "gl_inv (?N + op_room) LIST_MAX own vc3" "same_target vc2 vc3"
      using draw_vertex_buffer_ok [OF 2(2) own 2(4) mem le 2(5) [unfolded 2(4)] 2(6), of count fl env first ctx mode]
        E 2(7) by (auto elim!: returnsE)
    have "same_target ?vc vc3" by (rule target_trans [OF keeps_target [OF 2(3)] 3(3)])
    then have "api_inv (Suc k) own (ctx\<lparr>gc_pipe := vc3\<rparr>)"
      by (rule api_inv_target [OF inv]) (use 3(2) in \<open>simp add: add.commute\<close>)
    then show ?thesis using True c Some 2(1) 3(1) by (simp add: gl_draw_arrays_def)
  qed
qed (use api_inv_mono [OF inv, of "Suc k"] in \<open>simp add: gl_draw_arrays_def\<close>)

section \<open>Programs\<close>

lemma glDrawArrays_inv:
  assumes inv: "api_inv k own ctx" and "mem_ok mem" "k < JOB_CALLS" "call_ok fl (GlDrawArrays env mode first count) ctx"
  shows "returns (glDrawArrays fl mem env mode first count ctx) (api_inv (Suc k) own)"
  using assms gl_draw_arrays_inv [OF assms(1-3)] api_inv_mono [OF local_calls_inv(10) [OF inv], of "Suc k"]
  by (auto simp: glDrawArrays_def)

lemma gl_call_ok:
  assumes inv: "api_inv k own ctx" and ok: "call_ok fl c ctx" "frame_ok k (c # cs)" and k: "k \<le> JOB_CALLS"
    and mem: "mem_ok mem"
  shows "returns (gl_call_run fl mem c ctx) (\<lambda>ctx'. \<exists>k'. api_inv k' own ctx' \<and> frame_ok k' cs \<and> k' \<le> JOB_CALLS)"
proof -
  have later: "returns f (\<lambda>ctx'. \<exists>k'. api_inv k' own ctx' \<and> frame_ok k' cs \<and> k' \<le> JOB_CALLS)"
    if "returns f (api_inv k' own)" "frame_ok k' cs" "k' \<le> JOB_CALLS" for f k'
    using that by (auto elim!: returns_mono)
  show ?thesis
  proof (cases c)
    case (GlClear m)
    then show ?thesis using glClear_inv [OF inv mem] ok(2) by (auto intro!: later [of _ "Suc k"])
  next
    case (GlDrawArrays env mode first count)
    then show ?thesis using glDrawArrays_inv [OF inv mem] ok by (auto intro!: later [of _ "Suc k"])
  next
    case GlFlush
    then show ?thesis using glFlush_inv [OF inv mem k] ok(2) by (auto intro!: later [of _ 0] elim!: returns_mono)
  next
    case (SwapBuffers ret)
    then show ?thesis using gl_swap_buffers_inv [OF inv, of ret] ok(2) k by (auto elim!: returnsE)
  qed (use inv ok(2) k in \<open>auto simp: glDrawElements_def intro!: exI [of _ k] local_calls_inv setter_calls_inv\<close>)
qed

lemma gl_calls_ok:
  assumes "api_inv k own ctx" "calls_ok fl mem cs ctx" "frame_ok k cs" "k \<le> JOB_CALLS" "mem_ok mem"
  shows "returns (gl_calls_run fl mem cs ctx) (\<lambda>ctx'. \<exists>k'. k' \<le> JOB_CALLS \<and> api_inv k' own ctx')"
  using assms
proof (induction cs arbitrary: k ctx)
  case (Cons c cs)
  obtain ctx' k' where 1: "gl_call_run fl mem c ctx = Some ctx'" "api_inv k' own ctx'" "frame_ok k' cs" "k' \<le> JOB_CALLS"
    using gl_call_ok [OF Cons.prems(1) _ Cons.prems(3-5), where fl = fl] Cons.prems(2) by (auto elim!: returnsE)
  then show ?case using Cons.IH [OF 1(2) _ 1(3,4) Cons.prems(5)] Cons.prems(2) by simp
qed auto

section \<open>Creating a context\<close>

text \<open>The structures that \<^verbatim>\<open>malloc\<close> hands out are different, and the program fits its buffer.\<close>

definition egl_answers_ok :: "egl_answers \<Rightarrow> bool" where
  "egl_answers_ok ea \<longleftrightarrow>
     distinct [an_malloc (snd (wa_color (ea_window ea))), an_malloc (snd (wa_zs (ea_window ea))),
       an_malloc (ea_fs ea), an_malloc (ea_uniforms ea)] \<and>
     88 \<le> length (an_mem (ea_fs ea))"

lemma gl_idle_setters:
  assumes "gl_idle M own vc4"
  shows "gl_idle M own (vc4_set_framebuffer_state fb vc4)" "gl_idle M own (vc4_set_viewport_state vp vc4)"
    "gl_idle M own (vc4_set_depth_stencil_alpha_state cso vc4)"
  using assms or_and_nonzero
  by (auto simp: gl_idle_def hs_fit_def vc4_set_framebuffer_state_def vc4_set_viewport_state_def
      vc4_set_depth_stencil_alpha_state_def Let_def)

lemma setters_heap [simp]:
  "vc_bos (vc4_set_framebuffer_state fb vc4) = vc_bos vc4" "vc_bos (vc4_set_viewport_state vp vc4) = vc_bos vc4"
  "vc_bos (vc4_set_depth_stencil_alpha_state cso vc4) = vc_bos vc4"
  by (simp_all add: vc4_set_framebuffer_state_def vc4_set_viewport_state_def vc4_set_depth_stencil_alpha_state_def Let_def)

lemma window_surface_texture:
  "window_surface room var cpp off texture = Some surf \<Longrightarrow> rs_bo (sf_texture surf) = rs_bo texture"
  by (auto simp: window_surface_def vc4_create_surface_def cassert_def pipe_surface.defs vc4_surface.defs split: if_splits)

text \<open>An idle context with one more resource.\<close>

lemma idle_resource_create:
  assumes "gl_idle M own vc4" "dom (vc_bos vc4) = own" "bo_list_ok vc4" "an_malloc a \<notin> own"
    and eq: "vc4_resource_create room a tmpl vc4 = (Some rsc, vc4')"
  shows "gl_idle M (insert (an_malloc a) own) vc4'" "dom (vc_bos vc4') = insert (an_malloc a) own" "bo_list_ok vc4'"
    "rs_bo rsc = an_malloc a"
proof -
  have new: "vc_bos vc4 (an_malloc a) = None" using assms(2,4) by auto
  have 1: "rs_bo rsc = an_malloc a" "dom (vc_bos vc4') = insert (an_malloc a) own"
    using eq assms(2) by (cases rule: vc4_resource_create_cases; simp add: heap_effect_def)+
  then show "rs_bo rsc = an_malloc a" "dom (vc_bos vc4') = insert (an_malloc a) own" by simp_all
  show "gl_idle M (insert (an_malloc a) own) vc4'" using gl_idle_resource_create [OF assms(1) new eq] 1(1) by simp
  show "bo_list_ok vc4'" using vc4_resource_create_keeps [OF new eq] assms(3) by (simp add: keeps_def)
qed

text \<open>The context between the creation of its window and that of the shader.\<close>

definition window_ok :: "nat \<Rightarrow> u32 \<Rightarrow> u32 \<Rightarrow> ('r, 'd) gl_context \<Rightarrow> bool" where
  "window_ok M pc pz ctx \<longleftrightarrow>
     gl_idle M {pc, pz} (gc_pipe ctx) \<and> dom (vc_bos (gc_pipe ctx)) = {pc, pz} \<and> bo_list_ok (gc_pipe ctx) \<and>
     vc_framebuffer (gc_pipe ctx) = gc_framebuffer ctx \<and>
     (\<exists>cb zb c0 c1. sc_color_buf (gc_screen ctx) = Some cb \<and> sc_zs_buf (gc_screen ctx) = Some zb \<and>
        fb_cbuf0 (gc_framebuffer ctx) = Some c0 \<and> fb_cbuf1 (gc_framebuffer ctx) = Some c1 \<and>
        rs_bo cb = pc \<and> rs_bo zb = pz \<and> rs_bo (sf_texture c0) = pc \<and> rs_bo (sf_texture c1) = pc)"

text \<open>The two successful paths.\<close>

lemma create_z_and_framebuffer_elim:
  assumes "create_z_and_framebuffer wa var c0 c1 ctx = Some (Ok, ctx')"
  obtains tmpl zb pipe fb where
    "vc4_resource_create (fst (wa_zs wa)) (snd (wa_zs wa)) tmpl (gc_pipe ctx) = (Some zb, pipe)"
    "fb_cbuf0 fb = Some c0" "fb_cbuf1 fb = Some c1"
    "ctx' = ctx\<lparr>gc_screen := (gc_screen ctx)\<lparr>sc_zs_buf := Some zb\<rparr>, gc_framebuffer := fb,
      gc_pipe := vc4_set_framebuffer_state fb pipe\<rparr>"
proof -
  let ?tmpl = "\<lparr>rs_cpp = 4, rs_width0 = fv_xres var, rs_height0 = fv_yres var, rs_bind = PIPE_BIND_DEPTH_STENCIL\<rparr>"
  obtain zs pipe where z: "vc4_resource_create (fst (wa_zs wa)) (snd (wa_zs wa)) ?tmpl (gc_pipe ctx) = (zs, pipe)" by fastforce
  obtain zb where zb: "zs = Some zb" using z assms by (cases zs) (auto simp: create_z_and_framebuffer_def)
  obtain y where y: "window_surface (snd (snd (wa_surfaces wa))) var 4 0 zb = Some y"
    using z zb assms by (cases "window_surface (snd (snd (wa_surfaces wa))) var 4 0 zb") (simp_all add: create_z_and_framebuffer_def)
  show thesis
    by (rule that [of ?tmpl zb pipe "\<lparr>fb_width = fv_xres var, fb_height = fv_yres var, fb_nr_cbufs = 2, fb_cbuf0 = Some c0,
        fb_cbuf1 = Some c1, fb_zsbuf = Some y\<rparr>"])
      (use z zb y assms in \<open>simp_all add: create_z_and_framebuffer_def Let_def\<close>)
qed

lemma gl_create_window_elim:
  assumes eq: "gl_create_window wa ctx = Some (Ok, ctx')"
  obtains var tmpl cb pipe s c0 c1 where
    "vc4_resource_create (fst (wa_color wa)) (snd (wa_color wa)) tmpl (gc_pipe ctx) = (Some cb, pipe)"
    "rs_bo (sf_texture c0) = rs_bo cb" "rs_bo (sf_texture c1) = rs_bo cb" "sc_color_buf s = Some cb"
    "create_z_and_framebuffer wa var c0 c1 (ctx\<lparr>gc_screen := s, gc_pipe := pipe\<rparr>) = Some (Ok, ctx')"
proof -
  obtain var where var: "wa_fd wa \<noteq> 0" "wa_info wa = (Ok, var)"
    using eq by (cases "wa_info wa") (auto simp: gl_create_window_def Let_def split: if_splits)
  let ?tmpl = "\<lparr>rs_cpp = ucast (ucast (drop_bit 3 (fv_bits_per_pixel var)) :: u8), rs_width0 = fv_xres_virtual var,
    rs_height0 = fv_yres_virtual var, rs_bind = PIPE_BIND_RENDER_TARGET OR PIPE_BIND_DISPLAY_TARGET\<rparr>"
  obtain cs pipe where c: "vc4_resource_create (fst (wa_color wa)) (snd (wa_color wa)) ?tmpl (gc_pipe ctx) = (cs, pipe)"
    by fastforce
  obtain cb where cb: "cs = Some cb" using c eq var by (cases cs) (auto simp: gl_create_window_def Let_def)
  let ?cpp = "rs_cpp ?tmpl"
  let ?dbo = "fv_xres var * fv_yres var * ?cpp"
  let ?s = "(gc_screen ctx)\<lparr>sc_var := var, sc_fb_fd := wa_fd wa,
    sc_screen_size := fv_xres_virtual var * fv_yres_virtual var * ?cpp, sc_double_buffer_offset := ?dbo,
    sc_color_buf := Some cb\<rparr>"
  obtain c0 c1 where w: "window_surface (fst (wa_surfaces wa)) var ?cpp ?dbo cb = Some c0"
    "window_surface (fst (snd (wa_surfaces wa))) var ?cpp 0 cb = Some c1"
    "create_z_and_framebuffer wa var c0 c1 (ctx\<lparr>gc_screen := ?s, gc_pipe := pipe\<rparr>) = Some (Ok, ctx')"
    using c cb eq var by (auto simp: gl_create_window_def Let_def Option.bind_eq_Some_conv)
  show thesis
    by (rule that [OF c [unfolded cb] window_surface_texture [OF w(1)] window_surface_texture [OF w(2)] _ w(3)]) simp
qed

lemma gl_create_window_ok:
  assumes idle: "gl_idle M {} (gc_pipe ctx)" "vc_bos (gc_pipe ctx) = Map.empty" "bo_list_ok (gc_pipe ctx)"
    and ne: "an_malloc (snd (wa_zs wa)) \<noteq> an_malloc (snd (wa_color wa))"
    and eq: "gl_create_window wa ctx = Some (Ok, ctx')"
  shows "window_ok M (an_malloc (snd (wa_color wa))) (an_malloc (snd (wa_zs wa))) ctx'"
  using eq
proof (cases rule: gl_create_window_elim)
  case (1 var tmpl cb pipe s c0 c1)
  have "dom (vc_bos (gc_pipe ctx)) = {}" using idle(2) by simp
  note C = idle_resource_create [OF idle(1) this idle(3) _ 1(1), simplified]
  from 1(5) show ?thesis
  proof (cases rule: create_z_and_framebuffer_elim)
    case z: (1 tmpl zb pipe' fb)
    note Z = idle_resource_create [OF C(1-3) _ z(1) [simplified]]
    have "gl_idle M {an_malloc (snd (wa_color wa)), an_malloc (snd (wa_zs wa))} (vc4_set_framebuffer_state fb pipe')"
      using Z(1) ne gl_idle_setters(1) by (simp add: insert_commute)
    then show ?thesis using C(4) Z(2-4) ne z(2-4) 1(2-4) by (clarsimp simp: window_ok_def insert_commute)
  qed
qed

lemma default_values_ok: "window_ok M pc pz ctx \<Longrightarrow> window_ok M pc pz (default_values fl ctx)"
  by (simp add: gl_idle_setters default_values_def window_ok_def gl_current_color_def gl_depth_stencil_alpha_def Let_def)

lemma gl_default_state_ok:
  assumes win: "window_ok LIST_MAX pc pz ctx" and d: "distinct [pc, pz, an_malloc a1, an_malloc a2]"
    and len: "88 \<le> length (an_mem a1)"
  shows "returns (gl_default_state fl a1 a2 ctx) (\<lambda>(r, ctx'). r = Ok \<longrightarrow>
    api_inv 0 {an_malloc a2, an_malloc a1, pc, pz} ctx')"
proof -
  let ?ctx = "default_values fl ctx"
  note W = default_values_ok [OF win, of fl, unfolded window_ok_def]
  have "dom (vc_bos (gc_pipe ?ctx)) = {pc, pz}" using W by simp
  then have new: "an_malloc a1 \<notin> dom (vc_bos (gc_pipe ?ctx))" "an_malloc a2 \<notin> dom (vc_bos (gc_pipe ?ctx))"
    using d by auto
  then have "fs_answers_ok a1 a2 (gc_pipe ?ctx)" using d len by (simp add: fs_answers_ok_def domIff)
  from vc4_create_fs_ok [OF _ this, of LIST_MAX "{pc, pz}" "op_room * 0"] show ?thesis
    unfolding gl_default_state_def Let_def
    using W d by (fastforce simp: api_inv_def screen_ok_def bo_list_ok_def elim!: returns_mono)
qed

lemma eglCreateContext_elim:
  assumes eq: "eglCreateContext fl mem ea dpy st = Some (p, st')" "p \<noteq> 0" "egl_contexts st' p = Some ctx"
  obtains vc0 ctx1 where "vc4_context_create (ea_pipe ea) fl mem = Some (Some vc0)"
    "gl_create_window (ea_window ea) (gl_context_init fl (ea_gpu_fd ea) vc0) = Some (Ok, ctx1)"
    "gl_default_state fl (ea_fs ea) (ea_uniforms ea) ctx1 = Some (Ok, ctx)"
proof -
  obtain ctx0 where 0: "gl_context_create fl mem (ea_context ea \<noteq> 0) (ea_gpu_fd ea) (ea_pipe ea) = Some (Some ctx0)"
    using eq(1,2) by (auto simp: eglCreateContext_def Option.bind_eq_Some_conv split: if_splits option.splits)
  then obtain vc0 where v: "vc4_context_create (ea_pipe ea) fl mem = Some (Some vc0)"
    "ctx0 = gl_context_init fl (ea_gpu_fd ea) vc0"
    by (auto simp: gl_context_create_def Option.bind_eq_Some_conv split: if_splits)
  obtain ctx1 where 1: "gl_create_window (ea_window ea) ctx0 = Some (Ok, ctx1)"
    "gl_default_state fl (ea_fs ea) (ea_uniforms ea) ctx1 = Some (Ok, ctx)"
    using eq 0 by (auto simp: eglCreateContext_def Option.bind_eq_Some_conv split: if_splits)
  show thesis by (rule that [OF v(1) _ 1(2)]) (use 1(1) v(2) in simp)
qed

lemma eglCreateContext_ok:
  assumes mem: "mem_ok mem" and ea: "egl_answers_ok ea"
    and eq: "eglCreateContext fl mem ea dpy st = Some (p, st')" "p \<noteq> 0" "egl_contexts st' p = Some ctx"
  shows "\<exists>own. api_inv 0 own ctx"
  using eq
proof (cases rule: eglCreateContext_elim)
  case (1 vc0 ctx1)
  let ?wa = "ea_window ea"
  have idle: "gl_idle LIST_MAX {} vc0" "vc_bos vc0 = Map.empty" "bo_list_ok vc0"
    using vc4_context_create_idle [OF mem, of "ea_pipe ea" fl] 1(1) by (simp_all add: bo_list_ok_def)
  have "window_ok LIST_MAX (an_malloc (snd (wa_color ?wa))) (an_malloc (snd (wa_zs ?wa))) ctx1"
    by (rule gl_create_window_ok [OF _ _ _ _ 1(2)])
      (use idle ea in \<open>auto simp: egl_answers_ok_def gl_context_init_def Let_def\<close>)
  from gl_default_state_ok [OF this, of "ea_fs ea" "ea_uniforms ea" fl] ea 1(3) show ?thesis
    by (auto simp: egl_answers_ok_def)
qed

lemma gl_program_inv:
  assumes mem: "mem_ok mem" and ea: "egl_answers_ok ea"
    and eq: "eglCreateContext fl mem ea dpy st = Some (p, st')" "p \<noteq> 0" "egl_contexts st' p = Some ctx"
    and cs: "calls_ok fl mem cs ctx" "frame_ok 0 cs"
  shows "returns (gl_calls_run fl mem cs ctx) (\<lambda>ctx'. \<exists>k own. k \<le> JOB_CALLS \<and> api_inv k own ctx')"
proof -
  obtain own where "api_inv 0 own ctx" using eglCreateContext_ok [OF mem ea eq] by blast
  from gl_calls_ok [OF this cs _ mem] show ?thesis by (auto elim!: returns_mono)
qed

section \<open>Programs and the kernel\<close>

text \<open>The kernel accepts a job: from any state in which it calls the validator for it.\<close>

definition job_accepted :: "'f vc4_dev \<Rightarrow> user_job \<Rightarrow> bool" where
  "job_accepted dev j \<longleftrightarrow> (\<forall>exec v rest. kernel_ready dev exec j \<longrightarrow> length (job_bin_cl j) \<le> length v \<longrightarrow>
     returns (vc4_validate_bin_cl dev v (job_bin_cl j @ rest) exec) (\<lambda>(r, exec', v').
       r = Ok \<and> shader_state_count exec' = shader_rec_count (job_args j)))"


section \<open>Destroying a context\<close>

lemma destroy_resource_idle:
  assumes inv: "gl_inv N M own pipe" "bo_list_ok pipe" "\<not> vc_needs_flush pipe"
    and p: "rs_bo rsc \<in> own" "rs_bo rsc \<noteq> vc_prog_fs pipe" "rs_bo rsc \<noteq> vc_uniforms pipe"
  shows "returns (vc4_resource_destroy (Some rsc) pipe) (\<lambda>pipe'. gl_inv N M (own - {rs_bo rsc}) pipe' \<and>
    bo_list_ok pipe' \<and> \<not> vc_needs_flush pipe' \<and> vc_prog_fs pipe' = vc_prog_fs pipe \<and>
    vc_uniforms pipe' = vc_uniforms pipe)"
proof -
  obtain pipe' where 1: "vc4_resource_destroy (Some rsc) pipe = Some pipe'" "gl_inv N M (own - {rs_bo rsc}) pipe'"
    using vc4_resource_destroy_ok [OF inv(1) p] by (auto elim!: returnsE)
  obtain cs rs ps where "gl_ok N M 0 0 0 cs rs ps own pipe" using inv(1) by (auto simp: gl_inv_def)
  from unreference_disown [OF this p] have "vc_needs_flush pipe' = vc_needs_flush pipe"
    using 1(1) by (simp add: vc4_resource_destroy_def)
  moreover have "same_target pipe pipe'"
    using 1(1) by (auto simp: vc4_resource_destroy_def intro: keeps_target vc4_bo_unreference_keeps)
  ultimately show ?thesis using 1 inv by (simp add: same_target_def)
qed

lemma gl_context_destroy_frees:
  assumes inv: "api_inv k own ctx" and idle: "\<not> vc_needs_flush (gc_pipe ctx)"
  shows "returns (gl_context_destroy mem (Some ctx)) (\<lambda>r. \<exists>pipe. r = Some pipe \<and> vc_bos pipe = Map.empty)"
proof -
  let ?vc = "gc_pipe ctx" and ?N = "op_room * k"
  have I: "gl_inv ?N LIST_MAX own ?vc" "bo_list_ok ?vc" using inv by (simp_all add: api_inv_def)
  obtain cb zb where b: "sc_color_buf (gc_screen ctx) = Some cb" "sc_zs_buf (gc_screen ctx) = Some zb"
    "rs_bo cb \<in> own" "rs_bo zb \<in> own" "rs_bo cb \<noteq> rs_bo zb" "vc_prog_fs ?vc \<notin> {rs_bo cb, rs_bo zb}"
    "vc_uniforms ?vc \<notin> {rs_bo cb, rs_bo zb}"
    using inv by (auto simp: api_inv_def screen_ok_def split: option.splits)
  obtain pipe1 where 1: "vc4_resource_destroy (Some cb) ?vc = Some pipe1" "gl_inv ?N LIST_MAX (own - {rs_bo cb}) pipe1"
    "bo_list_ok pipe1" "\<not> vc_needs_flush pipe1" "vc_prog_fs pipe1 = vc_prog_fs ?vc" "vc_uniforms pipe1 = vc_uniforms ?vc"
    using destroy_resource_idle [OF I idle b(3)] b(6,7) by (auto elim!: returnsE)
  obtain pipe2 where 2: "vc4_resource_destroy (Some zb) pipe1 = Some pipe2" "gl_inv ?N LIST_MAX (own - {rs_bo cb} - {rs_bo zb}) pipe2"
    "bo_list_ok pipe2" "\<not> vc_needs_flush pipe2"
    using destroy_resource_idle [OF 1(2-4), of zb] b(4-7) 1(5,6) by (auto elim!: returnsE)
  have "returns (vc4_context_destroy mem pipe2) (\<lambda>pipe. vc_bos pipe = Map.empty)"
    using free_bos_all [of "vc_bo_list pipe2" pipe2] 2(3,4) gl_inv_own(4) [OF 2(2)]
    by (auto simp: vc4_context_destroy_def vc4_flush_def bo_list_ok_def elim!: returns_mono)
  then show ?thesis using b(1,2) 1(1) 2(1) by (auto simp: gl_context_destroy_def)
qed

lemma gl_calls_run_append:
  "gl_calls_run fl mem (cs @ ds) ctx = do { ctx \<leftarrow> gl_calls_run fl mem cs ctx; gl_calls_run fl mem ds ctx }"
proof (induction cs arbitrary: ctx)
  case (Cons c cs)
  then show ?case by (cases "gl_call_run fl mem c ctx") simp_all
qed simp


text \<open>Without the flush, the colour buffer is freed before the driver submits the frame to it.\<close>

definition pending_frame :: "('r, 'd) gl_context \<Rightarrow> bool" where
  "pending_frame ctx \<longleftrightarrow>
     (let pipe = gc_pipe ctx in
      vc_needs_flush pipe \<and> vc_draw_min_x pipe < vc_draw_max_x pipe \<and> vc_draw_min_y pipe < vc_draw_max_y pipe \<and>
      vc_color_read pipe = None \<and>
      (case (sc_color_buf (gc_screen ctx), fb_cbuf0 (vc_framebuffer pipe)) of
         (Some cb, Some c0) \<Rightarrow> rs_bo cb \<noteq> 0 \<and> rs_bo (sf_texture c0) = rs_bo cb \<and>
           (case vc_bos pipe (rs_bo cb) of None \<Rightarrow> False | Some b \<Rightarrow> ub_ref b = 1)
       | _ \<Rightarrow> False))"

lemma heap_effect_refl: "\<exists>h l c. vc4 = heap_effect h l c vc4"
  by (intro exI [of _ "vc_bos vc4"] exI [of _ "vc_bo_list vc4"] exI [of _ "[]"]) (simp add: heap_effect_def)

lemma bo_unreference_gone:
  assumes "vc4_bo_unreference q vc4 = Some vc4'" "vc_bos vc4 p = None"
  shows "vc_bos vc4' p = None \<and> (\<exists>h l c. vc4' = heap_effect h l c vc4)"
proof (cases "q = 0")
  case True
  then show ?thesis using assms heap_effect_refl [of vc4] by (simp add: vc4_bo_unreference_def)
next
  case False
  then obtain b where b: "vc_bos vc4 q = Some b"
    using assms(1) by (cases "vc_bos vc4 q") (auto simp: vc4_bo_unreference_def)
  show ?thesis by (rule unreference_effect [OF b False]) (use assms b in auto)
qed

lemma resource_destroy_gone:
  assumes "vc4_resource_destroy r vc4 = Some vc4'" "vc_bos vc4 p = None"
  shows "vc_bos vc4' p = None \<and> (\<exists>h l c. vc4' = heap_effect h l c vc4)"
  using assms bo_unreference_gone [of _ vc4 vc4' p] heap_effect_refl [of vc4]
  by (cases r) (auto simp: vc4_resource_destroy_def)

lemma vc4_flush_gone:
  assumes "vc_needs_flush vc4" "vc_draw_min_x vc4 < vc_draw_max_x vc4" "vc_draw_min_y vc4 < vc_draw_max_y vc4"
    and "vc_color_read vc4 = None" "fb_cbuf0 (vc_framebuffer vc4) = Some c" "vc_bos vc4 (rs_bo (sf_texture c)) = None"
  shows "vc4_flush mem vc4 = None"
proof -
  have "vc4_job_submit mem (vc4\<lparr>vc_bcl := bcl, vc_color_write := Some c\<rparr>) = None" for bcl
    using assms(4,6)
    by (auto simp: vc4_job_submit_def vc4_submit_setup_rcl_surface_def vc4_submit_setup_rcl_render_config_surface_def
        vc4_gem_hindex_def Let_def split: Option.bind_split)
  then show ?thesis using assms by (auto simp: vc4_flush_def Let_def split: Option.bind_split)
qed

text \<open>C39. Destroying a context while a frame is pending uses memory after it was freed: the colour
  buffer has gone with \<^verbatim>\<open>gl_context_destroy\<close>'s first calls when the flush in \<^verbatim>\<open>vc4_context_destroy\<close>
  looks up its handle.\<close>

theorem gl_context_destroy_pending:
  assumes "pending_frame ctx"
  shows "gl_context_destroy mem (Some ctx) = None"
proof -
  let ?vc = "gc_pipe ctx"
  note P = assms [unfolded pending_frame_def Let_def]
  obtain cb c0 b where b: "sc_color_buf (gc_screen ctx) = Some cb" "fb_cbuf0 (vc_framebuffer ?vc) = Some c0" "rs_bo cb \<noteq> 0"
    "rs_bo (sf_texture c0) = rs_bo cb" "vc_bos ?vc (rs_bo cb) = Some b" "ub_ref b = 1"
    using P by (auto split: option.splits)
  obtain vc1 l c where 1: "vc4_bo_unreference (rs_bo cb) ?vc = Some vc1"
    "vc1 = heap_effect ((vc_bos ?vc)(rs_bo cb := None)) l c ?vc"
    by (rule unreference_effect [OF b(5,3)]) (use b(6) that in simp)
  have "vc4_context_destroy mem vc2 = None" if "vc4_resource_destroy (sc_zs_buf (gc_screen ctx)) vc1 = Some vc2" for vc2
  proof -
    have "vc_bos vc1 (rs_bo cb) = None" using 1(2) by simp
    from resource_destroy_gone [OF that this]
    have "vc_bos vc2 (rs_bo cb) = None \<and> (\<exists>h l c. vc2 = heap_effect h l c vc1)" .
    then have "vc4_flush mem vc2 = None"
      using P b 1(2) by (intro vc4_flush_gone [of _ c0]) (auto simp: heap_effect_def)
    then show ?thesis by (simp add: vc4_context_destroy_def)
  qed
  then show ?thesis using b(1) 1(1) by (auto simp: gl_context_destroy_def vc4_resource_destroy_def split: Option.bind_split)
qed

end
