(* ===== verification/Gl_Wf.thy ===== *)
theory Gl_Wf
  imports Gl_Program
begin

text \<open>
  The types of a context of the OpenGL ES interface: which values its fields take, that the driver
  holds a copy of the pipeline state, and how errors are recorded.
\<close>

unbundle bit_operations_syntax

section \<open>Well-formed contexts\<close>

definition context_wf :: "('r, 'd) gl_context \<Rightarrow> bool" where
  "context_wf ctx \<longleftrightarrow>
     va_size (gc_vertex_pointer_state ctx) \<in> {0, 2, 3} \<and> va_size (gc_color_pointer_state ctx) \<in> {0, 4} \<and>
     depth_func (gc_depth_stencil ctx) < 8 \<and>
     gc_last_error ctx \<in> {GL_NO_ERROR, GL_INVALID_ENUM, GL_INVALID_VALUE, GL_OUT_OF_MEMORY} \<and>
     vc_viewport (gc_pipe ctx) = gc_viewport ctx \<and> vc_framebuffer (gc_pipe ctx) = gc_framebuffer ctx \<and>
     zsa_base (vc_zsa (gc_pipe ctx)) = gc_depth_stencil ctx"

section \<open>Every call keeps it\<close>

lemma context_wf_pipe: "context_wf ctx \<Longrightarrow> same_target (gc_pipe ctx) pipe \<Longrightarrow> context_wf (ctx\<lparr>gc_pipe := pipe\<rparr>)"
  by (simp add: context_wf_def same_target_def)

lemma context_wf_error: "context_wf ctx \<Longrightarrow> e \<in> {GL_INVALID_ENUM, GL_INVALID_VALUE, GL_OUT_OF_MEMORY} \<Longrightarrow> context_wf (gl_error e ctx)"
  by (auto simp: context_wf_def gl_error_def)

lemma setters_mirror [simp]:
  "vc_viewport (vc4_set_viewport_state vp vc4) = vp" "vc_zsa (vc4_set_viewport_state vp vc4) = vc_zsa vc4"
  "vc_viewport (vc4_set_depth_stencil_alpha_state cso vc4) = vc_viewport vc4"
  "zsa_base (vc_zsa (vc4_set_depth_stencil_alpha_state cso vc4)) = cso"
  "vc_viewport (vc4_set_framebuffer_state fb vc4) = vc_viewport vc4"
  "vc_zsa (vc4_set_framebuffer_state fb vc4) = vc_zsa vc4"
  by (simp_all add: vc4_set_viewport_state_def vc4_set_depth_stencil_alpha_state_def vc4_set_framebuffer_state_def Let_def)

lemma set_no_notify_wf [simp]:
  "gc_last_error (set_viewport_no_notify fl x y w h ctx) = gc_last_error ctx"
  "gc_vertex_pointer_state (set_viewport_no_notify fl x y w h ctx) = gc_vertex_pointer_state ctx"
  "gc_color_pointer_state (set_viewport_no_notify fl x y w h ctx) = gc_color_pointer_state ctx"
  "gc_depth_stencil (set_viewport_no_notify fl x y w h ctx) = gc_depth_stencil ctx"
  "gc_last_error (set_depth_range_no_notify fl n f ctx) = gc_last_error ctx"
  "gc_vertex_pointer_state (set_depth_range_no_notify fl n f ctx) = gc_vertex_pointer_state ctx"
  "gc_color_pointer_state (set_depth_range_no_notify fl n f ctx) = gc_color_pointer_state ctx"
  "gc_depth_stencil (set_depth_range_no_notify fl n f ctx) = gc_depth_stencil ctx"
  by (simp_all add: set_viewport_no_notify_def set_depth_range_no_notify_def Let_def split: prod.splits)

lemma write_vertices_keeps: "write_vertices vb p is vc4 = Some vc4' \<Longrightarrow> keeps vc4 vc4'"
proof (induction "is" arbitrary: vc4)
  case (Cons i "is")
  then obtain bs vc1 where "bo_store p (24 * i) bs vc4 = Some vc1" "write_vertices vb p is vc1 = Some vc4'"
    by (auto simp: Option.bind_eq_Some_conv)
  then show ?case using Cons.IH bo_store_keeps keeps_trans by blast
qed simp

lemma draw_vertex_buffer_target:
  assumes "draw_vertex_buffer fl mem env mode first count ctx rsc vc4 = Some vc4'"
  shows "same_target vc4 vc4'"
proof -
  let ?vb = "\<lparr>vb_stride = 24, vb_buffer_offset = 0, vb_resource = Some rsc\<rparr>"
  let ?info = "\<lparr>di_index_size = 0, di_mode = ucast mode, di_has_user_indices = False, di_start = 0, di_count = count\<rparr>"
  obtain vc1 vc2 where 1: "write_vertices (\<lambda>i. vertex_bytes fl (de_mem env) first i ctx) (rs_bo rsc) [0..<nat (sint count)] vc4 = Some vc1"
    and 2: "vc4_draw_vbo fl mem (de_answers env) ?info (vc4_set_vertex_buffers ?vb vc1) = Some vc2"
    and 3: "vc4_bo_unreference (rs_bo rsc) vc2 = Some vc4'"
    using assms by (auto simp: draw_vertex_buffer_def vc4_resource_destroy_def Let_def Option.bind_eq_Some_conv)
  have "keeps (vc4_set_vertex_buffers ?vb vc1) vc2" by (rule vc4_draw_vbo_keeps [OF 2]) simp
  from keeps_target [OF keeps_trans [OF this vc4_bo_unreference_keeps [OF 3]]]
  have "same_target vc1 vc4'" by (rule target_trans [OF set_vertex_buffers_target])
  then show ?thesis by (rule target_trans [OF keeps_target [OF write_vertices_keeps [OF 1]]])
qed

lemma gl_draw_arrays_wf:
  assumes wf: "context_wf ctx" and env: "va_enabled (gc_vertex_pointer_state ctx) \<Longrightarrow> draw_env_ok fl env first count ctx"
    and eq: "gl_draw_arrays fl mem env mode first count ctx = Some ctx'"
  shows "context_wf ctx'"
proof (cases "va_enabled (gc_vertex_pointer_state ctx)")
  case True
  obtain rsc vc1 where c: "pipe_buffer_create (de_room env) (de_answers env) PIPE_BIND_VERTEX_BUFFER (24 * count) (gc_pipe ctx)
    = (rsc, vc1)" by fastforce
  have k1: "keeps (gc_pipe ctx) vc1"
    by (rule vc4_resource_create_keeps [OF _ c [unfolded pipe_buffer_create_def]])
      (use env [OF True] in \<open>simp add: draw_env_ok_def Let_def\<close>)
  show ?thesis
  proof (cases rsc)
    case None
    then show ?thesis
      using eq True c context_wf_error [OF context_wf_pipe [OF wf keeps_target [OF k1]]] by (auto simp: gl_draw_arrays_def)
  next
    case (Some r)
    then obtain m vc2 vc3 where 2: "vc4_bo_map (de_answers env) (rs_bo r) vc1 = Some (m, vc2)"
      "draw_vertex_buffer fl mem env mode first count ctx r vc2 = Some vc3" "ctx' = ctx\<lparr>gc_pipe := vc3\<rparr>"
      using eq True c by (auto simp: gl_draw_arrays_def vc4_resource_transfer_map_def Option.bind_eq_Some_conv)
    have "same_target (gc_pipe ctx) vc3"
      by (rule target_trans [OF keeps_target [OF keeps_trans [OF k1 vc4_bo_map_keeps [OF 2(1)]]]
            draw_vertex_buffer_target [OF 2(2)]])
    then show ?thesis using context_wf_pipe [OF wf] 2(3) by simp
  qed
qed (use wf eq in \<open>simp add: gl_draw_arrays_def\<close>)

lemma depth_func_bits: "ucast ((x :: u32) AND 7) < (8 :: u8)"
proof -
  have "x AND 7 = take_bit 3 x" by (simp add: take_bit_eq_mask mask_eq_exp_minus_1)
  then have "unat (x AND 7) = take_bit 3 (unat x)" by (simp add: unsigned_take_bit_eq)
  moreover have "take_bit 3 (unat x) < 8" using take_bit_nat_less_exp [of 3 "unat x"] by simp
  ultimately show ?thesis by (simp add: word_less_nat_alt unsigned_ucast_eq take_bit_eq_mod)
qed

lemma gl_pointer_array_wf:
  assumes "gl_pointer_array va lo hi sz type stride p ctx = (va', ctx')" "context_wf ctx"
  shows "context_wf ctx'" "va_size va' = va_size va \<or> (lo \<le> sint sz \<and> sint sz \<le> hi \<and> va_size va' = ucast sz)"
  using assms by (auto simp: gl_pointer_array_def context_wf_error split: if_splits)

lemma sint_word: "sint (x :: u32) = n \<Longrightarrow> x = word_of_int n"
  by (metis scast_eq scast_id)

lemma pointer_sizes:
  "4 \<le> sint sz \<Longrightarrow> sint sz \<le> 4 \<Longrightarrow> ucast (sz :: u32) = (4 :: u8)"
  "2 \<le> sint sz \<Longrightarrow> sint sz \<le> 3 \<Longrightarrow> ucast (sz :: u32) \<in> {2, 3 :: u8}"
proof -
  show "ucast sz = (4 :: u8)" if "4 \<le> sint sz" "sint sz \<le> 4" using that sint_word [of sz 4] by simp
  show "ucast sz \<in> {2, 3 :: u8}" if "2 \<le> sint sz" "sint sz \<le> 3"
  proof -
    have "sint sz = 2 \<or> sint sz = 3" using that by linarith
    then show ?thesis using sint_word [of sz 2] sint_word [of sz 3] by auto
  qed
qed

lemma pointer_calls_wf:
  assumes wf: "context_wf ctx"
  shows "context_wf (glColorPointer sz type stride p ctx)" "context_wf (glVertexPointer sz type stride p ctx)"
proof -
  have sizes: "va_size (gc_color_pointer_state ctx) \<in> {0, 4}" "va_size (gc_vertex_pointer_state ctx) \<in> {0, 2, 3}"
    using wf by (simp_all add: context_wf_def)
  obtain va ctx1 where c: "gl_pointer_array (gc_color_pointer_state ctx) 4 4 sz type stride p ctx = (va, ctx1)" by fastforce
  have "va_size va \<in> {0, 4}" using gl_pointer_array_wf(2) [OF c wf] sizes(1) pointer_sizes(1) [of sz] by auto
  then have "context_wf (ctx1\<lparr>gc_color_pointer_state := va\<rparr>)"
    using gl_pointer_array_wf(1) [OF c wf] by (simp add: context_wf_def)
  then show "context_wf (glColorPointer sz type stride p ctx)" using c by (simp add: glColorPointer_def)
  obtain va ctx1 where c: "gl_pointer_array (gc_vertex_pointer_state ctx) 2 3 sz type stride p ctx = (va, ctx1)" by fastforce
  have "va_size va \<in> {0, 2, 3}" using gl_pointer_array_wf(2) [OF c wf] sizes(2) pointer_sizes(2) [of sz] by auto
  then have "context_wf (ctx1\<lparr>gc_vertex_pointer_state := va\<rparr>)"
    using gl_pointer_array_wf(1) [OF c wf] by (simp add: context_wf_def)
  then show "context_wf (glVertexPointer sz type stride p ctx)" using c by (simp add: glVertexPointer_def)
qed

lemma value_calls_wf:
  assumes wf: "context_wf ctx"
  shows "context_wf (glClearColor r g b a ctx)" "context_wf (glClearDepthf fl d ctx)" "context_wf (glClearStencil s ctx)"
    "context_wf (glColor4f r g b a ctx)" "context_wf (snd (glGetError ctx))"
  using wf by (simp_all add: glClearColor_def glClearDepthf_def glClearStencil_def glColor4f_def gl_current_color_def
      glGetError_def gl_get_error_def context_wf_def)

lemma depth_wf:
  "context_wf ctx \<Longrightarrow> depth_func d < 8 \<Longrightarrow> context_wf (gl_depth_stencil_alpha (ctx\<lparr>gc_depth_stencil := d\<rparr>))"
  by (simp add: context_wf_def gl_depth_stencil_alpha_def)

lemma context_wf_func: "context_wf ctx \<Longrightarrow> depth_func (gc_depth_stencil ctx) < 8"
  by (simp add: context_wf_def)

lemma context_wf_enabled:
  assumes "context_wf ctx"
  shows "context_wf (ctx\<lparr>gc_vertex_pointer_state := (gc_vertex_pointer_state ctx)\<lparr>va_enabled := b\<rparr>\<rparr>)"
    "context_wf (ctx\<lparr>gc_color_pointer_state := (gc_color_pointer_state ctx)\<lparr>va_enabled := b\<rparr>\<rparr>)"
  using assms by (simp_all add: context_wf_def)

lemma gl_viewport_wf:
  assumes "context_wf ctx"
  shows "context_wf (gl_viewport fl x y w h ctx)" "context_wf (gl_depth_range fl n f ctx)"
  using assms by (simp_all add: context_wf_def gl_viewport_def gl_depth_range_def Let_def)

lemma state_calls_wf:
  assumes wf: "context_wf ctx"
  shows "context_wf (glDisableClientState array ctx)" "context_wf (glEnableClientState array ctx)"
    "context_wf (glDepthRangef fl n f ctx)" "context_wf (glViewport fl x y w h ctx)" "context_wf (glDepthFunc func ctx)"
    "context_wf (glDepthMask flag ctx)" "context_wf (glDisable cap ctx)" "context_wf (glEnable cap ctx)"
  using context_wf_error [OF wf] context_wf_enabled [OF wf] gl_viewport_wf [OF wf] depth_wf [OF wf]
    context_wf_func [OF wf] depth_func_bits
  by (simp_all add: glDisableClientState_def glEnableClientState_def gl_client_state_def glDepthRangef_def
      glViewport_def glDepthFunc_def glDepthMask_def glDisable_def glEnable_def gl_set_enable_def)

lemma gl_clear_wf: "context_wf ctx \<Longrightarrow> gl_clear fl mem buffers ctx = Some ctx' \<Longrightarrow> context_wf ctx'"
  by (auto simp: gl_clear_def Let_def Option.bind_eq_Some_conv intro!: context_wf_pipe keeps_target vc4_clear_keeps)

lemma glClear_wf:
  assumes wf: "context_wf ctx" and eq: "glClear fl mem m ctx = Some ctx'"
  shows "context_wf ctx'"
proof (cases "m AND NOT (GL_COLOR_BUFFER_BIT OR GL_DEPTH_BUFFER_BIT OR GL_STENCIL_BUFFER_BIT) \<noteq> 0")
  case True
  then show ?thesis using eq context_wf_error [OF wf] by (auto simp: glClear_def)
next
  case False
  then obtain buffers where "gl_clear fl mem buffers ctx = Some ctx'" using eq unfolding glClear_def Let_def by metis
  then show ?thesis by (rule gl_clear_wf [OF wf])
qed

lemma context_wf_screen:
  assumes "context_wf ctx"
  shows "context_wf (ctx\<lparr>gc_screen := s\<rparr>)"
    "context_wf (ctx\<lparr>gc_screen := s, gc_framebuffer := fb, gc_pipe := vc4_set_framebuffer_state fb (gc_pipe ctx)\<rparr>)"
  using assms by (simp_all add: context_wf_def)

lemma gl_swap_buffers_wf:
  assumes "context_wf ctx" "gl_swap_buffers ret ctx = Some (r, ctx')"
  shows "context_wf ctx'"
  using assms(2) context_wf_screen [OF assms(1)]
  by (cases "fb_cbuf0 (gc_framebuffer ctx)") (auto simp: gl_swap_buffers_def Let_def split: if_splits)

lemma gl_call_wf:
  assumes wf: "context_wf ctx" and ok: "call_ok fl c ctx" and eq: "gl_call_run fl mem c ctx = Some ctx'"
  shows "context_wf ctx'"
proof (cases c)
  case (GlClear m)
  then show ?thesis using eq glClear_wf [OF wf] by simp
next
  case (GlDrawArrays env mode first count)
  then show ?thesis
    using eq ok gl_draw_arrays_wf [OF wf, of fl env first count mem mode ctx'] context_wf_error [OF wf]
    by (auto simp: glDrawArrays_def not_less split: if_splits)
next
  case GlFlush
  then show ?thesis
    using eq by (auto simp: glFlush_def gl_flush_def Option.bind_eq_Some_conv
        intro!: context_wf_pipe [OF wf] keeps_target vc4_flush_keeps)
next
  case (SwapBuffers ret)
  then show ?thesis using eq gl_swap_buffers_wf [OF wf] by auto
qed (use wf eq in \<open>auto simp: glDrawElements_def value_calls_wf state_calls_wf pointer_calls_wf\<close>)

lemma vc4_bo_alloc_settings: "vc4_bo_alloc a sz vc4 = (p, vc4') \<Longrightarrow> settings vc4' = settings vc4"
  by (auto simp: vc4_bo_alloc_def vc4_call_def Let_def split: if_splits)

lemma vc4_create_fs_mirror:
  assumes "vc4_create_fs a1 a2 vc4 = Some (ok, vc4')"
  shows "vc_viewport vc4' = vc_viewport vc4 \<and> vc_framebuffer vc4' = vc_framebuffer vc4 \<and> vc_zsa vc4' = vc_zsa vc4"
proof -
  obtain fs vc1 where a: "vc4_bo_alloc a1 (of_nat (4 * length fs_ins)) vc4 = (fs, vc1)" by fastforce
  note assms' = assms [unfolded vc4_create_fs_def a Let_def prod.case]
  obtain m vc2 where m: "vc4_bo_map a1 fs vc1 = Some (m, vc2)"
    using assms' by (cases "vc4_bo_map a1 fs vc1") auto
  have s: "settings vc2 = settings vc4"
    using vc4_bo_alloc_settings [OF a] vc4_bo_map_keeps [OF m] by (simp add: keeps_def)
  show ?thesis
  proof (cases "m = 0")
    case False
    then obtain vc3 where 3: "bo_store fs 0 (concat (map u32_bytes fs_ins)) vc2 = Some vc3"
      using assms' m by (cases "bo_store fs 0 (concat (map u32_bytes fs_ins)) vc2") auto
    obtain u vc5 where 5: "vc4_bo_alloc a2 0x1000 vc3 = (u, vc5)" by fastforce
    have "settings vc5 = settings vc4"
      using s bo_store_keeps [OF 3] vc4_bo_alloc_settings [OF 5] by (simp add: keeps_def)
    then show ?thesis using assms' m False 3 5 by (auto simp: settings_def split: if_splits)
  qed (use assms' m s in \<open>simp add: settings_def\<close>)
qed

text \<open>The parts of a context that no step of its creation but the last touches.\<close>

definition context_new :: "('r, 'd) gl_context \<Rightarrow> bool" where
  "context_new ctx \<longleftrightarrow> va_size (gc_vertex_pointer_state ctx) = 0 \<and> va_size (gc_color_pointer_state ctx) = 0 \<and>
     gc_last_error ctx = GL_NO_ERROR"

lemma gl_create_window_new:
  assumes "context_new ctx" "gl_create_window wa ctx = Some (Ok, ctx')"
  shows "context_new ctx' \<and> vc_framebuffer (gc_pipe ctx') = gc_framebuffer ctx'"
  using assms(2)
proof (cases rule: gl_create_window_elim)
  case (1 var tmpl cb pipe s c0 c1)
  from 1(5) show ?thesis
    by (cases rule: create_z_and_framebuffer_elim) (use assms(1) in \<open>simp add: context_new_def\<close>)
qed

lemma gl_default_state_wf:
  assumes "context_new ctx" "vc_framebuffer (gc_pipe ctx) = gc_framebuffer ctx"
    and "gl_default_state fl a1 a2 ctx = Some (r, ctx')"
  shows "context_wf ctx'"
proof -
  obtain ok pipe where 1: "vc4_create_fs a1 a2 (gc_pipe (default_values fl ctx)) = Some (ok, pipe)"
    "ctx' = (default_values fl ctx)\<lparr>gc_pipe := pipe\<rparr>"
    using assms(3) by (auto simp: gl_default_state_def Let_def Option.bind_eq_Some_conv)
  have "context_wf (default_values fl ctx)"
    using assms(1,2) by (simp add: context_wf_def context_new_def default_values_def gl_current_color_def
        gl_depth_stencil_alpha_def Let_def)
  then show ?thesis using vc4_create_fs_mirror [OF 1(1)] 1(2) by (simp add: context_wf_def)
qed

lemma eglCreateContext_wf:
  assumes eq: "eglCreateContext fl mem ea dpy st = Some (p, st')" "p \<noteq> 0" "egl_contexts st' p = Some ctx"
  shows "context_wf ctx"
  using eq
proof (cases rule: eglCreateContext_elim)
  case (1 vc0 ctx1)
  have "context_new (gl_context_init fl (ea_gpu_fd ea) vc0)" by (simp add: gl_context_init_def context_new_def Let_def)
  from gl_create_window_new [OF this 1(2)] show ?thesis using gl_default_state_wf [OF _ _ 1(3)] by blast
qed

text \<open>C38. Every context a program can reach is well formed: the arrays have the sizes OpenGL ES allows,
  the comparison has three bits, the recorded error is one of the library's, and the driver works
  with the same viewport, framebuffer and depth state as the library.\<close>

theorem gl_program_well_formed:
  assumes "eglCreateContext fl mem ea dpy st = Some (p, st')" "p \<noteq> 0" "egl_contexts st' p = Some ctx"
    and "calls_ok fl mem cs ctx" "gl_calls_run fl mem cs ctx = Some ctx'"
  shows "context_wf ctx'"
proof -
  have "context_wf ctx" by (rule eglCreateContext_wf [OF assms(1-3)])
  then show ?thesis
    using assms(4,5)
  proof (induction cs arbitrary: ctx)
    case (Cons c cs)
    then obtain ctx1 where 1: "gl_call_run fl mem c ctx = Some ctx1" by (auto simp: Option.bind_eq_Some_conv)
    then show ?case using Cons gl_call_wf [OF Cons.prems(1) _ 1] by simp
  qed simp
qed

section \<open>Errors\<close>

lemma error_sticks [simp]: "gc_last_error ctx \<noteq> 0 \<Longrightarrow> gl_error e ctx = ctx"
  by (simp add: gl_error_def)

lemma last_error_fields [simp]:
  "gc_last_error (gl_depth_stencil_alpha ctx) = gc_last_error ctx"
  "gc_last_error (gl_viewport fl x y w h ctx) = gc_last_error ctx"
  "gc_last_error (gl_depth_range fl n f ctx) = gc_last_error ctx"
  by (simp_all add: gl_depth_stencil_alpha_def gl_viewport_def gl_depth_range_def Let_def)

lemma driver_calls_error:
  assumes "gc_last_error ctx \<noteq> 0"
  shows "gl_clear fl mem buffers ctx = Some ctx' \<Longrightarrow> gc_last_error ctx' = gc_last_error ctx"
    "gl_flush mem ctx = Some ctx' \<Longrightarrow> gc_last_error ctx' = gc_last_error ctx"
    "gl_swap_buffers ret ctx = Some (r, ctx') \<Longrightarrow> gc_last_error ctx' = gc_last_error ctx"
    "gl_draw_arrays fl mem env mode first count ctx = Some ctx' \<Longrightarrow> gc_last_error ctx' = gc_last_error ctx"
proof -
  show "gl_clear fl mem buffers ctx = Some ctx' \<Longrightarrow> gc_last_error ctx' = gc_last_error ctx"
    "gl_flush mem ctx = Some ctx' \<Longrightarrow> gc_last_error ctx' = gc_last_error ctx"
    "gl_swap_buffers ret ctx = Some (r, ctx') \<Longrightarrow> gc_last_error ctx' = gc_last_error ctx"
    by (auto simp: gl_clear_def gl_flush_def gl_swap_buffers_def Let_def Option.bind_eq_Some_conv split: if_splits)
  obtain rsc pipe where "pipe_buffer_create (de_room env) (de_answers env) PIPE_BIND_VERTEX_BUFFER (24 * count) (gc_pipe ctx)
    = (rsc, pipe)" by fastforce
  then show "gl_draw_arrays fl mem env mode first count ctx = Some ctx' \<Longrightarrow> gc_last_error ctx' = gc_last_error ctx"
    using assms by (cases rsc) (auto simp: gl_draw_arrays_def Option.bind_eq_Some_conv split: if_splits)
qed

lemma glClear_error:
  assumes "gc_last_error ctx \<noteq> 0" "glClear fl mem m ctx = Some ctx'"
  shows "gc_last_error ctx' = gc_last_error ctx"
proof -
  have "ctx' = gl_error GL_INVALID_VALUE ctx \<or> (\<exists>buffers. gl_clear fl mem buffers ctx = Some ctx')"
    using assms(2) unfolding glClear_def Let_def by (metis option.inject)
  then show ?thesis using assms(1) driver_calls_error(1) [OF assms(1)] by auto
qed

lemma pointer_calls_error:
  assumes "gc_last_error ctx \<noteq> 0"
  shows "gc_last_error (glColorPointer sz type stride p ctx) = gc_last_error ctx"
    "gc_last_error (glVertexPointer sz type stride p ctx) = gc_last_error ctx"
  using assms by (simp_all add: glColorPointer_def glVertexPointer_def gl_pointer_array_def)

lemma state_calls_error:
  assumes "gc_last_error ctx \<noteq> 0"
  shows "gc_last_error (glClearColor r g b a ctx) = gc_last_error ctx" "gc_last_error (glClearDepthf fl d ctx) = gc_last_error ctx"
    "gc_last_error (glClearStencil s ctx) = gc_last_error ctx" "gc_last_error (glColor4f r g b a ctx) = gc_last_error ctx"
    "gc_last_error (glDisableClientState array ctx) = gc_last_error ctx"
    "gc_last_error (glEnableClientState array ctx) = gc_last_error ctx"
    "gc_last_error (glDepthRangef fl n f ctx) = gc_last_error ctx" "gc_last_error (glViewport fl x y w h ctx) = gc_last_error ctx"
    "gc_last_error (glDepthFunc func ctx) = gc_last_error ctx" "gc_last_error (glDepthMask flag ctx) = gc_last_error ctx"
    "gc_last_error (glDisable cap ctx) = gc_last_error ctx" "gc_last_error (glEnable cap ctx) = gc_last_error ctx"
  using assms by (simp_all add: glClearColor_def glClearDepthf_def glClearStencil_def glColor4f_def gl_current_color_def
      glDepthRangef_def glViewport_def glDepthFunc_def glDepthMask_def glDisable_def glEnable_def gl_set_enable_def
      glDisableClientState_def glEnableClientState_def gl_client_state_def)

lemma gl_call_error:
  assumes e: "gc_last_error ctx \<noteq> 0" and "c \<noteq> GlGetError" "gl_call_run fl mem c ctx = Some ctx'"
  shows "gc_last_error ctx' = gc_last_error ctx"
proof (cases c)
  case (GlDrawArrays env mode first count)
  then show ?thesis using assms driver_calls_error(4) [OF e] by (auto simp: glDrawArrays_def split: if_splits)
qed (use assms in \<open>auto simp: glDrawElements_def glFlush_def state_calls_error pointer_calls_error
    dest: glClear_error [OF e] driver_calls_error [OF e]\<close>)

text \<open>C40. An error sticks: once one is recorded, no later call changes it, and the next \<^verbatim>\<open>glGetError\<close>
  returns it and clears it.\<close>

theorem gl_first_error_reported:
  assumes "gl_calls_run fl mem cs ctx = Some ctx'" "GlGetError \<notin> set cs" "gc_last_error ctx \<noteq> GL_NO_ERROR"
  shows "glGetError ctx' = (gc_last_error ctx, ctx'\<lparr>gc_last_error := GL_NO_ERROR\<rparr>)"
proof -
  have "gc_last_error ctx' = gc_last_error ctx"
    using assms
  proof (induction cs arbitrary: ctx)
    case (Cons c cs)
    then obtain ctx1 where 1: "gl_call_run fl mem c ctx = Some ctx1" by (auto simp: Option.bind_eq_Some_conv)
    then have "gc_last_error ctx1 = gc_last_error ctx" using Cons.prems by (intro gl_call_error [OF _ _ 1]) auto
    then show ?case using Cons 1 by simp
  qed simp
  then show ?thesis by (simp add: glGetError_def gl_get_error_def)
qed

end
