(* ===== verification/Gl_Sample.thy ===== *)
theory Gl_Sample
  imports Gl_Wf
begin

text \<open>
  Concrete sessions on which the properties of the graphics library are evaluated.
\<close>

section \<open>A sample session\<close>

text \<open>Words stand for the floating-point numbers. The application makes a colour buffer, clears it,
  draws three vertices from an array and three by index, and flushes.\<close>

definition sample_fl :: "(u32, u32) float_ops" where
  "sample_fl = \<lparr>fl_add = (+), fl_sub = (-), fl_mul = (*), fl_neg = uminus, fl_le = (\<le>), fl_of_u32 = (\<lambda>x. x),
     fl_of_s32 = (\<lambda>x. x), fl_of_db = (\<lambda>x. x), fl_to_u32 = (\<lambda>x. x), fl_to_u16 = ucast, fl_to_s16 = ucast,
     fl_bits = (\<lambda>x. x), fl_of_bits = (\<lambda>x. x), db_of_fl = (\<lambda>x. x), db_of_u32 = (\<lambda>x. x),
     db_add = (+), db_mul = (*), db_eq = (=), db_less = (<), db_to_u32 = (\<lambda>x. x)\<rparr>"

definition sample_mem :: "u32 \<Rightarrow> u8 list option" where
  "sample_mem n = Some (replicate (unat n) 0)"

definition sample_answers :: "u32 \<Rightarrow> bo_answers" where
  "sample_answers p = \<lparr>an_malloc = p, an_create = True, an_handle = p, an_size = 4096, an_mmap = True,
     an_offset = 4096 * p, an_mem = replicate 88 0\<rparr>"

definition sample_resource :: "u32 \<Rightarrow> vc4_resource" where
  "sample_resource p = \<lparr>rs_cpp = 4, rs_width0 = 64, rs_height0 = 64, rs_bind = 0, rs_bo = p,
     rs_slice = \<lparr>sl_offset = 0, sl_stride = 256, sl_size = 16384, sl_tiling = 0\<rparr>\<rparr>"

definition sample_ops :: "(u32, u32) gl_op list" where
  "sample_ops =
     [ResourceCreate True (sample_answers 3) \<lparr>rs_cpp = 4, rs_width0 = 64, rs_height0 = 64, rs_bind = 0\<rparr>,
      SetFramebuffer \<lparr>fb_width = 64, fb_height = 64, fb_nr_cbufs = 1, fb_cbuf0 = Some
        \<lparr>sf_texture = sample_resource 3, sf_cpp = 4, sf_width = 64, sf_height = 64, sf_offset = 0, sf_tiling = 0\<rparr>,
        fb_cbuf1 = None, fb_zsbuf = None\<rparr>,
      SetVertexBuffers \<lparr>vb_stride = 24, vb_buffer_offset = 0, vb_resource = Some (sample_resource 3)\<rparr>,
      Clear 4 (0, 0, 0, 0) 1 0,
      DrawVbo (sample_answers 4) \<lparr>di_index_size = 0, di_mode = 4, di_has_user_indices = False, di_start = 0, di_count = 3\<rparr>,
      DrawVbo (sample_answers 4) \<lparr>di_index_size = 1, di_mode = 4, di_has_user_indices = True, di_start = 3, di_count = 3\<rparr>,
      Flush]"

definition sample_kexec :: "user_job \<Rightarrow> vc4_exec_info" where
  "sample_kexec j = sample_exec\<lparr>args := job_args j, bo := [1, 1, 1, 1], bo_count := 4\<rparr>"

definition submissions :: "'r vc4_context \<Rightarrow> user_job list" where
  "submissions vc4 = concat (map (\<lambda>c. case c of SUBMIT_CL j \<Rightarrow> [j] | _ \<Rightarrow> []) (vc_calls vc4))"

definition sample_run :: "bool option" where
  "sample_run = do {
     s \<leftarrow> gl_start sample_fl sample_mem (sample_answers 1) (sample_answers 2);
     (own, vc4) \<leftarrow> gl_run sample_fl sample_mem sample_ops s;
     (case submissions vc4 of
        [] \<Rightarrow> None
      | j # js \<Rightarrow> Some (ops_ok sample_fl sample_mem sample_ops s \<and> kernel_ready sample_dev (sample_kexec j) j \<and>
          length (job_bin_cl j) \<le> 200)) }"

lemma sample_run_ok: "sample_run = Some True"
  by code_simp


section \<open>A sample program\<close>

text \<open>The program opens a window of 64 by 64 pixels, clears it, draws a triangle, makes a mistake,
  flushes and swaps the buffers.\<close>

definition sample_egl :: egl_answers where
  "sample_egl = \<lparr>ea_context = 64, ea_gpu_fd = 3, ea_pipe = True,
     ea_window = \<lparr>wa_fd = 4, wa_info = (Ok, \<lparr>fv_xres = 64, fv_yres = 64, fv_xres_virtual = 64, fv_yres_virtual = 128,
         fv_yoffset = 0, fv_bits_per_pixel = 32\<rparr>),
       wa_color = (True, sample_answers 3), wa_surfaces = (True, True, True), wa_zs = (True, sample_answers 4)\<rparr>,
     ea_fs = sample_answers 1, ea_uniforms = sample_answers 2\<rparr>"

definition sample_env :: "u32 draw_env" where
  "sample_env = \<lparr>de_room = True, de_answers = sample_answers 5, de_mem = (\<lambda>p. Some p)\<rparr>"

definition sample_calls :: "u32 gl_call list" where
  "sample_calls =
     [GlVertexPointer 2 GL_FLOAT 0 4096, GlEnableClientState GL_VERTEX_ARRAY, GlDrawArrays sample_env 4 0 3,
      GlDrawArrays sample_env 9 0 3, GlClear GL_COLOR_BUFFER_BIT, GlFlush, SwapBuffers Ok]"

definition no_contexts :: "(u32, u32) egl_state" where
  "no_contexts = \<lparr>egl_contexts = Map.empty, egl_current = 0\<rparr>"


lemma sample_mem_ok: "mem_ok sample_mem"
  by (simp add: mem_ok_def sample_mem_def)

lemma sample_resource_create:
  assumes "p \<notin> dom (vc_bos vc4)" "p \<noteq> 0"
    and "rs_bind tmpl AND PIPE_BIND_DISPLAY_TARGET \<noteq> 0 \<or> rs_height0 tmpl * (rs_width0 tmpl * rs_cpp tmpl) \<noteq> 0"
  shows "\<exists>r vc4'. vc4_resource_create True (sample_answers p) tmpl vc4 = (Some r, vc4') \<and>
    dom (vc_bos vc4') = insert p (dom (vc_bos vc4))"
  using assms by (auto simp: vc4_resource_create_def vc4_bo_alloc_def vc4_bo_alloc_fb_def vc4_call_def sample_answers_def
      vc4_setup_slices_def Let_def)

lemma sample_create_fs:
  assumes "vc_bos vc4 1 = None" "vc_bos vc4 2 = None"
  shows "\<exists>vc4'. vc4_create_fs (sample_answers 1) (sample_answers 2) vc4 = Some (True, vc4') \<and>
    dom (vc_bos vc4') = insert 1 (insert 2 (dom (vc_bos vc4)))"
proof -
  have "length (an_mem (sample_answers 1)) = 88" by (simp add: sample_answers_def)
  then obtain m where "store_bytes (an_mem (sample_answers 1)) 0 (concat (map u32_bytes fs_ins)) = Some m"
    using store_bytes_defined [of "an_mem (sample_answers 1)" 0 "concat (map u32_bytes fs_ins)"] by auto
  then show ?thesis
    using assms by (auto simp: vc4_create_fs_def vc4_bo_alloc_def vc4_bo_map_def bo_store_def vc4_call_def
        sample_answers_def Let_def)
qed

lemma default_values_heap [simp]: "vc_bos (gc_pipe (default_values fl ctx)) = vc_bos (gc_pipe ctx)"
  by (simp add: default_values_def gl_current_color_def gl_depth_stencil_alpha_def Let_def)

lemma sample_window:
  assumes "vc_bos (gc_pipe ctx) = Map.empty"
  shows "\<exists>ctx'. gl_create_window (ea_window sample_egl) ctx = Some (Ok, ctx') \<and> dom (vc_bos (gc_pipe ctx')) = {3, 4}"
proof -
  obtain cb vc1 where c: "vc4_resource_create True (sample_answers 3) \<lparr>rs_cpp = 4, rs_width0 = 64, rs_height0 = 128,
      rs_bind = 0x82\<rparr> (gc_pipe ctx) = (Some cb, vc1)" "dom (vc_bos vc1) = {3}"
    using sample_resource_create [of 3 "gc_pipe ctx" "\<lparr>rs_cpp = 4, rs_width0 = 64, rs_height0 = 128, rs_bind = 0x82\<rparr>"] assms
    by auto
  have "4 \<notin> dom (vc_bos vc1)" using c(2) by simp
  from sample_resource_create [OF this, of "\<lparr>rs_cpp = 4, rs_width0 = 64, rs_height0 = 64,
    rs_bind = PIPE_BIND_DEPTH_STENCIL\<rparr>"]
  obtain zb vc2 where z: "vc4_resource_create True (sample_answers 4) \<lparr>rs_cpp = 4, rs_width0 = 64, rs_height0 = 64,
      rs_bind = PIPE_BIND_DEPTH_STENCIL\<rparr> vc1 = (Some zb, vc2)" "dom (vc_bos vc2) = {3, 4}"
    using c(2) by (auto simp: insert_commute)
  show ?thesis
    using c z by (simp add: sample_egl_def gl_create_window_def create_z_and_framebuffer_def window_surface_def
        vc4_create_surface_def Let_def)
qed

lemma sample_egl_ok:
  "\<exists>st ctx. eglCreateContext sample_fl sample_mem sample_egl 1 no_contexts = Some (64, st) \<and>
     egl_contexts st 64 = Some ctx \<and> vc_bos (gc_pipe ctx) 5 = None"
proof -
  obtain vc0 where 0: "vc4_context_create True sample_fl sample_mem = Some (Some vc0)" "vc_bos vc0 = Map.empty"
    using vc4_context_create_idle [OF sample_mem_ok, of True sample_fl]
    by (auto elim!: returnsE split: option.splits)
  let ?ctx = "gl_context_init sample_fl 3 vc0"
  have "vc_bos (gc_pipe ?ctx) = Map.empty" using 0(2) by (simp add: gl_context_init_def Let_def)
  from sample_window [OF this] obtain ctx1 where
    1: "gl_create_window (ea_window sample_egl) ?ctx = Some (Ok, ctx1)" "dom (vc_bos (gc_pipe ctx1)) = {3, 4}" by blast
  have "1 \<notin> dom (vc_bos (gc_pipe ctx1))" "2 \<notin> dom (vc_bos (gc_pipe ctx1))" using 1(2) by simp_all
  then have "\<exists>vc4'. vc4_create_fs (sample_answers 1) (sample_answers 2) (gc_pipe (default_values sample_fl ctx1)) =
      Some (True, vc4') \<and> dom (vc_bos vc4') = insert 1 (insert 2 (dom (vc_bos (gc_pipe (default_values sample_fl ctx1)))))"
    by (intro sample_create_fs) (simp_all add: domIff)
  then obtain vc2 where 2: "vc4_create_fs (sample_answers 1) (sample_answers 2) (gc_pipe (default_values sample_fl ctx1)) =
      Some (True, vc2)" "dom (vc_bos vc2) = {1, 2, 3, 4}" using 1(2) by auto
  have "5 \<notin> dom (vc_bos vc2)" using 2(2) by simp
  then have "vc_bos vc2 5 = None" by (simp add: domIff)
  moreover have "ea_context sample_egl = 64" "ea_gpu_fd sample_egl = 3" "ea_pipe sample_egl"
    "ea_fs sample_egl = sample_answers 1" "ea_uniforms sample_egl = sample_answers 2"
    by (simp_all add: sample_egl_def)
  ultimately show ?thesis
    using 0(1) 1(1) 2(1) by (simp add: eglCreateContext_def gl_context_create_def gl_default_state_def)
qed

lemma sample_calls_ok:
  assumes "vc_bos (gc_pipe ctx) 5 = None"
  shows "calls_ok sample_fl sample_mem sample_calls ctx" "frame_ok 0 sample_calls"
proof -
  let ?ctx = "glEnableClientState GL_VERTEX_ARRAY (glVertexPointer 2 GL_FLOAT 0 4096 ctx)"
  have "gc_pipe ?ctx = gc_pipe ctx"
    by (simp add: glEnableClientState_def gl_client_state_def glVertexPointer_def gl_pointer_array_def)
  then have "draw_env_ok sample_fl sample_env 0 3 ?ctx"
    using assms by (auto simp: draw_env_ok_def sample_env_def sample_answers_def vertex_bytes_def vertex_color_def Let_def
      list_all_iff split: prod.splits)
  then show "calls_ok sample_fl sample_mem sample_calls ctx" by (simp add: sample_calls_def split: option.splits)
  show "frame_ok 0 sample_calls" by (simp add: sample_calls_def JOB_CALLS_def)
qed

lemma sample_answers_ok: "egl_answers_ok sample_egl"
  by (simp add: egl_answers_ok_def sample_egl_def sample_answers_def)

lemma in_submissions: "j \<in> set (submissions vc4) \<longleftrightarrow> SUBMIT_CL j \<in> set (vc_calls vc4)"
  by (force simp: submissions_def split: drm_call.splits)



theorem gl_program_well_formed_witness:
  "\<exists>st ctx ctx'. eglCreateContext sample_fl sample_mem sample_egl 1 no_contexts = Some (64, st) \<and>
     egl_contexts st 64 = Some ctx \<and> gl_calls_run sample_fl sample_mem sample_calls ctx = Some ctx' \<and> context_wf ctx'"
proof -
  obtain st ctx where c: "eglCreateContext sample_fl sample_mem sample_egl 1 no_contexts = Some (64, st)"
    "egl_contexts st 64 = Some ctx" "vc_bos (gc_pipe ctx) 5 = None"
    using sample_egl_ok by blast
  obtain ctx' where r: "gl_calls_run sample_fl sample_mem sample_calls ctx = Some ctx'"
    using gl_program_inv [OF sample_mem_ok sample_answers_ok c(1) _ c(2) sample_calls_ok [OF c(3)]]
    by (auto elim!: returnsE)
  then show ?thesis using gl_program_well_formed [OF c(1) _ c(2) sample_calls_ok(1) [OF c(3)] r] c(1,2) by auto
qed

text \<open>A context with a frame that is not flushed, and one with a recorded error.\<close>

definition sample_new :: "(u32, u32) gl_context" where
  "sample_new = gl_context_init sample_fl 3 (zero_context sample_fl)"

definition sample_pending :: "(u32, u32) gl_context" where
  "sample_pending =
     (let r = sample_resource 3;
          fb = \<lparr>fb_width = 64, fb_height = 64, fb_nr_cbufs = 2, fb_cbuf0 = Some
            \<lparr>sf_texture = r, sf_cpp = 4, sf_width = 64, sf_height = 64, sf_offset = 0, sf_tiling = 0\<rparr>,
            fb_cbuf1 = None, fb_zsbuf = None\<rparr>
      in sample_new\<lparr>gc_screen := (gc_screen sample_new)\<lparr>sc_color_buf := Some r\<rparr>,
           gc_pipe := (gc_pipe sample_new)\<lparr>vc_needs_flush := True, vc_draw_min_x := 0, vc_draw_min_y := 0,
             vc_draw_max_x := 64, vc_draw_max_y := 64, vc_framebuffer := fb,
             vc_bos := [3 \<mapsto> \<lparr>ub_ref = 1, ub_size = 4096, ub_handle = 3, ub_map = 0, ub_mem = []\<rparr>]\<rparr>\<rparr>)"

theorem gl_context_destroy_pending_witness:
  "pending_frame sample_pending \<and> gl_context_destroy sample_mem (Some sample_pending) = None"
proof -
  have "pending_frame sample_pending"
    by (simp add: pending_frame_def sample_pending_def sample_new_def gl_context_init_def zero_context_def
        sample_resource_def Let_def)
  then show ?thesis using gl_context_destroy_pending [of sample_pending sample_mem] by simp
qed

theorem gl_first_error_reported_witness:
  "\<exists>ctx'. gl_calls_run sample_fl sample_mem [GlEnable 0, GlViewport 0 0 (-1) 4]
       (sample_new\<lparr>gc_last_error := GL_OUT_OF_MEMORY\<rparr>) = Some ctx' \<and>
     glGetError ctx' = (GL_OUT_OF_MEMORY, ctx'\<lparr>gc_last_error := GL_NO_ERROR\<rparr>)"
proof -
  obtain ctx' where r: "gl_calls_run sample_fl sample_mem [GlEnable 0, GlViewport 0 0 (-1) 4]
      (sample_new\<lparr>gc_last_error := GL_OUT_OF_MEMORY\<rparr>) = Some ctx'" by simp
  from gl_first_error_reported [OF this] show ?thesis using r by auto
qed

end
