(* ===== verification/Spec2Isabelle.thy ===== *)
theory Spec2Isabelle
  imports Vc4_Submit List_H Pipe_Inode Bitmap Sem Gl_Sample
begin

text \<open>
  A verification library for the uCore+ operating system of this repository, in the ARM build for
  the Raspberry Pi: the kernel driver of the VideoCore IV graphics processor with everything
  between it and an OpenGL ES program, and the parts of the kernel every process meets (scheduler,
  timers, semaphores, pipes, allocator, lists). Paths are relative to \<^verbatim>\<open>src/ucore/src\<close>.

  \<^bold>\<open>The parts and how they interact.\<close> A program calls the OpenGL ES functions of
  \<^verbatim>\<open>libs-user-ucore/libgl\<close>. The library turns clears and draws into a binner command list, shader
  records and a table of buffer handles, and passes them to the kernel as a job. The kernel
  (\<^verbatim>\<open>kern-ucore/arch/arm/mach-raspberrypi/vc4\<close>) copies the binner list through a validator, replaces
  handles by bus addresses, writes the render list itself, starts the two hardware threads and waits
  for them. Its buffers come from the firmware over the property mailbox. Below and beside the
  driver, \<^verbatim>\<open>kmalloc\<close> provides memory, the scheduler and the timers run processes, wait queues and
  semaphores block them, and pipes move bytes between them.

  \<^bold>\<open>How code is translated.\<close> Words of 8, 16 and 32 bits wrap as in C; a C structure is a record, a
  buffer a list of bytes with checked access, a heap of linked objects a map from addresses. State is
  passed along explicitly. An error code is a value of \<open>rc\<close>. The outer \<open>None\<close> of a result means that
  the C code has no defined outcome: an access out of bounds, a null or dangling pointer, a failed
  assertion or panic, or a loop that never ends (\<open>partial_function (option)\<close>). A theorem that says
  \<open>returns f Q\<close> therefore says that the code ends, without a fault, in a state with \<open>Q\<close>. What lies
  outside the repository is an argument with a named contract: the firmware (\<open>fw_ok\<close>), the registers of
  the graphics processor (\<open>hw_ok\<close>), user memory (\<open>kenv\<close>), the answers of \<^verbatim>\<open>malloc\<close>, \<^verbatim>\<open>open\<close> and \<^verbatim>\<open>ioctl\<close> to the
  library (\<open>bo_answers\<close>, \<open>window_answers\<close>, \<open>egl_answers\<close>), and floating-point arithmetic (\<open>float_ops\<close>),
  of which nothing is assumed.

  \<^bold>\<open>Shared vocabulary.\<close> \<open>Prelude\<close>: machine words, error codes, the predicates \<open>returns\<close> and
  \<open>ensures\<close>, byte buffers with little-endian access.

  \<^bold>\<open>The kernel driver.\<close>
  \<^item> \<open>Vc4_Packet\<close> and \<open>Vc4_Cl\<close>: packets, bit fields, ioctl structures (\<^verbatim>\<open>vc4_packet.h\<close>, \<^verbatim>\<open>vc4_regs.h\<close>,
    \<^verbatim>\<open>vc4_drm.h\<close>) and the command list writer (\<^verbatim>\<open>vc4_cl.h\<close>), with an algebra of emitted bytes.
  \<^item> \<open>Mailbox\<close>: property messages (\<^verbatim>\<open>mailbox_property.c\<close>); every request is a well-formed message and
    its answer is read from the place the firmware writes it.
  \<^item> \<open>Vc4_Bo\<close>: the device and its table of buffer objects (\<^verbatim>\<open>vc4_bo.c\<close>, \<^verbatim>\<open>vc4_drv.h\<close>).
  \<^item> \<open>Vc4_Validate\<close>: the validator (\<^verbatim>\<open>vc4_validate.c\<close>). The locale \<open>packet_validator\<close> is the contract of
    a per-packet check; it is interpreted on each of them. What is let through consists of allowed
    packets only and reaches the hardware list unchanged but for relocations; index lists stay inside
    their buffers; shader records get the addresses of the right buffers.
  \<^item> \<open>Vc4_Accept\<close>: the converse; every list of a class of well-formed commands is accepted.
  \<^item> \<open>Vc4_Render\<close>: the render list (\<^verbatim>\<open>vc4_render_cl.c\<close>). For every job the bytes written are given by a
    closed specification, and the precomputed size is exact.
  \<^item> \<open>Vc4_Gem\<close> and \<open>Vc4_Submit\<close>: submission and the ioctl dispatch (\<^verbatim>\<open>vc4_gem.c\<close>, \<^verbatim>\<open>vc4_drv.c\<close>). A
    submission ends for every content of the lists, programs the hardware in the documented order and
    leaves tables, mappings and firmware memory as they were, on every error path.

  \<^bold>\<open>The graphics library.\<close>
  \<^item> \<open>Gl_Vc4\<close>: its VideoCore driver (\<^verbatim>\<open>libgl/src/drivers/vc4\<close>), all operations of the interface.
  \<^item> \<open>Gl_Safe\<close>, \<open>Gl_Jobs\<close> and \<open>Gl_Session\<close>: the invariant \<open>gl_ok\<close> (lists inside their memory,
    reference counts exact, lists parse as well-formed commands), kept by every operation; hence every
    session runs without a fault and its jobs are accepted by the validator of the kernel.
  \<^item> \<open>Gl_Frame\<close>: what drawing leaves alone, and that destroying a context frees the whole heap.
  \<^item> \<open>Gl_Api\<close>: the OpenGL ES and EGL functions (\<^verbatim>\<open>gl_context.c\<close>, \<^verbatim>\<open>gl.c\<close>, \<^verbatim>\<open>egl.c\<close>).
  \<^item> \<open>Gl_Program\<close> and \<open>Gl_Wf\<close>: programs as sequences of calls. No program makes the library submit a
    job that is rejected; a flushed context is destroyed without a leak, a context with a pending frame
    is used after it was freed; contexts stay well formed and errors stick until they are read.
  \<^item> \<open>Gl_Sample\<close>: concrete sessions and programs.

  \<^bold>\<open>The rest of the kernel.\<close>
  \<^item> \<open>List_H\<close>: \<^verbatim>\<open>libs/list.h\<close> on a heap of links; insertion and removal refine the operations on
    sequences. The locale \<open>tail_queue\<close> is the contract of a queue, interpreted on rings of links.
  \<^item> \<open>Slab\<close>: the size classes of \<^verbatim>\<open>kmalloc\<close> (\<^verbatim>\<open>mm/slab.c\<close>).
  \<^item> \<open>Bitmap\<close>: the free-block bitmap of SFS (\<^verbatim>\<open>fs/sfs/bitmap.c\<close>) refines a set of free blocks.
  \<^item> \<open>Iobuf\<close>, \<open>Pipe\<close>, \<open>Pipe_Inode\<close>: \<^verbatim>\<open>fs/iobuf.c\<close> and \<^verbatim>\<open>fs/pipe\<close>. The ring buffer is a FIFO queue for
    every interleaving of readers and writers (the locales \<open>bounded_fifo\<close> and \<open>budgeted_fifo\<close>); data
    written at one end arrives unchanged at the other; a wake-up can be lost.
  \<^item> \<open>Sched\<close>: \<^verbatim>\<open>schedule/sched.c\<close>, \<^verbatim>\<open>sched_RR.c\<close>, \<^verbatim>\<open>sched_MLFQ.c\<close>. The locales \<open>scheduling_class\<close> and
    \<open>work_conserving\<close> are the contract of a class, interpreted on both; the run queues stay consistent,
    and on one processor no ready process starves under the configured class.
  \<^item> \<open>Timer\<close>: the delta list of timers; a tick fires exactly the timers that are due.
  \<^item> \<open>Sem\<close>: wait queues and semaphores (\<^verbatim>\<open>sync/wait.c\<close>, \<^verbatim>\<open>sync/sem.c\<close>); mutual exclusion in every reachable
    state of a step relation.

  \<^bold>\<open>Bounds.\<close> There is no fuel. Loops that may not end are partial functions, and that they end is proved
  where it is claimed. The remaining bounds are those of the code: pipe positions are signed 32-bit
  numbers, so a pipe carries less than 2 GB; \<^verbatim>\<open>kmalloc\<close> serves up to 128 KB, so a job with larger lists
  panics and the theorems about submissions exclude it, as they exclude tile number 255, for which the
  loops of the render list do not end, and more than 8 handles, for which the handle array is too small.
  The render list is assumed below 16 MB. A bitmap has at most \<open>2\<^sup>2\<^sup>0\<close> blocks, which fits \<^verbatim>\<open>kmalloc\<close>. A job
  of the graphics library holds at most \<open>JOB_CALLS\<close> (two million) clears and draws, so that its lists, at
  most \<open>LIST_MAX\<close> (\<open>2\<^sup>2\<^sup>9\<close>) bytes, never reach the 32-bit limit of their sizes.

  \<^bold>\<open>Not modelled.\<close> Registers and their polling outside the graphics processor (mailbox transport,
  framebuffer, interrupt controller, serial line); physical and virtual memory, process creation, traps
  and system call entry, which depend on page tables, stacks and assembly; of SFS everything but the
  bitmap, and the file layer above it, which dispatch through tables of function pointers to disk
  input and output; the pages behind the slab caches; events and message boxes between processes;
  string and formatting functions; imported code (YAFFS2, FatFs, Linux drivers, Kconfig); other
  processors; boot loaders, build tools, user programs and the rest of the user library.
\<close>

end
